(* ===== verification/Fix_Prelude.thy ===== *)
theory Fix_Prelude
  imports Main "HOL-Library.Word"
begin

text \<open>
  Shared vocabulary of the development: the machine types, the result type with Rust's three
  outcomes, the small part of the Rust standard library the crates use (slices, searches,
  decimal printing and parsing, UTF-8 validation), and the generic lemmas and rule collections
  the component theories use.

  Conventions. A Rust \<open>u8\<close>, \<open>u32\<close>, \<open>u64\<close> is a word of that width. \<open>Bytes\<close>, \<open>Vec<u8>\<close> and
  \<open>&[u8]\<close> are lists of \<open>u8\<close>. A \<open>String\<close> or \<open>&str\<close> is the list of its UTF-8 bytes as HOL
  characters, so \<open>len()\<close> is \<open>length\<close> and \<open>as_bytes()\<close> is a map. A \<open>usize\<close> is a \<open>nat\<close>; the places
  where the code guards against overflow (\<open>checked_add\<close>, \<open>checked_mul\<close>) compare with
  \<open>usize_max\<close> of a 64-bit target.
\<close>

text \<open>
  \<open>fix_eval\<close> collects the equations that evaluate a closed term of the model, \<open>fix_cong\<close> the
  congruences that keep the simplifier out of a continuation until its argument is a value:
  \<open>simp add: fix_eval cong: fix_cong\<close> runs the model inside the kernel.
\<close>

named_theorems fix_eval
named_theorems fix_cong

section \<open>Machine types\<close>

type_synonym u8 = "8 word"
type_synonym u32 = "32 word"
type_synonym u64 = "64 word"
type_synonym bytes = "u8 list"

definition usize_max :: nat where
  "usize_max = 2 ^ 64 - 1"

section \<open>Results\<close>

text \<open>
  \<open>Ok\<close> and \<open>Err\<close> are Rust's; \<open>Panic\<close> is a panic (a slice out of range, an arithmetic overflow in
  a build with overflow checks, a failed \<open>expect\<close>). The operator \<open>?\<close> is \<open>bindR\<close>.
\<close>

datatype ('e, 'a) result = Ok 'a | Err 'e | Panic

definition bindR :: "('e, 'a) result \<Rightarrow> ('a \<Rightarrow> ('e, 'b) result) \<Rightarrow> ('e, 'b) result" where
  "bindR r f = (case r of Ok x \<Rightarrow> f x | Err e \<Rightarrow> Err e | Panic \<Rightarrow> Panic)"

definition map_err :: "('e \<Rightarrow> 'f) \<Rightarrow> ('e, 'a) result \<Rightarrow> ('f, 'a) result" where
  "map_err f r = (case r of Ok x \<Rightarrow> Ok x | Err e \<Rightarrow> Err (f e) | Panic \<Rightarrow> Panic)"

definition ok_or :: "'e \<Rightarrow> 'a option \<Rightarrow> ('e, 'a) result" where
  "ok_or e x = (case x of None \<Rightarrow> Err e | Some v \<Rightarrow> Ok v)"

lemma bindR_simps [simp]:
  "bindR (Ok x) f = f x" "bindR (Err e) f = Err e" "bindR Panic f = Panic"
  by (simp_all add: bindR_def)

lemma bindR_eq_Ok: "bindR r f = Ok y \<longleftrightarrow> (\<exists>x. r = Ok x \<and> f x = Ok y)"
  by (cases r) auto

lemma bindR_eq_Err: "bindR r f = Err e \<longleftrightarrow> r = Err e \<or> (\<exists>x. r = Ok x \<and> f x = Err e)"
  by (cases r) auto

lemma bindR_eq_Panic: "bindR r f = Panic \<longleftrightarrow> r = Panic \<or> (\<exists>x. r = Ok x \<and> f x = Panic)"
  by (cases r) auto

lemma map_err_simps [simp]:
  "map_err f (Ok x) = Ok x" "map_err f (Err e) = Err (f e)" "map_err f Panic = Panic"
  by (simp_all add: map_err_def)

lemma map_err_eq [simp]:
  "map_err f r = Ok x \<longleftrightarrow> r = Ok x" "map_err f r = Panic \<longleftrightarrow> r = Panic"
  "map_err f r = Err e' \<longleftrightarrow> (\<exists>e. r = Err e \<and> e' = f e)"
  by (cases r; auto)+

lemma ok_or_simps [simp]: "ok_or e None = Err e" "ok_or e (Some v) = Ok v"
  by (simp_all add: ok_or_def)

lemma ok_or_eq [simp]:
  "ok_or e x = Ok v \<longleftrightarrow> x = Some v" "ok_or e x \<noteq> Panic"
  "ok_or e x = Err e' \<longleftrightarrow> x = None \<and> e' = e"
  by (cases x; auto)+

lemma bindR_weak_cong [fix_cong]: "r = r' \<Longrightarrow> bindR r f = bindR r' f"
  by simp

lemmas bindR_eqs = bindR_eq_Ok bindR_eq_Err bindR_eq_Panic

fun is_Ok :: "('e, 'a) result \<Rightarrow> bool" where
  "is_Ok (Ok _) = True"
| "is_Ok _ = False"

section \<open>Integer operations\<close>

text \<open>
  \<open>a + b\<close> on \<open>u64\<close> in a build with overflow checks (the dev and test profiles, which every
  documented command of the repository builds): overflow panics.
\<close>

definition add64 :: "u64 \<Rightarrow> u64 \<Rightarrow> ('e, u64) result" where
  "add64 a b = (if unat a + unat b < 2 ^ 64 then Ok (a + b) else Panic)"

definition saturating_sub64 :: "u64 \<Rightarrow> u64 \<Rightarrow> u64" where
  "saturating_sub64 a b = (if a < b then 0 else a - b)"

lemma add64_Ok: "add64 a b = Ok c \<Longrightarrow> unat c = unat a + unat b"
  by (auto simp: add64_def unat_word_ariths split: if_splits)

lemma add64_not_Err [simp]: "add64 a b \<noteq> Err e"
  by (simp add: add64_def)

lemma add64_one_less: "add64 a 1 = Ok c \<Longrightarrow> a < c"
  by (drule add64_Ok) (simp add: word_less_nat_alt)

lemma add64_one_eq: "add64 a 1 = Ok c \<Longrightarrow> x < c \<longleftrightarrow> x < a \<or> x = a"
  by (drule add64_Ok) (auto simp: word_less_nat_alt word_unat_eq_iff)

section \<open>Slices and searches\<close>

text \<open>\<open>&xs[a..b]\<close>, which panics unless \<open>a <= b <= len\<close>, and \<open>&xs[a..]\<close>.\<close>

definition slice :: "'a list \<Rightarrow> nat \<Rightarrow> nat \<Rightarrow> ('e, 'a list) result" where
  "slice xs a b = (if a \<le> b \<and> b \<le> length xs then Ok (take (b - a) (drop a xs)) else Panic)"

definition slice_from :: "'a list \<Rightarrow> nat \<Rightarrow> ('e, 'a list) result" where
  "slice_from xs a = (if a \<le> length xs then Ok (drop a xs) else Panic)"

definition index :: "'a list \<Rightarrow> nat \<Rightarrow> ('e, 'a) result" where
  "index xs i = (if i < length xs then Ok (xs ! i) else Panic)"

fun starts_with :: "'a list \<Rightarrow> 'a list \<Rightarrow> bool" where
  "starts_with xs [] = True"
| "starts_with [] (p # ps) = False"
| "starts_with (x # xs) (p # ps) = (x = p \<and> starts_with xs ps)"

fun position :: "('a \<Rightarrow> bool) \<Rightarrow> 'a list \<Rightarrow> nat option" where
  "position P [] = None"
| "position P (x # xs) = (if P x then Some 0 else map_option Suc (position P xs))"

lemma slice_Ok_iff: "slice xs a b = Ok ys \<longleftrightarrow> a \<le> b \<and> b \<le> length xs \<and> ys = take (b - a) (drop a xs)"
  by (auto simp: slice_def)

lemma slice_not_Err [simp]: "slice xs a b \<noteq> Err e"
  by (simp add: slice_def)

lemma starts_with_iff: "starts_with xs ps \<longleftrightarrow> take (length ps) xs = ps"
  by (induction xs ps rule: starts_with.induct) auto

lemma starts_with_split: "starts_with xs ps \<longleftrightarrow> (\<exists>r. xs = ps @ r)"
  by (metis append_eq_conv_conj append_take_drop_id starts_with_iff)

lemma starts_with_append [simp]: "starts_with (ps @ xs) ps"
  by (simp add: starts_with_iff)

lemma position_None: "position P xs = None \<longleftrightarrow> (\<forall>x \<in> set xs. \<not> P x)"
  by (induction xs) auto

lemma position_Some:
  "position P xs = Some i \<longleftrightarrow> i < length xs \<and> P (xs ! i) \<and> (\<forall>j < i. \<not> P (xs ! j))"
proof (induction xs arbitrary: i)
  case (Cons x xs)
  then show ?case by (cases i) (auto simp: nth_Cons less_Suc_eq_0_disj split: nat.splits)
qed simp

lemma position_append:
  "position P (xs @ ys) = (case position P xs of Some i \<Rightarrow> Some i
     | None \<Rightarrow> map_option (\<lambda>i. length xs + i) (position P ys))"
  by (induction xs) (cases "position P ys"; auto split: option.splits)+

lemma position_append_hit:
  "\<forall>x \<in> set xs. \<not> P x \<Longrightarrow> P y \<Longrightarrow> position P (xs @ y # ys) = Some (length xs)"
  by (induction xs) auto

section \<open>Text\<close>

definition as_bytes :: "string \<Rightarrow> bytes" where
  "as_bytes s = map of_char s"

definition str_of_bytes :: "bytes \<Rightarrow> string" where
  "str_of_bytes bs = map (\<lambda>b. char_of (unat b)) bs"

lemma as_bytes_simps [simp]:
  "as_bytes [] = []" "as_bytes (c # s) = of_char c # as_bytes s"
  "as_bytes (s @ t) = as_bytes s @ as_bytes t"
  by (simp_all add: as_bytes_def)

lemma as_bytes_Nil [simp]: "as_bytes s = [] \<longleftrightarrow> s = []"
  by (simp add: as_bytes_def)

lemma length_as_bytes [simp]: "length (as_bytes s) = length s"
  by (simp add: as_bytes_def)


lemma unat_of_char [simp]: "unat (of_char c :: u8) = of_char c"
proof -
  have "unat (of_char c :: u8) = unat (of_nat (of_char c) :: u8)"
    by (simp add: of_nat_of_char)
  also have "\<dots> = of_char c mod 256"
    by (subst unat_of_nat) simp
  finally show ?thesis by simp
qed

lemma unat_u8_less: "unat (b :: u8) < 256"
  using unsigned_less [of b] by simp

lemma unat_u64_less: "unat (w :: u64) < 2 ^ 64"
  using unsigned_less [of w] by simp

lemma unat_of_nat_u8: "n < 256 \<Longrightarrow> unat (of_nat n :: u8) = n"
  by (subst unat_of_nat) simp

lemma unat_of_nat_u64: "n < 2 ^ 64 \<Longrightarrow> unat (of_nat n :: u64) = n"
  by (subst unat_of_nat) simp

lemma str_of_bytes_simps [simp]:
  "str_of_bytes [] = []" "str_of_bytes (b # bs) = char_of (unat b) # str_of_bytes bs"
  by (simp_all add: str_of_bytes_def)

lemma str_of_as_bytes [simp]: "str_of_bytes (as_bytes s) = s"
  by (induction s) simp_all

lemma as_bytes_inject [simp]: "as_bytes s = as_bytes t \<longleftrightarrow> s = t"
  by (metis str_of_as_bytes)

lemma as_bytes_str_of [simp]: "as_bytes (str_of_bytes bs) = bs"
proof (induction bs)
  case (Cons b bs)
  have "unat (of_char (char_of (unat b)) :: u8) = unat b"
    using unat_u8_less [of b] by simp
  then have "(of_char (char_of (unat b)) :: u8) = b" by (simp only: word_unat_eq_iff)
  with Cons show ?case by simp
qed simp

definition is_digit :: "u8 \<Rightarrow> bool" where
  "is_digit b \<longleftrightarrow> 48 \<le> b \<and> b \<le> 57"

definition digit_value :: "u8 \<Rightarrow> nat" where
  "digit_value b = unat b - 48"

lemma is_digit_unat [fix_eval]: "is_digit b \<longleftrightarrow> 48 \<le> unat b \<and> unat b \<le> 57"
  by (simp add: is_digit_def word_le_nat_alt)

subsection \<open>Decimal printing and parsing\<close>

text \<open>\<open>to_string()\<close> of an unsigned integer, and \<open>format!("{:03}")\<close>.\<close>

fun dec :: "nat \<Rightarrow> string" where
  "dec n = (if n < 10 then [char_of (48 + n)] else dec (n div 10) @ [char_of (48 + n mod 10)])"

declare dec.simps [simp del]

definition dec64 :: "u64 \<Rightarrow> string" where
  "dec64 w = dec (unat w)"

definition dec03 :: "nat \<Rightarrow> string" where
  "dec03 n = replicate (3 - length (dec n)) (CHR ''0'') @ dec n"

definition dec_value :: "bytes \<Rightarrow> nat" where
  "dec_value bs = foldl (\<lambda>v b. v * 10 + digit_value b) 0 bs"

text \<open>
  \<open>str::parse\<close> for an unsigned type with largest value \<open>m\<close>: one leading plus sign is accepted,
  every other character must be an ASCII digit, the value must fit.
\<close>

definition parse_uint :: "nat \<Rightarrow> string \<Rightarrow> nat option" where
  "parse_uint m s =
     (let ds = as_bytes (case s of c # cs \<Rightarrow> if c = CHR ''+'' \<and> cs \<noteq> [] then cs else s | [] \<Rightarrow> [])
      in if ds = [] \<or> (\<exists>b \<in> set ds. \<not> is_digit b) \<or> m < dec_value ds then None
         else Some (dec_value ds))"

definition parse_u64 :: "string \<Rightarrow> u64 option" where
  "parse_u64 s = map_option of_nat (parse_uint (2 ^ 64 - 1) s)"

definition parse_u32 :: "string \<Rightarrow> u32 option" where
  "parse_u32 s = map_option of_nat (parse_uint (2 ^ 32 - 1) s)"

lemma dec_small [fix_eval]: "n < 10 \<Longrightarrow> dec n = [(''0123456789'') ! n]"
proof -
  assume "n < 10"
  then have "n \<in> {0, 1, 2, 3, 4, 5, 6, 7, 8, 9}" by auto
  then show ?thesis by (auto simp: dec.simps char_of_def bit_0 bit_Suc_0_iff)
qed

lemma dec_large [fix_eval]: "10 \<le> n \<Longrightarrow> dec n = dec (n div 10) @ dec (n mod 10)"
  by (subst dec.simps) (simp add: dec.simps [of "n mod 10"])

lemmas [fix_eval] = dec64_def dec03_def parse_uint_def parse_u64_def parse_u32_def
  digit_value_def dec_value_def Let_def slice_def slice_from_def index_def add64_def
  saturating_sub64_def usize_max_def

lemma char_of_eval [fix_eval]:
  "char_of (n :: nat) = Char (odd n) (odd (n div 2)) (odd (n div 4)) (odd (n div 8))
     (odd (n div 16)) (odd (n div 32)) (odd (n div 64)) (odd (n div 128))"
  by (simp add: char_of_def bit_iff_odd)

lemma dec_nonempty [simp]: "dec n \<noteq> []"
  by (subst dec.simps) simp

lemma of_char_digit: "d < 10 \<Longrightarrow> (of_char (char_of (48 + d :: nat)) :: u8) = of_nat (48 + d)"
  by (rule word_unat_eq_iff [THEN iffD2]) (simp add: unat_of_nat_u8 del: of_nat_add)

lemma is_digit_of_nat: "d < 10 \<Longrightarrow> is_digit (of_nat (48 + d))"
  by (simp add: is_digit_def word_le_nat_alt unat_of_nat_u8 del: of_nat_add)

lemma digit_value_of_nat: "d < 10 \<Longrightarrow> digit_value (of_nat (48 + d)) = d"
  by (simp add: digit_value_def unat_of_nat_u8 del: of_nat_add)

lemma dec_digits: "b \<in> set (as_bytes (dec n)) \<Longrightarrow> is_digit b"
proof (induction n rule: dec.induct)
  case (1 n)
  then show ?case
    by (subst (asm) (2) dec.simps)
      (auto simp: of_char_digit is_digit_of_nat simp del: of_nat_add split: if_splits)
qed

lemma dec_value_snoc [simp]: "dec_value (bs @ [b]) = dec_value bs * 10 + digit_value b"
  by (simp add: dec_value_def)

lemma dec_value_dec [simp]: "dec_value (as_bytes (dec n)) = n"
proof (induction n rule: dec.induct)
  case (1 n)
  show ?case
  proof (cases "n < 10")
    case True
    then show ?thesis
      by (subst dec.simps)
        (simp add: of_char_digit digit_value_of_nat dec_value_def del: of_nat_add)
  next
    case False
    with 1 show ?thesis
      by (subst dec.simps) (simp add: of_char_digit digit_value_of_nat del: of_nat_add)
  qed
qed

lemma dec_inject [simp]: "dec m = dec n \<longleftrightarrow> m = n"
  by (metis dec_value_dec)

lemma dec64_inject [simp]: "dec64 m = dec64 n \<longleftrightarrow> m = n"
  by (simp add: dec64_def word_unat_eq_iff)

lemma is_digit_plus: "\<not> is_digit (of_char (CHR ''+''))"
  by (simp add: is_digit_def)

lemma parse_uint_dec: "n \<le> m \<Longrightarrow> parse_uint m (dec n) = Some n"
proof -
  assume n: "n \<le> m"
  have hd: "hd (dec n) \<noteq> CHR ''+''"
    using dec_digits [of "of_char (CHR ''+'')" n] is_digit_plus
    by (cases "dec n") (auto simp: as_bytes_def)
  have "as_bytes (case dec n of c # cs \<Rightarrow> if c = CHR ''+'' \<and> cs \<noteq> [] then cs else dec n | [] \<Rightarrow> [])
      = as_bytes (dec n)"
    using hd by (auto split: list.splits)
  moreover have "as_bytes (dec n) \<noteq> []" by (simp add: as_bytes_def)
  moreover have "\<forall>b \<in> set (as_bytes (dec n)). is_digit b" by (simp add: dec_digits)
  ultimately show ?thesis using n by (simp add: parse_uint_def Let_def)
qed

lemma parse_u64_dec64 [simp]: "parse_u64 (dec64 w) = Some w"
proof -
  have "unat w \<le> 2 ^ 64 - 1" using unat_u64_less [of w] by simp
  then show ?thesis by (simp add: parse_u64_def dec64_def parse_uint_dec)
qed

subsection \<open>UTF-8\<close>

text \<open>\<open>std::str::from_utf8\<close>: the well-formed byte sequences of the Unicode standard.\<close>

definition utf8_cont :: "u8 \<Rightarrow> bool" where
  "utf8_cont b \<longleftrightarrow> 128 \<le> b \<and> b \<le> 191"

definition utf8_head3 :: "u8 \<Rightarrow> u8 \<Rightarrow> bool" where
  "utf8_head3 b0 b1 \<longleftrightarrow>
     (if b0 = 224 then 160 \<le> b1 \<and> b1 \<le> 191
      else if b0 = 237 then 128 \<le> b1 \<and> b1 \<le> 159
      else 225 \<le> b0 \<and> b0 \<le> 239 \<and> utf8_cont b1)"

definition utf8_head4 :: "u8 \<Rightarrow> u8 \<Rightarrow> bool" where
  "utf8_head4 b0 b1 \<longleftrightarrow>
     (if b0 = 240 then 144 \<le> b1 \<and> b1 \<le> 191
      else if b0 = 244 then 128 \<le> b1 \<and> b1 \<le> 143
      else 241 \<le> b0 \<and> b0 \<le> 243 \<and> utf8_cont b1)"

fun utf8_valid :: "bytes \<Rightarrow> bool" where
  "utf8_valid [] = True"
| "utf8_valid (b0 # bs) =
     (if b0 < 128 then utf8_valid bs
      else if 194 \<le> b0 \<and> b0 \<le> 223 then
        (case bs of b1 # bs1 \<Rightarrow> utf8_cont b1 \<and> utf8_valid bs1 | _ \<Rightarrow> False)
      else if b0 < 240 then
        (case bs of b1 # b2 # bs2 \<Rightarrow> utf8_head3 b0 b1 \<and> utf8_cont b2 \<and> utf8_valid bs2 | _ \<Rightarrow> False)
      else
        (case bs of
           b1 # b2 # b3 # bs3 \<Rightarrow>
             utf8_head4 b0 b1 \<and> utf8_cont b2 \<and> utf8_cont b3 \<and> utf8_valid bs3
         | _ \<Rightarrow> False))"

declare utf8_valid.simps(2) [simp del]

definition from_utf8 :: "bytes \<Rightarrow> string option" where
  "from_utf8 bs = (if utf8_valid bs then Some (str_of_bytes bs) else None)"

lemmas [fix_eval] = from_utf8_def utf8_valid.simps(2) utf8_cont_def utf8_head3_def utf8_head4_def

lemma utf8_valid_ascii: "\<forall>b \<in> set bs. b < 128 \<Longrightarrow> utf8_valid bs"
  by (induction bs) (simp_all add: utf8_valid.simps(2))

lemma utf8_valid_dec [simp]: "utf8_valid (as_bytes (dec n))"
proof (rule utf8_valid_ascii, rule ballI)
  fix b assume "b \<in> set (as_bytes (dec n))"
  then have "is_digit b" by (rule dec_digits)
  then have "b \<le> 57" by (simp add: is_digit_def)
  then show "b < 128" by (rule order.strict_trans1) simp
qed

lemma from_utf8_dec [simp]: "from_utf8 (as_bytes (dec n)) = Some (dec n)"
  by (simp add: from_utf8_def)

end
