(* ===== verification/Fix_Protocol.thy ===== *)
theory Fix_Protocol
  imports Fix_Prelude
begin

text \<open>
  The wire codec of \<open>crates/fix-protocol/src/lib.rs\<close>: fields, the encoder \<open>encode_message\<close>, the
  frame scanner \<open>try_take_frame\<close>, the stream decoder \<open>FrameDecoder::ingest\<close> and the parser
  \<open>parse_frame\<close>. Every slice of the code that could be out of range is a \<open>slice\<close> that panics, so
  that the absence of panics is a theorem and not a modelling decision.
\<close>

section \<open>Data\<close>

abbreviation SOH :: u8 where "SOH \<equiv> 1"

definition CHECKSUM_FIELD_LEN :: nat where
  "CHECKSUM_FIELD_LEN = 7"

datatype frame_error = Malformed string | BodyTooLarge | BufferedDataTooLarge | LengthOverflow

datatype field = Field (field_tag: u32) (field_value: bytes)

datatype codec_error = MsgTypeMustBeFirst | ManagedField u32 | InvalidTag | InvalidBeginString

record parsed_message =
  pm_begin_string :: bytes
  pm_fields :: "field list"
  pm_checksum :: u8

datatype parse_error = Frame frame_error | ParseMalformed string

text \<open>\<open>fields.first().map(|field| field.tag)\<close>, and the accessors of \<open>ParsedMessage\<close>.\<close>

definition first_tag :: "field list \<Rightarrow> u32 option" where
  "first_tag fs = (case fs of [] \<Rightarrow> None | f # _ \<Rightarrow> Some (field_tag f))"

definition msg_type :: "parsed_message \<Rightarrow> bytes option" where
  "msg_type m = (case pm_fields m of [] \<Rightarrow> None
     | f # _ \<Rightarrow> if field_tag f = 35 then Some (field_value f) else None)"

definition values_of :: "parsed_message \<Rightarrow> u32 \<Rightarrow> bytes list" where
  "values_of m t = map field_value (filter (\<lambda>f. field_tag f = t) (pm_fields m))"

section \<open>Encoding\<close>

text \<open>\<open>field.tag.to_string()\<close>, an equals sign, the value and the delimiter.\<close>

definition encode_field :: "u32 \<Rightarrow> bytes \<Rightarrow> bytes" where
  "encode_field t v = as_bytes (dec (unat t)) @ as_bytes ''='' @ v @ [SOH]"

fun encode_body :: "field list \<Rightarrow> (codec_error, bytes) result" where
  "encode_body [] = Ok []"
| "encode_body (Field t v # fs) =
     (if t = 0 then Err InvalidTag
      else if 8 \<le> t \<and> t \<le> 10 then Err (ManagedField t)
      else bindR (encode_body fs) (\<lambda>body. Ok (encode_field t v @ body)))"

definition checksum_of :: "bytes \<Rightarrow> u8" where
  "checksum_of bs = foldl (+) 0 bs"

definition encode_header :: "bytes \<Rightarrow> nat \<Rightarrow> bytes" where
  "encode_header bs n = as_bytes ''8='' @ bs @ [SOH] @ as_bytes ''9='' @ as_bytes (dec n) @ [SOH]"

definition encode_trailer :: "u8 \<Rightarrow> bytes" where
  "encode_trailer c = as_bytes ''10='' @ as_bytes (dec03 (unat c)) @ [SOH]"

definition encode_message :: "bytes \<Rightarrow> field list \<Rightarrow> (codec_error, bytes) result" where
  "encode_message bs fs =
     (if bs = [] \<or> (\<exists>b \<in> set bs. b = SOH \<or> b = of_char (CHR ''='')) then Err InvalidBeginString
      else if first_tag fs \<noteq> Some 35 then Err MsgTypeMustBeFirst
      else bindR (encode_body fs) (\<lambda>body.
        let wire = encode_header bs (length body) @ body
        in Ok (wire @ encode_trailer (checksum_of wire))))"

section \<open>Scanning frames\<close>

definition find_soh :: "bytes \<Rightarrow> nat \<Rightarrow> nat option" where
  "find_soh input start =
     (if start \<le> length input
      then map_option (\<lambda>offset. start + offset) (position (\<lambda>b. b = SOH) (drop start input))
      else None)"

fun decimal_fold :: "nat \<Rightarrow> bytes \<Rightarrow> (frame_error, nat) result" where
  "decimal_fold v [] = Ok v"
| "decimal_fold v (b # bs) =
     (if usize_max < v * 10 then Err LengthOverflow
      else if usize_max < v * 10 + digit_value b then Err LengthOverflow
      else decimal_fold (v * 10 + digit_value b) bs)"

definition parse_decimal :: "bytes \<Rightarrow> (frame_error, nat) result" where
  "parse_decimal input =
     (if input = [] \<or> (\<exists>b \<in> set input. \<not> is_digit b)
      then Err (Malformed ''expected an unsigned decimal value'')
      else decimal_fold 0 input)"

definition checked_add_usize :: "nat \<Rightarrow> nat \<Rightarrow> (frame_error, nat) result" where
  "checked_add_usize a b = (if a + b \<le> usize_max then Ok (a + b) else Err LengthOverflow)"

text \<open>
  \<open>try_take_frame\<close> splits the first frame off the buffer: \<open>Ok None\<close> asks for more bytes,
  \<open>Ok (Some (frame, rest))\<close> is \<open>buffer.split_to(frame_end)\<close> with what stays in the buffer. The
  second half, from the parsed BodyLength on, is \<open>take_frame_at\<close>.
\<close>

definition take_frame_at :: "bytes \<Rightarrow> nat \<Rightarrow> nat \<Rightarrow> nat \<Rightarrow> (frame_error, (bytes \<times> bytes) option) result" where
  "take_frame_at buffer max_body_length end_body_length body_length =
     (if max_body_length < body_length then Err BodyTooLarge
      else bindR (checked_add_usize end_body_length 1) (\<lambda>body_start.
      bindR (checked_add_usize body_start body_length) (\<lambda>checksum_start.
      bindR (checked_add_usize checksum_start CHECKSUM_FIELD_LEN) (\<lambda>frame_end.
      if length buffer < frame_end then Ok None
      else
        bindR (slice buffer checksum_start frame_end) (\<lambda>checksum_field.
        bindR (index checksum_field 6) (\<lambda>last.
        if \<not> starts_with checksum_field (as_bytes ''10='') \<or> last \<noteq> SOH
        then Err (Malformed ''CheckSum(10) is not at the BodyLength boundary'')
        else
          bindR (slice checksum_field 3 6) (\<lambda>digits.
          bindR (parse_decimal digits) (\<lambda>claimed.
          if 255 < claimed then Err (Malformed ''CheckSum(10) must fit in one byte'')
          else if checksum_of (take checksum_start buffer) \<noteq> of_nat claimed
          then Err (Malformed ''CheckSum(10) mismatch'')
          else Ok (Some (take frame_end buffer, drop frame_end buffer))))))))))"

definition try_take_frame :: "bytes \<Rightarrow> nat \<Rightarrow> (frame_error, (bytes \<times> bytes) option) result" where
  "try_take_frame buffer max_body_length =
     (if length buffer < 2 then Ok None
      else if \<not> starts_with buffer (as_bytes ''8='')
      then Err (Malformed ''BeginString(8) must be first'')
      else case find_soh buffer 0 of
        None \<Rightarrow> Ok None
      | Some end_begin_string \<Rightarrow>
          let body_length_start = end_begin_string + 1 in
          if length buffer < body_length_start + 2 then Ok None
          else bindR (slice_from buffer body_length_start) (\<lambda>tail.
            if \<not> starts_with tail (as_bytes ''9='')
            then Err (Malformed ''BodyLength(9) must be second'')
            else case find_soh buffer body_length_start of
              None \<Rightarrow> Ok None
            | Some end_body_length \<Rightarrow>
                bindR (slice buffer (body_length_start + 2) end_body_length) (\<lambda>digits.
                bindR (parse_decimal digits) (\<lambda>body_length.
                take_frame_at buffer max_body_length end_body_length body_length))))"

section \<open>The stream decoder\<close>

record frame_decoder =
  fd_buffer :: bytes
  fd_max_body_length :: nat

definition new_decoder :: "nat \<Rightarrow> frame_decoder" where
  "new_decoder n = \<lparr>fd_buffer = [], fd_max_body_length = n\<rparr>"

lemma take_frame_at_shrinks:
  "take_frame_at b m e n = Ok (Some (f, r)) \<Longrightarrow> b = f @ r \<and> length f = e + 1 + n + CHECKSUM_FIELD_LEN"
  by (auto simp: take_frame_at_def bindR_eqs checked_add_usize_def split: if_splits)

lemma try_take_frame_shrinks:
  assumes "try_take_frame b m = Ok (Some (f, r))"
  shows "b = f @ r" and "length r < length b"
  using assms
  by (auto simp: try_take_frame_def Let_def bindR_eqs CHECKSUM_FIELD_LEN_def
      dest!: take_frame_at_shrinks split: if_splits option.splits)

text \<open>
  The loop of \<open>ingest\<close>. It returns what is left in the buffer together with the frames, or the
  error that ended it: the frames already split off are then lost with the vector, and the
  buffer keeps what follows them.
\<close>

function take_frames :: "bytes \<Rightarrow> nat \<Rightarrow> bytes \<times> (frame_error, bytes list) result" where
  "take_frames buffer m =
     (case try_take_frame buffer m of
        Ok (Some (frame, rest)) \<Rightarrow>
          (let (rest', r) = take_frames rest m in (rest', bindR r (\<lambda>frames. Ok (frame # frames))))
      | Ok None \<Rightarrow> (buffer, Ok [])
      | Err e \<Rightarrow> (buffer, Err e)
      | Panic \<Rightarrow> (buffer, Panic))"
  by pat_completeness auto
termination
  by (relation "measure (\<lambda>(b, m). length b)") (auto dest: try_take_frame_shrinks(2))

declare take_frames.simps [simp del]

definition ingest :: "frame_decoder \<Rightarrow> bytes \<Rightarrow> frame_decoder \<times> (frame_error, bytes list) result" where
  "ingest d chunk =
     (let (rest, r) = take_frames (fd_buffer d @ chunk) (fd_max_body_length d);
          d' = d\<lparr>fd_buffer := rest\<rparr>
      in (d', bindR r (\<lambda>frames.
               bindR (checked_add_usize (fd_max_body_length d) 1024) (\<lambda>max_buffer_length.
               if max_buffer_length < length rest then Err BufferedDataTooLarge else Ok frames))))"

section \<open>Parsing a frame\<close>

text \<open>The field loop of \<open>parse_frame\<close>, from \<open>cursor\<close> to \<open>checksum_start\<close>.\<close>

function parse_fields :: "bytes \<Rightarrow> nat \<Rightarrow> nat \<Rightarrow> (parse_error, field list) result" where
  "parse_fields frame checksum_start cursor =
     (if cursor < checksum_start then
        bindR (slice frame cursor checksum_start) (\<lambda>body.
        bindR (ok_or (ParseMalformed (''field is missing '' @ [CHR 0x27, CHR ''='', CHR 0x27]))
                 (position (\<lambda>b. b = of_char (CHR ''='')) body)) (\<lambda>equals_offset.
        let equals = cursor + equals_offset in
        bindR (slice frame cursor equals) (\<lambda>digits.
        bindR (map_err Frame (parse_decimal digits)) (\<lambda>tag_value.
        if 2 ^ 32 \<le> tag_value then Err (ParseMalformed ''field tag exceeds u32'')
        else
          let value_start = equals + 1 in
          (case find_soh frame value_start of
             Some value_end \<Rightarrow>
               if value_end < checksum_start then
                 bindR (slice frame value_start value_end) (\<lambda>v.
                 bindR (parse_fields frame checksum_start (value_end + 1)) (\<lambda>fs.
                 Ok (Field (of_nat tag_value) v # fs)))
               else Err (ParseMalformed ''field is missing SOH delimiter'')
           | None \<Rightarrow> Err (ParseMalformed ''field is missing SOH delimiter''))))))
      else Ok [])"
  by pat_completeness auto
termination
  by (relation "measure (\<lambda>(f, c, k). c - k)")
    (auto simp: find_soh_def position_Some slice_def split: if_splits)

declare parse_fields.simps [simp del]

definition parse_frame :: "bytes \<Rightarrow> (parse_error, parsed_message) result" where
  "parse_frame frame =
     bindR (map_err Frame (try_take_frame frame (length frame))) (\<lambda>taken.
     bindR (ok_or (ParseMalformed ''incomplete frame'') taken) (\<lambda>(extracted, checked).
     if checked \<noteq> [] \<or> length extracted \<noteq> length frame
     then Err (ParseMalformed ''input contains more than one frame'')
     else
       bindR (ok_or (ParseMalformed ''missing BeginString delimiter'') (find_soh frame 0)) (\<lambda>end_begin_string.
       let body_length_start = end_begin_string + 1 in
       bindR (ok_or (ParseMalformed ''missing BodyLength delimiter'') (find_soh frame body_length_start)) (\<lambda>end_body_length.
       bindR (slice frame (body_length_start + 2) end_body_length) (\<lambda>length_digits.
       bindR (map_err Frame (parse_decimal length_digits)) (\<lambda>body_length.
       let body_start = end_body_length + 1 in
       bindR (map_err Frame (checked_add_usize body_start body_length)) (\<lambda>checksum_start.
       bindR (parse_fields frame checksum_start body_start) (\<lambda>fs.
       if first_tag fs \<noteq> Some 35 then Err (ParseMalformed ''MsgType(35) must be third'')
       else
         bindR (slice frame (checksum_start + 3) (checksum_start + 6)) (\<lambda>checksum_digits.
         bindR (map_err Frame (parse_decimal checksum_digits)) (\<lambda>claimed.
         bindR (slice frame 2 end_begin_string) (\<lambda>bs.
         Ok \<lparr>pm_begin_string = bs, pm_fields = fs, pm_checksum = of_nat claimed\<rparr>)))))))))))"

section \<open>Evaluation\<close>

lemma parse_fields_done [fix_eval]: "\<not> cursor < c \<Longrightarrow> parse_fields frame c cursor = Ok []"
  by (simp add: parse_fields.simps)

lemmas parse_fields_step [fix_eval] =
  parse_fields.simps [where cursor = cursor and checksum_start = c for cursor c,
    THEN trans, OF if_P]

lemma take_frames_eval [fix_eval]:
  "try_take_frame b m = Ok None \<Longrightarrow> take_frames b m = (b, Ok [])"
  "try_take_frame b m = Err e \<Longrightarrow> take_frames b m = (b, Err e)"
  "try_take_frame b m = Panic \<Longrightarrow> take_frames b m = (b, Panic)"
  "try_take_frame b m = Ok (Some (f, r)) \<Longrightarrow> take_frames b m =
     (fst (take_frames r m), bindR (snd (take_frames r m)) (\<lambda>fs. Ok (f # fs)))"
  by (simp_all add: take_frames.simps split_beta)

lemmas [fix_eval] = CHECKSUM_FIELD_LEN_def first_tag_def msg_type_def values_of_def encode_field_def
  checksum_of_def encode_header_def encode_trailer_def encode_message_def find_soh_def
  parse_decimal_def checked_add_usize_def take_frame_at_def try_take_frame_def new_decoder_def
  ingest_def parse_frame_def

end
