(* ===== verification/Fix_Codec.thy ===== *)
theory Fix_Codec
  imports Fix_Protocol
begin

text \<open>
  Correctness of the codec: what the frame scanner accepts (\<open>wf_frame\<close>), that scanning and parsing
  never panic, that parsing inverts encoding when no value holds a delimiter, and what a parsed
  message says about the bytes it was read from.
\<close>

section \<open>Searching and decimals\<close>

lemma find_soh_Some:
  assumes "find_soh xs s = Some e"
  obtains pre mid post where "xs = pre @ mid @ SOH # post" "length pre = s" "SOH \<notin> set mid"
    "e = s + length mid"
proof -
  from assms obtain i where s: "s \<le> length xs" and e: "e = s + i"
    and i: "position (\<lambda>b. b = SOH) (drop s xs) = Some i"
    by (auto simp: find_soh_def split: if_splits)
  from i have lt: "i < length (drop s xs)" and at: "drop s xs ! i = SOH"
    and nin: "\<forall>j < i. drop s xs ! j \<noteq> SOH"
    by (auto simp: position_Some)
  have "drop s xs = take i (drop s xs) @ SOH # drop (Suc i) (drop s xs)"
    using lt at by (metis id_take_nth_drop)
  then have "xs = take s xs @ take i (drop s xs) @ SOH # drop (Suc i) (drop s xs)"
    by (metis append_take_drop_id)
  moreover have "SOH \<notin> set (take i (drop s xs))"
    using nin lt by (auto simp: in_set_conv_nth)
  ultimately show ?thesis using that s e lt by fastforce
qed

lemma find_soh_append:
  "SOH \<notin> set mid \<Longrightarrow> s = length pre \<Longrightarrow>
   find_soh (pre @ mid @ SOH # post) s = Some (length pre + length mid)"
proof -
  assume "SOH \<notin> set mid" "s = length pre"
  moreover from this have "position (\<lambda>b. b = SOH) (mid @ SOH # post) = Some (length mid)"
    by (intro position_append_hit) auto
  ultimately show ?thesis by (simp add: find_soh_def)
qed

lemma find_soh_None:
  "find_soh xs s = None \<Longrightarrow> s \<le> length xs \<Longrightarrow> SOH \<notin> set (drop s xs)"
  by (auto simp: find_soh_def position_None split: if_splits)

lemma is_digit_SOH: "\<not> is_digit SOH"
  by (simp add: is_digit_unat)

lemma is_digit_eq: "\<not> is_digit (of_char (CHR ''=''))"
  by (simp add: is_digit_def)

lemma decimal_fold_cases: "decimal_fold v bs \<noteq> Panic"
  by (induction bs arbitrary: v) auto

lemma parse_decimal_no_panic [simp]: "parse_decimal bs \<noteq> Panic"
  by (simp add: parse_decimal_def decimal_fold_cases)

lemma foldl_decimal_mono: "(v :: nat) \<le> foldl (\<lambda>v b. v * 10 + digit_value b) v bs"
proof (induction bs arbitrary: v)
  case (Cons b bs)
  have "v \<le> v * 10 + digit_value b" by simp
  also have "\<dots> \<le> foldl (\<lambda>v b. v * 10 + digit_value b) (v * 10 + digit_value b) bs"
    by (rule Cons)
  finally show ?case by simp
qed simp

lemma decimal_fold_Ok:
  "decimal_fold v bs = Ok n \<longleftrightarrow>
     n = foldl (\<lambda>v b. v * 10 + digit_value b) v bs \<and> (bs = [] \<or> n \<le> usize_max)"
proof (induction bs arbitrary: v)
  case (Cons b bs)
  let ?v = "v * 10 + digit_value b"
  have "?v \<le> foldl (\<lambda>v b. v * 10 + digit_value b) ?v bs" by (rule foldl_decimal_mono)
  with Cons [of ?v] show ?case by (cases "bs = []") auto
qed auto

lemma parse_decimal_Ok:
  "parse_decimal bs = Ok n \<longleftrightarrow>
     bs \<noteq> [] \<and> (\<forall>b \<in> set bs. is_digit b) \<and> n = dec_value bs \<and> n \<le> usize_max"
  by (auto simp: parse_decimal_def decimal_fold_Ok dec_value_def)

lemma parse_decimal_dec [simp]: "n \<le> usize_max \<Longrightarrow> parse_decimal (as_bytes (dec n)) = Ok n"
  using dec_digits [of _ n] by (simp add: parse_decimal_Ok)

lemma digits_no_SOH: "\<forall>b \<in> set bs. is_digit b \<Longrightarrow> SOH \<notin> set bs"
  using is_digit_SOH by blast

lemma digits_no_eq: "\<forall>b \<in> set bs. is_digit b \<Longrightarrow> of_char (CHR ''='') \<notin> set bs"
  using is_digit_eq by blast

section \<open>What the scanner accepts\<close>

text \<open>The layout of a frame, and the frames \<open>try_take_frame\<close> accepts under a body limit \<open>m\<close>.\<close>

definition frame_head :: "bytes \<Rightarrow> bytes \<Rightarrow> bytes" where
  "frame_head bs ds = as_bytes ''8='' @ bs @ SOH # as_bytes ''9='' @ ds @ [SOH]"

definition frame_parts :: "bytes \<Rightarrow> bytes \<Rightarrow> bytes \<Rightarrow> bytes \<Rightarrow> bytes \<Rightarrow> nat \<Rightarrow> bool" where
  "frame_parts f bs ds body cs c \<longleftrightarrow>
     f = frame_head bs ds @ body @ as_bytes ''10='' @ cs @ [SOH]
     \<and> SOH \<notin> set bs \<and> parse_decimal ds = Ok (length body)
     \<and> length cs = 3 \<and> parse_decimal cs = Ok c \<and> c \<le> 255
     \<and> checksum_of (frame_head bs ds @ body) = of_nat c \<and> length f \<le> usize_max"

definition wf_frame :: "nat \<Rightarrow> bytes \<Rightarrow> bool" where
  "wf_frame m f \<longleftrightarrow> (\<exists>bs ds body cs c. frame_parts f bs ds body cs c \<and> length body \<le> m)"

lemma frame_parts_SOH: "frame_parts f bs ds body cs c \<Longrightarrow> SOH \<notin> set ds"
  by (auto simp: frame_parts_def parse_decimal_Ok digits_no_SOH)

lemma length_frame_head: "length (frame_head bs ds) = length bs + length ds + 6"
  by (simp add: frame_head_def)

lemma drop_pre: "n = length pre \<Longrightarrow> drop n (pre @ t) = t"
  by simp

lemma take_pre: "n = length pre \<Longrightarrow> take n (pre @ t) = pre"
  by simp

lemma slice_mid: "a = length pre \<Longrightarrow> b = a + length mid \<Longrightarrow> slice (pre @ mid @ post) a b = Ok mid"
  by (simp add: slice_def)

lemma marker_prefix:
  "mid @ x # post = ps @ r \<Longrightarrow> x \<notin> set ps \<Longrightarrow> \<exists>u. mid = ps @ u"
proof (induction ps arbitrary: mid)
  case (Cons p ps)
  then show ?case by (cases mid) auto
qed simp

lemma try_take_frame_head:
  assumes "SOH \<notin> set bs" "SOH \<notin> set ds"
  shows "try_take_frame (frame_head bs ds @ t) m =
     bindR (parse_decimal ds)
       (take_frame_at (frame_head bs ds @ t) m (length (frame_head bs ds) - 1))"
proof -
  let ?b = "frame_head bs ds @ t"
  let ?pre = "as_bytes ''8='' @ bs @ [SOH]"
  obtain e where e: "e = length bs + 2" by simp
  obtain q where q: "q = e + 1 + length (as_bytes ''9='' @ ds)" by simp
  have b1: "?b = [] @ (as_bytes ''8='' @ bs) @ SOH # (as_bytes ''9='' @ ds @ SOH # t)"
    by (simp add: frame_head_def)
  have e1: "find_soh ?b 0 = Some e"
    unfolding b1 by (subst find_soh_append) (use assms e in auto)
  have b2: "?b = ?pre @ (as_bytes ''9='' @ ds) @ SOH # t"
    by (simp add: frame_head_def)
  have e2: "find_soh ?b (e + 1) = Some q"
    unfolding b2 by (subst find_soh_append) (use assms e q in auto)
  have "drop (e + 1) ?b = as_bytes ''9='' @ ds @ SOH # t"
    unfolding b2 by (subst drop_pre) (use e in auto)
  then have sw9: "starts_with (drop (e + 1) ?b) (as_bytes ''9='')"
    by (simp only: starts_with_append)
  have b3: "?b = (?pre @ as_bytes ''9='') @ ds @ SOH # t"
    by (simp add: frame_head_def)
  have sl: "slice ?b (e + 1 + 2) q = Ok ds"
    unfolding b3 by (rule slice_mid) (use e q in auto)
  have sw: "starts_with ?b (as_bytes ''8='')" unfolding b1 by simp
  have len: "\<not> length ?b < 2" "\<not> length ?b < e + 1 + 2" "e + 1 \<le> length ?b"
    using e by (auto simp: length_frame_head)
  have "q = length (frame_head bs ds) - 1"
    using e q by (simp add: length_frame_head)
  then show ?thesis
    unfolding try_take_frame_def Let_def slice_from_def if_not_P [OF len(1)] e1 option.case
      if_not_P [OF len(2)] if_P [OF len(3)] bindR_simps sl e2
    using sw sw9 by simp
qed

text \<open>
  A buffer the scanner does not refuse at once starts with a whole header, and the scanner then
  goes on after it.
\<close>

lemma try_take_frame_cases:
  assumes "try_take_frame b m = r" "r \<noteq> Ok None" "\<And>e. r \<noteq> Err e"
  obtains bs ds t where "b = frame_head bs ds @ t" "SOH \<notin> set bs" "SOH \<notin> set ds"
proof -
  let ?eight = "as_bytes ''8=''" and ?nine = "as_bytes ''9=''"
  from assms obtain e where sw: "starts_with b ?eight" and e1: "find_soh b 0 = Some e"
    and sw9: "e + 1 \<le> length b \<Longrightarrow> starts_with (drop (e + 1) b) ?nine"
    and f2: "e + 1 \<le> length b \<Longrightarrow> \<exists>q. find_soh b (e + 1) = Some q"
    by (auto simp: try_take_frame_def Let_def slice_from_def split: if_splits option.splits)
  from e1 obtain mid post where b1: "b = mid @ SOH # post" and mid: "SOH \<notin> set mid"
    and e: "e = length mid"
    by (rule find_soh_Some) auto
  obtain bs where m1: "mid = ?eight @ bs"
    using sw b1 marker_prefix [of mid SOH post ?eight] by (auto simp: starts_with_split)
  have post: "drop (e + 1) b = post" using b1 e by simp
  from f2 b1 e obtain q where "find_soh b (e + 1) = Some q" by auto
  then obtain pre mid2 t where b2: "b = pre @ mid2 @ SOH # t" and pre: "length pre = e + 1"
    and mid2: "SOH \<notin> set mid2"
    by (rule find_soh_Some)
  have p2: "post = mid2 @ SOH # t" using post b2 pre by simp
  obtain ds where m2: "mid2 = ?nine @ ds"
    using sw9 b1 e post p2 marker_prefix [of mid2 SOH t ?nine] by (auto simp: starts_with_split)
  have "b = frame_head bs ds @ t" using b1 m1 p2 m2 by (simp add: frame_head_def)
  moreover have "SOH \<notin> set bs" "SOH \<notin> set ds" using mid mid2 m1 m2 by auto
  ultimately show ?thesis by (rule that)
qed

lemma take_frame_at_no_panic: "take_frame_at b m e n \<noteq> Panic"
proof -
  have "slice b (e + 1 + n) (e + 1 + n + 7) \<noteq> Panic" if "e + 1 + n + 7 \<le> length b"
    using that by (simp add: slice_def)
  then show ?thesis
    by (auto simp: take_frame_at_def bindR_eqs checked_add_usize_def CHECKSUM_FIELD_LEN_def
        slice_def index_def split: if_splits)
qed

lemma try_take_frame_no_panic [simp]: "try_take_frame b m \<noteq> Panic"
proof
  assume p: "try_take_frame b m = Panic"
  then obtain bs ds t where b: "b = frame_head bs ds @ t" "SOH \<notin> set bs" "SOH \<notin> set ds"
    by (rule try_take_frame_cases) auto
  with p show False
    by (simp add: try_take_frame_head bindR_eqs take_frame_at_no_panic)
qed

lemma take_frames_no_panic [simp]: "snd (take_frames b m) \<noteq> Panic"
proof (induction b m rule: take_frames.induct)
  case (1 b m)
  show ?case
    by (subst take_frames.simps)
      (auto simp: split_beta bindR_eqs 1 split: result.splits option.splits)
qed

text \<open>The scanner after a header whose announced body is \<open>n\<close> bytes long.\<close>

lemma take_frame_at_tail:
  assumes "e + 1 = length h" "length h + length body + 7 \<le> usize_max" "length cf = 7"
  shows "take_frame_at (h @ body @ cf @ rest) m e (length body) = Ok (Some (f, r)) \<longleftrightarrow>
     length body \<le> m \<and> f = h @ body @ cf \<and> r = rest \<and>
     (\<exists>cs c. cf = as_bytes ''10='' @ cs @ [SOH] \<and> length cs = 3 \<and> parse_decimal cs = Ok c
        \<and> c \<le> 255 \<and> checksum_of (h @ body) = of_nat c)" (is "?l = ?r")
proof -
  let ?b = "h @ body @ cf @ rest" and ?cs = "e + 1 + length body"
  have sl: "(slice ?b ?cs (?cs + 7) :: (frame_error, bytes) result) = Ok cf"
    using assms slice_mid [of ?cs "h @ body" "?cs + 7" cf rest] by simp
  have tk: "take ?cs ?b = h @ body" "take (?cs + 7) ?b = h @ body @ cf" "drop (?cs + 7) ?b = rest"
    using assms by auto
  obtain a0 a1 a2 d0 d1 d2 z where cf: "cf = [a0, a1, a2, d0, d1, d2, z]"
    using assms(3) by (auto simp: numeral_eq_Suc length_Suc_conv)
  have sl2: "(slice cf 3 6 :: (frame_error, bytes) result) = Ok [d0, d1, d2]" by (simp add: cf slice_def)
  have dec: "(starts_with cf (as_bytes ''10='') \<and> z = SOH) \<longleftrightarrow>
      (cf = as_bytes ''10='' @ [d0, d1, d2] @ [SOH])"
    by (auto simp: cf)
  have r: "?r \<longleftrightarrow> length body \<le> m \<and> f = h @ body @ cf \<and> r = rest
      \<and> starts_with cf (as_bytes ''10='') \<and> z = SOH \<and>
     (\<exists>c. parse_decimal [d0, d1, d2] = Ok c \<and> c \<le> 255 \<and> checksum_of (h @ body) = of_nat c)"
    unfolding conj_assoc [symmetric] dec
    by (auto simp: cf length_Suc_conv numeral_eq_Suc)
  show ?thesis
    unfolding r take_frame_at_def checked_add_usize_def CHECKSUM_FIELD_LEN_def
    using assms(1,2) sl sl2 tk
    by (auto simp: bindR_eqs index_def cf split: if_splits) (metis linorder_not_less)
qed

text \<open>The scanner splits off a frame exactly when the buffer starts with an acceptable one.\<close>

lemma try_take_frame_iff:
  "try_take_frame b m = Ok (Some (f, r)) \<longleftrightarrow> b = f @ r \<and> wf_frame m f"
proof
  assume ok: "try_take_frame b m = Ok (Some (f, r))"
  then obtain bs ds t where b: "b = frame_head bs ds @ t" and soh: "SOH \<notin> set bs" "SOH \<notin> set ds"
    by (rule try_take_frame_cases) auto
  let ?h = "frame_head bs ds"
  from ok b soh obtain n where n: "parse_decimal ds = Ok n"
    and at: "take_frame_at (?h @ t) m (length ?h - 1) n = Ok (Some (f, r))"
    by (auto simp: try_take_frame_head bindR_eqs)
  from at have len: "n + 7 \<le> length t" "length ?h + n + 7 \<le> usize_max"
    by (auto simp: take_frame_at_def bindR_eqs checked_add_usize_def CHECKSUM_FIELD_LEN_def
        length_frame_head split: if_splits)
  define body cf rest where "body = take n t" "cf = take 7 (drop n t)" "rest = drop 7 (drop n t)"
  then have t: "t = body @ cf @ rest" and lb: "length body = n" "length cf = 7"
    using len by (simp_all only: append_take_drop_id) auto
  have e: "length ?h - 1 + 1 = length ?h" by (simp add: length_frame_head)
  from at have "take_frame_at (?h @ body @ cf @ rest) m (length ?h - 1) (length body) = Ok (Some (f, r))"
    by (simp only: t lb)
  then obtain cs c where "length body \<le> m" "f = ?h @ body @ cf" "r = rest"
    "cf = as_bytes ''10='' @ cs @ [SOH]" "length cs = 3" "parse_decimal cs = Ok c" "c \<le> 255"
    "checksum_of (?h @ body) = of_nat c"
    using take_frame_at_tail [OF e, of body cf rest m f r] len lb by auto
  with n t b lb len soh show "b = f @ r \<and> wf_frame m f"
    unfolding wf_frame_def frame_parts_def by (intro conjI exI) auto
next
  assume a: "b = f @ r \<and> wf_frame m f"
  then obtain bs ds body cs c where f: "f = frame_head bs ds @ body @ as_bytes ''10='' @ cs @ [SOH]"
    and bs: "SOH \<notin> set bs" and ds: "parse_decimal ds = Ok (length body)" and m: "length body \<le> m"
    and cs: "length cs = 3" "parse_decimal cs = Ok c" "c \<le> 255"
    and ck: "checksum_of (frame_head bs ds @ body) = of_nat c" and len: "length f \<le> usize_max"
    unfolding wf_frame_def frame_parts_def by blast
  let ?h = "frame_head bs ds" and ?cf = "as_bytes ''10='' @ cs @ [SOH]"
  have soh: "SOH \<notin> set ds" using ds by (auto simp: parse_decimal_Ok digits_no_SOH)
  have b: "b = ?h @ body @ ?cf @ r" using a f by simp
  have e: "length ?h - 1 + 1 = length ?h" by (simp add: length_frame_head)
  have cf: "length ?cf = 7" using cs by simp
  have le: "length ?h + length body + 7 \<le> usize_max" using len f cs by simp
  show "try_take_frame b m = Ok (Some (f, r))"
    unfolding b try_take_frame_head [OF bs soh] ds bindR_simps
      take_frame_at_tail [OF e le cf]
    using m f cs ck by auto
qed

lemma wf_frame_nonempty: "wf_frame m f \<Longrightarrow> f \<noteq> []"
  by (auto simp: wf_frame_def frame_parts_def frame_head_def)

lemma wf_frame_mono: "wf_frame m f \<Longrightarrow> m \<le> m' \<Longrightarrow> wf_frame m' f"
  unfolding wf_frame_def by (meson le_trans)

text \<open>A proper beginning of an acceptable frame is a request for more bytes, never an error.\<close>

lemma take_frame_at_short:
  assumes "length b < e + 1 + n + 7" "n \<le> m" "e + 1 + n + 7 \<le> usize_max"
  shows "take_frame_at b m e n = Ok None"
  using assms by (simp add: take_frame_at_def checked_add_usize_def CHECKSUM_FIELD_LEN_def)

lemma find_soh_absent: "SOH \<notin> set (drop s xs) \<Longrightarrow> find_soh xs s = None"
  by (auto simp: find_soh_def position_None)

lemma try_take_frame_short_head:
  assumes "as_bytes ''8='' @ bs @ SOH # as_bytes ''9='' @ ds = p @ y" "SOH \<notin> set bs" "SOH \<notin> set ds"
  shows "try_take_frame p m = Ok None"
proof (cases "length p < 2")
  case True
  then show ?thesis by (simp add: try_take_frame_def)
next
  case long: False
  let ?eight = "as_bytes ''8=''" and ?nine = "as_bytes ''9=''"
  obtain a0 a1 p' where p: "p = a0 # a1 # p'" using long
    by (metis One_nat_def length_Cons less_2_cases_iff list.exhaust list.size(3))
  then have sw: "starts_with p ?eight" using assms(1) by simp
  from assms(1) have eq: "(?eight @ bs) @ (SOH # ?nine @ ds) = p @ y" by simp
  then consider z where "?eight @ bs = p @ z" | w where "p = ?eight @ bs @ SOH # w" "?nine @ ds = w @ y"
    by (auto simp: append_eq_append_conv2 Cons_eq_append_conv)
  then show ?thesis
  proof cases
    case 1
    have "SOH \<notin> set (?eight @ bs)" using assms(2) by simp
    then have "SOH \<notin> set p" unfolding 1 by simp
    then have "find_soh p 0 = None" by (intro find_soh_absent) simp
    then show ?thesis using sw by (simp add: try_take_frame_def)
  next
    case 2
    obtain e where e: "e = length bs + 2" by simp
    have p1: "p = [] @ (?eight @ bs) @ SOH # w" using 2 by simp
    have "find_soh p 0 = Some e"
      unfolding p1 by (subst find_soh_append) (use assms e in auto)
    moreover have dw: "drop (e + 1) p = w" using 2 e by simp
    moreover have "SOH \<notin> set (?nine @ ds)" using assms(3) by simp
    then have "SOH \<notin> set w" unfolding 2(2) by simp
    then have "find_soh p (e + 1) = None" using dw by (intro find_soh_absent) simp
    moreover have "starts_with w ?nine" if two: "2 \<le> length w"
    proof -
      obtain b0 b1 w' where "w = b0 # b1 # w'"
        using two by (cases w; cases "tl w") auto
      then show ?thesis using 2(2) by simp
    qed
    moreover have "length w \<ge> 2" if "\<not> length p < e + 1 + 2" using 2(1) e that by simp
    ultimately show ?thesis
      using sw by (auto simp: try_take_frame_def Let_def slice_from_def)
  qed
qed

lemma try_take_frame_partial:
  assumes "wf_frame m (p @ x)" "x \<noteq> []"
  shows "try_take_frame p m = Ok None"
proof -
  from assms(1) obtain bs ds body cs c where parts: "frame_parts (p @ x) bs ds body cs c"
    and m: "length body \<le> m"
    unfolding wf_frame_def by blast
  then have px: "p @ x = frame_head bs ds @ body @ as_bytes ''10='' @ cs @ [SOH]"
    and bs: "SOH \<notin> set bs" and ds: "parse_decimal ds = Ok (length body)"
    and cs: "length cs = 3" and len: "length (p @ x) \<le> usize_max"
    unfolding frame_parts_def by blast+
  have soh: "SOH \<notin> set ds" using parts by (rule frame_parts_SOH)
  have total: "length p + length x = length (frame_head bs ds) + length body + 7"
    using arg_cong [OF px, of length] cs by simp
  have x: "0 < length x" using assms(2) by simp
  have len: "length p + length x \<le> usize_max" using len by simp
  have lp: "length p < length (frame_head bs ds) + length body + 7"
    and lu: "length (frame_head bs ds) + length body + 7 \<le> usize_max"
    using total len x by linarith+
  from px consider t where "p = frame_head bs ds @ t" | y where "p @ y = frame_head bs ds" "y \<noteq> []"
    unfolding append_eq_append_conv2 by (metis append_Nil2)
  then show ?thesis
  proof cases
    case 1
    show ?thesis
      using lp lu m ds unfolding 1 try_take_frame_head [OF bs soh]
      by (simp add: take_frame_at_short length_frame_head)
  next
    case 2
    then obtain y' where y': "y = y' @ [last y]" by (metis append_butlast_last_id)
    have "p @ y' = as_bytes ''8='' @ bs @ SOH # as_bytes ''9='' @ ds"
      using 2(1) y' unfolding frame_head_def
      by (metis append.assoc append_Cons butlast_snoc)
    from try_take_frame_short_head [OF this [symmetric] bs soh] show ?thesis .
  qed
qed

section \<open>Decoding a stream in any fragmentation\<close>

lemma take_frames_append:
  assumes "\<forall>f \<in> set fs. wf_frame m f" "try_take_frame rest m = Ok None"
  shows "take_frames (concat fs @ rest) m = (rest, Ok fs)"
  using assms(1)
proof (induction fs)
  case Nil
  then show ?case using assms(2) by (simp add: take_frames.simps)
next
  case (Cons f fs)
  then have "try_take_frame (f @ concat fs @ rest) m = Ok (Some (f, concat fs @ rest))"
    by (simp add: try_take_frame_iff)
  with Cons show ?case by (simp add: take_frames.simps)
qed

text \<open>A beginning of a stream of frames is some whole frames and a beginning of the next.\<close>

lemma concat_prefix_split:
  assumes "p @ q = concat fs" "\<forall>f \<in> set fs. f \<noteq> []"
  shows "\<exists>fs1 fs2 part. fs = fs1 @ fs2 \<and> p = concat fs1 @ part \<and> part @ q = concat fs2 \<and>
    (case fs2 of [] \<Rightarrow> part = [] | f # _ \<Rightarrow> \<exists>x. x \<noteq> [] \<and> f = part @ x)"
  using assms
proof (induction fs arbitrary: p)
  case (Cons f fs)
  show ?case
  proof (cases "\<exists>x. x \<noteq> [] \<and> f = p @ x")
    case True
    with Cons.prems show ?thesis by (intro exI [of _ "[]"] exI [of _ "f # fs"] exI [of _ p]) auto
  next
    case False
    moreover have "p @ q = f @ concat fs" using Cons.prems(1) by simp
    ultimately obtain p' where p': "p = f @ p'" "p' @ q = concat fs"
      unfolding append_eq_append_conv2 by (metis append_Nil append_Nil2)
    from Cons.prems(2) have "\<forall>f \<in> set fs. f \<noteq> []" by simp
    from Cons.IH [OF p'(2) this] obtain fs1 fs2 part where "fs = fs1 @ fs2" "p' = concat fs1 @ part"
      "part @ q = concat fs2" "case fs2 of [] \<Rightarrow> part = [] | f # _ \<Rightarrow> \<exists>x. x \<noteq> [] \<and> f = part @ x"
      by blast
    with p' show ?thesis by (intro exI [of _ "f # fs1"] exI [of _ fs2] exI [of _ part]) simp
  qed
qed simp

text \<open>Feeding a list of chunks, as the reading loops of the session and of the mock do.\<close>

fun ingest_all :: "frame_decoder \<Rightarrow> bytes list \<Rightarrow> frame_decoder \<times> (frame_error, bytes list) result" where
  "ingest_all d [] = (d, Ok [])"
| "ingest_all d (c # cs) =
     (case ingest d c of
        (d', Ok fs) \<Rightarrow> (case ingest_all d' cs of (d'', r) \<Rightarrow> (d'', bindR r (\<lambda>gs. Ok (fs @ gs))))
      | (d', r) \<Rightarrow> (d', r))"

lemma ingest_all_frames:
  assumes "buf @ concat chunks = concat fs"
    and "\<forall>f \<in> set fs. wf_frame m f \<and> length f \<le> m + 1024"
    and "m + 1024 \<le> usize_max"
    and "case fs of [] \<Rightarrow> buf = [] | f # _ \<Rightarrow> \<exists>x. x \<noteq> [] \<and> f = buf @ x"
  shows "ingest_all \<lparr>fd_buffer = buf, fd_max_body_length = m\<rparr> chunks
    = (\<lparr>fd_buffer = [], fd_max_body_length = m\<rparr>, Ok fs)"
  using assms(1,2,4)
proof (induction chunks arbitrary: buf fs)
  case Nil
  then show ?case by (auto split: list.splits)
next
  case (Cons c cs)
  from Cons.prems(1) have "(buf @ c) @ concat cs = concat fs" by simp
  then obtain fs1 fs2 part where fs: "fs = fs1 @ fs2" and bc: "buf @ c = concat fs1 @ part"
    and part: "part @ concat cs = concat fs2"
    and next_frame: "case fs2 of [] \<Rightarrow> part = [] | f # _ \<Rightarrow> \<exists>x. x \<noteq> [] \<and> f = part @ x"
    using Cons.prems(2) wf_frame_nonempty concat_prefix_split [of "buf @ c" "concat cs" fs] by blast
  have more: "try_take_frame part m = Ok None"
  proof (cases fs2)
    case Nil
    then show ?thesis using next_frame by (simp add: try_take_frame_def)
  next
    case (Cons f fs')
    then obtain x where "x \<noteq> []" "f = part @ x" using next_frame by auto
    then show ?thesis using Cons.prems(2) fs Cons try_take_frame_partial [of m part x] by auto
  qed
  have lp: "length part \<le> m + 1024"
    using next_frame Cons.prems(2) fs by (auto split: list.splits)
  have "take_frames (buf @ c) m = (part, Ok fs1)"
    unfolding bc using take_frames_append [OF _ more] Cons.prems(2) fs by auto
  then have ing: "ingest \<lparr>fd_buffer = buf, fd_max_body_length = m\<rparr> c
      = (\<lparr>fd_buffer = part, fd_max_body_length = m\<rparr>, Ok fs1)"
    using lp assms(3) by (simp add: ingest_def checked_add_usize_def)
  have "ingest_all \<lparr>fd_buffer = part, fd_max_body_length = m\<rparr> cs
      = (\<lparr>fd_buffer = [], fd_max_body_length = m\<rparr>, Ok fs2)"
    using Cons.IH [OF part _ next_frame] Cons.prems(2) fs by auto
  with ing fs show ?case by simp
qed

section \<open>Parsing\<close>

text \<open>One field on the wire: its tag in decimal digits, an equals sign, the value, the delimiter.\<close>

definition field_text :: "bytes \<times> field \<Rightarrow> bytes" where
  "field_text x = fst x @ as_bytes ''='' @ field_value (snd x) @ [SOH]"

definition field_ok :: "bytes \<times> field \<Rightarrow> bool" where
  "field_ok x \<longleftrightarrow> parse_decimal (fst x) = Ok (unat (field_tag (snd x))) \<and> SOH \<notin> set (field_value (snd x))"

lemma unat_u32_less: "unat (t :: u32) < 2 ^ 32"
  using unsigned_less [of t] by simp

lemma unat_of_nat_u32: "n < 2 ^ 32 \<Longrightarrow> unat (of_nat n :: u32) = n"
  by (subst unat_of_nat) simp

lemma parse_fields_cons:
  assumes "field_ok x"
  shows "parse_fields (pre @ (field_text x @ body) @ post) (length pre + length (field_text x @ body)) (length pre)
    = bindR (parse_fields ((pre @ field_text x) @ body @ post)
         (length (pre @ field_text x) + length body) (length (pre @ field_text x))) (\<lambda>fs. Ok (snd x # fs))"
proof -
  obtain ds t v where x: "x = (ds, Field t v)" by (metis field.exhaust prod.exhaust)
  let ?b = "pre @ (field_text x @ body) @ post" and ?c = "length pre + length (field_text x @ body)"
  from assms x have ds: "parse_decimal ds = Ok (unat t)" and v: "SOH \<notin> set v"
    by (auto simp: field_ok_def)
  from ds have noeq: "of_char (CHR ''='') \<notin> set ds"
    using digits_no_eq [of ds] by (simp add: parse_decimal_Ok)
  have ft: "field_text x = ds @ of_char (CHR ''='') # v @ [SOH]" by (simp add: field_text_def x)
  obtain k where k: "k = length pre + length ds" by simp
  obtain e where e: "e = k + 1 + length v" by simp
  have lt: "length pre < ?c" by (simp add: ft)
  have s1: "(slice ?b (length pre) ?c :: (parse_error, bytes) result) = Ok (field_text x @ body)"
    by (rule slice_mid) auto
  have pos: "position (\<lambda>b. b = of_char (CHR ''='')) (field_text x @ body) = Some (length ds)"
  proof -
    have "field_text x @ body = ds @ of_char (CHR ''='') # (v @ SOH # body)" by (simp add: ft)
    then show ?thesis using noeq by (simp only:) (intro position_append_hit, auto)
  qed
  have b2: "?b = pre @ ds @ (of_char (CHR ''='') # v @ SOH # body @ post)" by (simp add: ft)
  have s2: "(slice ?b (length pre) k :: (parse_error, bytes) result) = Ok ds"
    unfolding b2 by (rule slice_mid) (use k in auto)
  have b3: "?b = (pre @ ds @ [of_char (CHR ''='')]) @ v @ SOH # body @ post" by (simp add: ft)
  have f: "find_soh ?b (k + 1) = Some e"
    unfolding b3 by (subst find_soh_append) (use v k e in auto)
  have s3: "(slice ?b (k + 1) e :: (parse_error, bytes) result) = Ok v"
    unfolding b3 by (rule slice_mid) (use k e in auto)
  have ec: "e < ?c" "e + 1 = length (pre @ field_text x)" using k e by (auto simp: ft)
  have ba: "?b = (pre @ field_text x) @ body @ post" "?c = length (pre @ field_text x) + length body"
    by auto
  have tag: "\<not> 2 ^ 32 \<le> unat t" using unat_u32_less [of t] by simp
  show ?thesis
    unfolding parse_fields_step [OF lt] s1 bindR_simps pos ok_or_simps Let_def k [symmetric] s2 ds
      map_err_simps if_not_P [OF tag] f option.case if_P [OF ec(1)] s3 ec(2)
    unfolding ba using ec by (simp add: x)
qed

lemma parse_fields_complete:
  assumes "\<forall>x \<in> set xs. field_ok x"
  shows "parse_fields (pre @ concat (map field_text xs) @ post)
    (length pre + length (concat (map field_text xs))) (length pre) = Ok (map snd xs)"
  using assms
proof (induction xs arbitrary: pre)
  case Nil
  then show ?case by (simp add: parse_fields.simps)
next
  case (Cons x xs)
  have ok: "field_ok x" using Cons.prems by simp
  have "\<forall>x \<in> set xs. field_ok x" using Cons.prems by simp
  note IH = Cons.IH [OF this, of "pre @ field_text x"]
  show ?case
    unfolding list.map concat.simps parse_fields_cons [OF ok] IH by simp
qed

lemma parse_fields_sound:
  assumes "parse_fields (pre @ body @ post) (length pre + length body) (length pre) = Ok fs"
  shows "\<exists>xs. body = concat (map field_text xs) \<and> fs = map snd xs \<and> (\<forall>x \<in> set xs. field_ok x)"
  using assms
proof (induction "length body" arbitrary: pre body fs rule: less_induct)
  case less
  show ?case
  proof (cases "body = []")
    case True
    with less.prems show ?thesis by (intro exI [of _ "[]"]) (simp add: parse_fields.simps)
  next
    case False
    let ?b = "pre @ body @ post" and ?c = "length pre + length body"
    have lt: "length pre < ?c" using False by simp
    have s1: "(slice ?b (length pre) ?c :: (parse_error, bytes) result) = Ok body"
      by (rule slice_mid) auto
    from less.prems obtain i n e v fs' where
      i: "position (\<lambda>b. b = of_char (CHR ''='')) body = Some i"
      and n: "parse_decimal (take i (drop (length pre) ?b)) = Ok n" "n < 2 ^ 32"
      and e: "find_soh ?b (length pre + i + 1) = Some e" "e < ?c"
      and v: "v = take (e - (length pre + i + 1)) (drop (length pre + i + 1) ?b)"
      and rest: "parse_fields ?b ?c (e + 1) = Ok fs'" and fs: "fs = Field (of_nat n) v # fs'"
      unfolding parse_fields_step [OF lt] s1
      by (auto simp: Let_def bindR_eqs slice_Ok_iff split: if_splits option.splits)
    define ds where "ds = take i body"
    from i have il: "i < length body" and at: "body ! i = of_char (CHR ''='')"
      by (auto simp: position_Some)
    then have body: "body = ds @ of_char (CHR ''='') # drop (Suc i) body" and lds: "length ds = i"
      unfolding ds_def by (metis id_take_nth_drop, simp)
    from e(1) obtain p mid q where b: "?b = p @ mid @ SOH # q" and p: "length p = length pre + i + 1"
      and mid: "SOH \<notin> set mid" and e': "e = length pre + i + 1 + length mid"
      by (rule find_soh_Some)
    have dr: "drop (length pre + i + 1) ?b = drop (Suc i) body @ post"
      using il by simp
    have mq: "drop (Suc i) body @ post = mid @ SOH # q"
      unfolding dr [symmetric] b using p by simp
    have vm: "v = mid" unfolding v b e' using p by simp
    have "length mid < length (drop (Suc i) body)" using e(2) e' il by simp
    moreover obtain us where us: "drop (Suc i) body = mid @ us \<and> us @ post = SOH # q
        \<or> drop (Suc i) body @ us = mid \<and> post = us @ SOH # q"
      using mq unfolding append_eq_append_conv2 by blast
    ultimately have "drop (Suc i) body = mid @ us" "us @ post = SOH # q" "us \<noteq> []" by auto
    then obtain body' where body': "drop (Suc i) body = mid @ SOH # body'"
      by (cases us) auto
    let ?x = "(ds, Field (of_nat n) v)"
    have ok: "field_ok ?x"
      using n mid vm lds il unfolding field_ok_def by (simp add: ds_def unat_of_nat_u32)
    have bt: "body = field_text ?x @ body'" using body body' vm by (simp add: field_text_def)
    have "parse_fields ((pre @ field_text ?x) @ body' @ post)
        (length (pre @ field_text ?x) + length body') (length (pre @ field_text ?x)) = Ok fs'"
      using less.prems fs unfolding bt parse_fields_cons [OF ok] by (auto simp: bindR_eqs)
    moreover have "length body' < length body" unfolding bt by (simp add: field_text_def)
    ultimately obtain xs where "body' = concat (map field_text xs)" "fs' = map snd xs"
      "\<forall>x \<in> set xs. field_ok x"
      using less.hyps by blast
    then show ?thesis using bt fs ok by (intro exI [of _ "?x # xs"]) simp
  qed
qed

lemma position_less: "position P xs = Some i \<Longrightarrow> i < length xs"
  by (simp add: position_Some)

lemma find_soh_bounds: "find_soh xs s = Some e \<Longrightarrow> s \<le> e \<and> e < length xs"
  by (erule find_soh_Some) auto

lemma parse_fields_no_panic:
  assumes "c \<le> length f"
  shows "parse_fields f c k \<noteq> Panic"
proof (induction "c - k" arbitrary: k rule: less_induct)
  case less
  show ?case
  proof (cases "k < c")
    case True
    have s1: "(slice f k c :: (parse_error, bytes) result) = Ok (take (c - k) (drop k f))"
      using True assms by (simp add: slice_def)
    have IH: "k < k' \<Longrightarrow> parse_fields f c k' \<noteq> Panic" for k'
      using less True by simp
    show ?thesis
      using assms IH unfolding parse_fields_step [OF True] s1
      by (auto simp: Let_def bindR_eqs slice_def
          dest!: position_less find_soh_bounds split: if_splits option.splits)
  qed (simp add: parse_fields.simps)
qed

text \<open>\<open>parse_frame\<close> on an acceptable frame is the field loop over its body.\<close>

lemma parse_frame_parts:
  assumes parts: "frame_parts f bs ds body cs c"
  defines "h \<equiv> length (frame_head bs ds)"
  shows "parse_frame f = bindR (parse_fields f (h + length body) h) (\<lambda>fs.
     if first_tag fs \<noteq> Some 35 then Err (ParseMalformed ''MsgType(35) must be third'')
     else Ok \<lparr>pm_begin_string = bs, pm_fields = fs, pm_checksum = of_nat c\<rparr>)"
proof -
  from parts have f: "f = frame_head bs ds @ body @ as_bytes ''10='' @ cs @ [SOH]"
    and bs: "SOH \<notin> set bs" and n: "parse_decimal ds = Ok (length body)"
    and cs: "length cs = 3" "parse_decimal cs = Ok c" and len: "length f \<le> usize_max"
    unfolding frame_parts_def by blast+
  have ds: "SOH \<notin> set ds" using parts by (rule frame_parts_SOH)
  have "length body \<le> length f" unfolding f by simp
  then have "wf_frame (length f) f" using parts unfolding wf_frame_def by blast
  then have take: "try_take_frame f (length f) = Ok (Some (f, []))"
    by (simp add: try_take_frame_iff)
  obtain e where e: "e = length bs + 2" by simp
  obtain q where q: "q = e + 1 + 2 + length ds" by simp
  let ?t = "body @ as_bytes ''10='' @ cs @ [SOH]"
  have b1: "f = [] @ (as_bytes ''8='' @ bs) @ SOH # (as_bytes ''9='' @ ds @ SOH # ?t)"
    by (simp add: f frame_head_def)
  have e1: "find_soh f 0 = Some e"
    unfolding b1 by (subst find_soh_append) (use bs e in auto)
  have b2: "f = (as_bytes ''8='' @ bs @ [SOH]) @ (as_bytes ''9='' @ ds) @ SOH # ?t"
    by (simp add: f frame_head_def)
  have e2: "find_soh f (e + 1) = Some q"
    unfolding b2 by (subst find_soh_append) (use ds e q in auto)
  have b3: "f = (as_bytes ''8='' @ bs @ SOH # as_bytes ''9='') @ ds @ SOH # ?t"
    by (simp add: f frame_head_def)
  have s1: "(slice f (e + 1 + 2) q :: (parse_error, bytes) result) = Ok ds"
    unfolding b3 by (rule slice_mid) (use e q in auto)
  have qh: "q + 1 = h" using e q by (simp add: h_def length_frame_head)
  have add: "checked_add_usize h (length body) = Ok (h + length body)"
    using len by (simp add: checked_add_usize_def f h_def)
  have b4: "f = (frame_head bs ds @ body @ as_bytes ''10='') @ cs @ [SOH]" by (simp add: f)
  have s2: "(slice f (h + length body + 3) (h + length body + 6) :: (parse_error, bytes) result) = Ok cs"
    unfolding b4 by (rule slice_mid) (use cs h_def in auto)
  have b5: "f = as_bytes ''8='' @ bs @ SOH # as_bytes ''9='' @ ds @ SOH # ?t"
    by (simp add: f frame_head_def)
  have s3: "(slice f 2 e :: (parse_error, bytes) result) = Ok bs"
    unfolding b5 by (rule slice_mid) (use e in auto)
  show ?thesis
    unfolding parse_frame_def take map_err_simps bindR_simps ok_or_simps e1 Let_def e2 s1 n qh
    by (simp add: add s2 cs s3 cong: if_cong)
qed

text \<open>
  The parser accepts exactly the frames the scanner accepts whose body is a sequence of fields
  that starts with tag 35, and it returns that sequence.
\<close>

lemma parse_frame_iff:
  "parse_frame f = Ok m \<longleftrightarrow> (\<exists>bs ds xs cs c.
     frame_parts f bs ds (concat (map field_text xs)) cs c \<and> (\<forall>x \<in> set xs. field_ok x)
     \<and> first_tag (map snd xs) = Some 35
     \<and> m = \<lparr>pm_begin_string = bs, pm_fields = map snd xs, pm_checksum = of_nat c\<rparr>)" (is "?l \<longleftrightarrow> ?r")
proof
  assume ?l
  then have "\<exists>r. try_take_frame f (length f) = Ok (Some (f, r)) \<and> r = []"
    by (auto simp: parse_frame_def bindR_eqs split: if_splits dest: try_take_frame_shrinks(1))
  then obtain bs ds body cs c where parts: "frame_parts f bs ds body cs c"
    by (auto simp: try_take_frame_iff wf_frame_def)
  let ?h = "length (frame_head bs ds)"
  from \<open>?l\<close> obtain fs where fs: "parse_fields f (?h + length body) ?h = Ok fs"
    and first: "first_tag fs = Some 35"
    and m: "m = \<lparr>pm_begin_string = bs, pm_fields = fs, pm_checksum = of_nat c\<rparr>"
    by (auto simp: parse_frame_parts [OF parts] bindR_eqs split: if_splits)
  have f: "f = frame_head bs ds @ body @ as_bytes ''10='' @ cs @ [SOH]"
    using parts unfolding frame_parts_def by blast
  obtain xs where "body = concat (map field_text xs)" "fs = map snd xs" "\<forall>x \<in> set xs. field_ok x"
    using parse_fields_sound [of "frame_head bs ds" body _ fs] fs unfolding f by blast
  with parts first m show ?r by blast
next
  assume ?r
  then obtain bs ds xs cs c where parts: "frame_parts f bs ds (concat (map field_text xs)) cs c"
    and ok: "\<forall>x \<in> set xs. field_ok x" and first: "first_tag (map snd xs) = Some 35"
    and m: "m = \<lparr>pm_begin_string = bs, pm_fields = map snd xs, pm_checksum = of_nat c\<rparr>"
    by blast
  have f: "f = frame_head bs ds @ concat (map field_text xs) @ as_bytes ''10='' @ cs @ [SOH]"
    using parts unfolding frame_parts_def by blast
  show ?l
    unfolding parse_frame_parts [OF parts]
    using parse_fields_complete [OF ok, of "frame_head bs ds" "as_bytes ''10='' @ cs @ [SOH]"] first m
    unfolding f [symmetric] by simp
qed

lemma parse_frame_no_panic [simp]: "parse_frame f \<noteq> Panic"
proof
  assume p: "parse_frame f = Panic"
  then have "\<exists>r. try_take_frame f (length f) = Ok (Some (f, r)) \<and> r = []"
    by (auto simp: parse_frame_def bindR_eqs split: if_splits dest: try_take_frame_shrinks(1))
  then obtain bs ds body cs c where parts: "frame_parts f bs ds body cs c"
    by (auto simp: try_take_frame_iff wf_frame_def)
  then have "length (frame_head bs ds) + length body \<le> length f"
    unfolding frame_parts_def by auto
  with p show False
    by (auto simp: parse_frame_parts [OF parts] bindR_eqs parse_fields_no_panic split: if_splits)
qed

section \<open>Encoding and the round trip\<close>

definition encodable :: "field list \<Rightarrow> bool" where
  "encodable fs \<longleftrightarrow> (\<forall>f \<in> set fs. field_tag f \<noteq> 0 \<and> \<not> (8 \<le> field_tag f \<and> field_tag f \<le> 10))"

definition printed :: "field \<Rightarrow> bytes \<times> field" where
  "printed f = (as_bytes (dec (unat (field_tag f))), f)"

lemma encode_body_Ok:
  "encode_body fs = Ok body \<longleftrightarrow> encodable fs \<and> body = concat (map (\<lambda>f. field_text (printed f)) fs)"
proof (induction fs arbitrary: body)
  case (Cons f fs)
  then show ?case
    by (cases f) (auto simp: bindR_eqs encodable_def encode_field_def field_text_def printed_def)
qed (auto simp: encodable_def)

lemma encode_body_no_panic [simp]: "encode_body fs \<noteq> Panic"
proof (induction fs)
  case (Cons f fs)
  then show ?case by (cases f) (auto simp: bindR_eqs)
qed simp

lemma encode_message_no_panic [simp]: "encode_message bs fs \<noteq> Panic"
  by (auto simp: encode_message_def bindR_eqs Let_def)

lemma encode_message_Ok:
  "encode_message bs fs = Ok w \<longleftrightarrow>
     bs \<noteq> [] \<and> SOH \<notin> set bs \<and> of_char (CHR ''='') \<notin> set bs \<and> first_tag fs = Some 35 \<and> encodable fs \<and>
     (let body = concat (map (\<lambda>f. field_text (printed f)) fs); wire = encode_header bs (length body) @ body
      in w = wire @ encode_trailer (checksum_of wire))"
  by (auto simp: encode_message_def bindR_eqs encode_body_Ok Let_def)

lemma field_ok_printed: "SOH \<notin> set (field_value f) \<Longrightarrow> field_ok (printed f)"
proof -
  assume "SOH \<notin> set (field_value f)"
  moreover have "unat (field_tag f) \<le> usize_max"
    using unat_u32_less [of "field_tag f"] by (simp add: usize_max_def)
  ultimately show ?thesis by (simp add: field_ok_def printed_def)
qed

lemma dec03_digits:
  assumes "n < 256"
  shows "length (dec03 n) = 3" and "parse_decimal (as_bytes (dec03 n)) = Ok n"
proof -
  have len: "length (dec n) \<le> 3"
  proof -
    consider "n < 10" | "10 \<le> n" "n div 10 < 10" | "10 \<le> n" "10 \<le> n div 10" "n div 10 div 10 < 10"
      using assms by linarith
    then show ?thesis by cases (simp_all add: dec_small dec_large [of n] dec_large [of "n div 10"])
  qed
  then show "length (dec03 n) = 3" by (simp add: dec03_def)
  have zeros: "as_bytes (replicate k (CHR ''0'')) = replicate k 48" for k
    by (induction k) simp_all
  have val: "dec_value (replicate k 48 @ bs) = dec_value bs" for k bs
    by (induction k) (simp_all add: dec_value_def digit_value_def)
  have "\<forall>b \<in> set (as_bytes (dec03 n)). is_digit b"
    using dec_digits [of _ n] by (auto simp: dec03_def zeros is_digit_unat)
  then show "parse_decimal (as_bytes (dec03 n)) = Ok n"
    using assms len by (simp add: parse_decimal_Ok dec03_def zeros val usize_max_def)
qed

lemma encode_message_parts:
  assumes "encode_message bs fs = Ok w" "length w \<le> usize_max"
  shows "\<exists>c. frame_parts w bs (as_bytes (dec (length (concat (map (\<lambda>f. field_text (printed f)) fs)))))
    (concat (map (\<lambda>f. field_text (printed f)) fs)) (as_bytes (dec03 c)) c \<and> c < 256"
proof -
  let ?body = "concat (map (\<lambda>f. field_text (printed f)) fs)"
  let ?ds = "as_bytes (dec (length ?body))"
  have head: "encode_header bs (length ?body) = frame_head bs ?ds"
    by (simp add: encode_header_def frame_head_def)
  let ?c = "unat (checksum_of (frame_head bs ?ds @ ?body))"
  have c: "?c < 256" by (rule unat_u8_less)
  from assms(1) have w: "w = frame_head bs ?ds @ ?body @ as_bytes ''10='' @ as_bytes (dec03 ?c) @ [SOH]"
    and bs: "SOH \<notin> set bs"
    unfolding encode_message_Ok Let_def head encode_trailer_def by auto
  have "length ?body \<le> usize_max" using assms(2) unfolding w by simp
  then have "frame_parts w bs ?ds ?body (as_bytes (dec03 ?c)) ?c"
    unfolding frame_parts_def using w bs c dec03_digits [OF c] assms(2) by auto
  with c show ?thesis by blast
qed

lemma parse_encode:
  assumes w: "encode_message bs fs = Ok w" "length w \<le> usize_max"
    and vals: "\<forall>f \<in> set fs. SOH \<notin> set (field_value f)"
  shows "\<exists>c. parse_frame w = Ok \<lparr>pm_begin_string = bs, pm_fields = fs, pm_checksum = c\<rparr>"
proof -
  let ?xs = "map printed fs"
  from encode_message_parts [OF w] obtain c ds cs where
    parts: "frame_parts w bs ds (concat (map field_text ?xs)) cs c"
    by (auto simp: comp_def)
  moreover have "\<forall>x \<in> set ?xs. field_ok x" using vals by (auto intro: field_ok_printed)
  moreover have snd: "map snd ?xs = fs" by (simp add: printed_def comp_def)
  moreover have "first_tag fs = Some 35" using w(1) by (simp add: encode_message_Ok)
  ultimately show ?thesis
    unfolding parse_frame_iff by (intro exI conjI) (assumption | simp)+
qed

text \<open>Every value of a parsed message is free of delimiters, so it can be encoded again safely.\<close>

lemma parse_frame_values: "parse_frame f = Ok m \<Longrightarrow> fl \<in> set (pm_fields m) \<Longrightarrow> SOH \<notin> set (field_value fl)"
  by (auto simp: parse_frame_iff field_ok_def)

lemma parse_frame_first: "parse_frame f = Ok m \<Longrightarrow> first_tag (pm_fields m) = Some 35"
  by (auto simp: parse_frame_iff)

lemma parse_frame_msg_type: "parse_frame f = Ok m \<Longrightarrow> \<exists>t. msg_type m = Some t"
  by (auto simp: msg_type_def first_tag_def dest!: parse_frame_first split: list.splits)

section \<open>Errors of the encoder\<close>

lemma managed_tag_iff: "8 \<le> t \<and> t \<le> 10 \<longleftrightarrow> (t :: u32) \<in> {8, 9, 10}"
proof -
  have "8 \<le> n \<and> n \<le> 10 \<longleftrightarrow> n = 8 \<or> n = 9 \<or> n = 10" for n :: nat by arith
  then show ?thesis by (simp add: word_le_nat_alt word_unat_eq_iff)
qed

definition refused :: "field \<Rightarrow> codec_error \<Rightarrow> bool" where
  "refused f e \<longleftrightarrow> field_tag f = 0 \<and> e = InvalidTag \<or> field_tag f \<in> {8, 9, 10} \<and> e = ManagedField (field_tag f)"

lemma not_encodable: "(\<exists>e. refused f e) \<longleftrightarrow> field_tag f = 0 \<or> 8 \<le> field_tag f \<and> field_tag f \<le> 10"
  by (auto simp: refused_def managed_tag_iff)

lemma ex_split_Cons:
  "(\<exists>pre g post. f # fs = pre @ g # post \<and> encodable pre \<and> R g) \<longleftrightarrow>
     R f \<or> encodable [f] \<and> (\<exists>pre g post. fs = pre @ g # post \<and> encodable pre \<and> R g)"
proof
  assume "\<exists>pre g post. f # fs = pre @ g # post \<and> encodable pre \<and> R g"
  then obtain pre g post where e: "f # fs = pre @ g # post" "encodable pre" "R g" by blast
  then show "R f \<or> encodable [f] \<and> (\<exists>pre g post. fs = pre @ g # post \<and> encodable pre \<and> R g)"
    by (cases pre) (auto simp: encodable_def)
next
  assume r: "R f \<or> encodable [f] \<and> (\<exists>pre g post. fs = pre @ g # post \<and> encodable pre \<and> R g)"
  have "f # fs = [] @ f # fs" "encodable []" by (simp_all add: encodable_def)
  moreover have "f # pre @ g # post = (f # pre) @ g # post" for pre g post by simp
  moreover have "encodable [f] \<Longrightarrow> encodable pre \<Longrightarrow> encodable (f # pre)" for pre
    by (simp add: encodable_def)
  ultimately show "\<exists>pre g post. f # fs = pre @ g # post \<and> encodable pre \<and> R g"
    using r by metis
qed

lemma encode_body_Err:
  "encode_body fs = Err e \<longleftrightarrow> (\<exists>pre f post. fs = pre @ f # post \<and> encodable pre \<and> refused f e)"
proof (induction fs)
  case (Cons f fs)
  obtain t v where f: "f = Field t v" by (cases f)
  show ?case
    unfolding ex_split_Cons using Cons.IH
    by (auto simp: f refused_def encodable_def bindR_eqs managed_tag_iff)
qed simp

section \<open>Properties\<close>

text \<open>The frames split off a buffer, whatever the result of the loop: it ends at a frame still
  incomplete, with all of them returned, or at a malformed one, with none of them.\<close>

lemma take_frames_split:
  "take_frames b m = (rest, r) \<Longrightarrow> \<exists>fs. concat fs @ rest = b \<and> list_all (wf_frame m) fs
     \<and> (r = Ok fs \<and> try_take_frame rest m = Ok None \<or> (\<exists>e. r = Err e \<and> try_take_frame rest m = Err e))"
proof (induction b m arbitrary: rest r rule: take_frames.induct)
  case (1 b m)
  show ?case
  proof (cases "try_take_frame b m")
    case (Ok taken)
    show ?thesis
    proof (cases taken)
      case None
      then have "rest = b" "r = Ok []" "try_take_frame b m = Ok None"
        using 1(2) Ok by (auto simp: take_frames_eval)
      then show ?thesis by (intro exI [of _ "[]"]) simp
    next
      case (Some p)
      obtain f r' where p: "p = (f, r')" by fastforce
      obtain rest' q where t: "take_frames r' m = (rest', q)" by fastforce
      from 1(1) [OF Ok Some p [symmetric] t] obtain fs where
        "concat fs @ rest' = r'" "list_all (wf_frame m) fs"
        "q = Ok fs \<and> try_take_frame rest' m = Ok None \<or> (\<exists>e. q = Err e \<and> try_take_frame rest' m = Err e)" by blast
      moreover have "b = f @ r'" "wf_frame m f" using Ok Some p by (simp_all add: try_take_frame_iff)
      moreover have "rest = rest'" "r = bindR q (\<lambda>gs. Ok (f # gs))"
        using 1(2) Ok Some p t by (auto simp: take_frames_eval)
      ultimately show ?thesis by (intro exI [of _ "f # fs"]) auto
    qed
  next
    case (Err e)
    then have "rest = b" "r = Err e" using 1(2) by (auto simp: take_frames_eval)
    then show ?thesis using Err by (intro exI [of _ "[]"]) simp
  qed simp
qed

lemma take_frames_sound:
  "take_frames b m = (rest, Ok fs) \<Longrightarrow> concat fs @ rest = b \<and> list_all (wf_frame m) fs"
  by (drule take_frames_split) auto

text \<open>C7: a message the encoder accepts is parsed back by \<open>parse_frame\<close> to the same BeginString and
  the same fields in the same order, provided no value contains the delimiter.\<close>

theorem encode_parse_roundtrip:
  assumes "encode_message bs fs = Ok w" "length w \<le> usize_max" "list_all (\<lambda>f. SOH \<notin> set (field_value f)) fs"
  shows "\<exists>c. parse_frame w = Ok \<lparr>pm_begin_string = bs, pm_fields = fs, pm_checksum = c\<rparr>"
  using assms by (intro parse_encode) (auto simp: list_all_iff)

theorem encode_parse_roundtrip_witness:
  "\<exists>w c. encode_message (as_bytes ''FIX.4.4'') [Field 35 (as_bytes ''0''), Field 34 (as_bytes ''7'')] = Ok w
     \<and> parse_frame w = Ok \<lparr>pm_begin_string = as_bytes ''FIX.4.4'',
         pm_fields = [Field 35 (as_bytes ''0''), Field 34 (as_bytes ''7'')], pm_checksum = c\<rparr>"
proof -
  obtain w where w: "encode_message (as_bytes ''FIX.4.4'') [Field 35 (as_bytes ''0''), Field 34 (as_bytes ''7'')] = Ok w"
      "length w \<le> usize_max"
    by (simp add: fix_eval cong: fix_cong)
  moreover have "list_all (\<lambda>f. SOH \<notin> set (field_value f)) [Field 35 (as_bytes ''0''), Field 34 (as_bytes ''7'')]"
    by simp
  ultimately show ?thesis using encode_parse_roundtrip by blast
qed

text \<open>C8: the flat messages are what \<open>parse_frame\<close> accepts: a frame whose BodyLength, layout and
  CheckSum agree, whose body, split at every delimiter, is a sequence of decimal tags with values and
  starts with MsgType; it returns exactly those fields, in order, and no value it returns contains the
  delimiter. It has no notion of a Length/DATA pair or of a repeating group, which
  \<open>docs/architecture\<close> and the README ascribe to it: a DATA value that contains the delimiter is
  cut there, and the message is accepted only where every piece is again a field.\<close>

theorem parse_frame_accepts:
  "parse_frame f = Ok m \<longleftrightarrow> (\<exists>bs ds xs cs c.
     frame_parts f bs ds (concat (map field_text xs)) cs c \<and> list_all field_ok xs
     \<and> list_all (\<lambda>x. SOH \<notin> set (field_value x)) (map snd xs)
     \<and> first_tag (map snd xs) = Some 35
     \<and> m = \<lparr>pm_begin_string = bs, pm_fields = map snd xs, pm_checksum = of_nat c\<rparr>)"
proof -
  have "list_all (\<lambda>x. SOH \<notin> set (field_value x)) (map snd xs)" if "list_all field_ok xs" for xs
    using that by (auto simp: list_all_iff field_ok_def)
  then show ?thesis unfolding parse_frame_iff list_all_iff by blast
qed

text \<open>C9: whatever bytes arrive, the decoder, the parser and the encoder never panic: no slice is
  out of range and no index is missing.\<close>

theorem codec_never_panics:
  "try_take_frame b m \<noteq> Panic \<and> snd (ingest d chunk) \<noteq> Panic \<and> parse_frame f \<noteq> Panic \<and> encode_message bs fs \<noteq> Panic"
proof -
  have "snd (ingest d chunk) \<noteq> Panic"
    using take_frames_no_panic [of "fd_buffer d @ chunk" "fd_max_body_length d"]
    by (cases "take_frames (fd_buffer d @ chunk) (fd_max_body_length d)")
      (auto simp: ingest_def bindR_eqs checked_add_usize_def)
  then show ?thesis by simp
qed

text \<open>C10: \<open>try_take_frame\<close> splits off the first frame exactly when the buffer starts with a
  well-formed frame, and what it leaves is the rest of the buffer.\<close>

theorem try_take_frame_exact:
  "try_take_frame b m = Ok (Some (f, r)) \<longleftrightarrow> b = f @ r \<and> wf_frame m f"
  by (rule try_take_frame_iff)

text \<open>C11: however the network cuts a stream of well-formed frames into chunks, the decoder returns
  exactly those frames in order, and its buffer is empty at the end.\<close>

theorem decoder_ignores_fragmentation:
  assumes "concat chunks = concat fs" "list_all (wf_frame m) fs" "list_all (\<lambda>f. length f \<le> m + 1024) fs"
    and "m + 1024 \<le> usize_max"
  shows "ingest_all (new_decoder m) chunks = (new_decoder m, Ok fs)"
  unfolding new_decoder_def using assms
  by (intro ingest_all_frames) (auto simp: list_all_iff dest: wf_frame_nonempty split: list.splits)

definition heartbeat_frame :: bytes where
  "heartbeat_frame = as_bytes ''8=F'' @ [SOH] @ as_bytes ''9=5'' @ [SOH] @ as_bytes ''35=0'' @ [SOH]
     @ as_bytes ''10=062'' @ [SOH]"

lemma heartbeat_frame_taken: "try_take_frame heartbeat_frame 64 = Ok (Some (heartbeat_frame, []))"
  by (simp add: heartbeat_frame_def fix_eval cong: fix_cong)

theorem decoder_ignores_fragmentation_witness:
  "ingest_all (new_decoder 64) [take 1 heartbeat_frame, drop 1 heartbeat_frame @ take 9 heartbeat_frame, drop 9 heartbeat_frame]
     = (new_decoder 64, Ok [heartbeat_frame, heartbeat_frame])"
proof (rule decoder_ignores_fragmentation)
  have "wf_frame 64 heartbeat_frame" using heartbeat_frame_taken by (simp add: try_take_frame_iff)
  then show "list_all (wf_frame 64) [heartbeat_frame, heartbeat_frame]" by simp
qed (simp_all add: heartbeat_frame_def usize_max_def)

text \<open>C12: the encoder refuses exactly three things, in this order: a BeginString that is empty or
  holds a delimiter, a body that does not start with MsgType, and the first field whose tag is 0
  or one of the tags 8 to 10 the encoder manages.\<close>

theorem encode_message_errors:
  "encode_message bs fs = Err e \<longleftrightarrow>
     (if bs = [] \<or> SOH \<in> set bs \<or> of_char (CHR ''='') \<in> set bs then e = InvalidBeginString
      else if first_tag fs \<noteq> Some 35 then e = MsgTypeMustBeFirst
      else \<exists>pre f post. fs = pre @ f # post \<and> encodable pre \<and> refused f e)"
  by (auto simp: encode_message_def bindR_eqs Let_def encode_body_Err)

text \<open>C13: the encoder does not look inside values. A value that contains the delimiter and a tag
  is read back by the parser as a further field, whatever its tag.\<close>

theorem delimiter_in_value_injects_field:
  assumes "encode_message bs (pre @ Field t (v @ SOH # as_bytes (dec (unat u)) @ as_bytes ''='' @ x) # post) = Ok w"
    and "length w \<le> usize_max" "SOH \<notin> set v" "SOH \<notin> set x"
    and "list_all (\<lambda>f. SOH \<notin> set (field_value f)) (pre @ post)"
  shows "\<exists>c. parse_frame w = Ok \<lparr>pm_begin_string = bs,
           pm_fields = pre @ Field t v # Field u x # post, pm_checksum = c\<rparr>"
proof -
  let ?fs = "pre @ Field t (v @ SOH # as_bytes (dec (unat u)) @ as_bytes ''='' @ x) # post"
  let ?xs = "map printed (pre @ Field t v # Field u x # post)"
  from encode_message_parts [OF assms(1,2)] obtain c ds cs where
    parts: "frame_parts w bs ds (concat (map field_text (map printed ?fs))) cs c"
    by (auto simp: comp_def)
  have "concat (map field_text (map printed ?fs)) = concat (map field_text ?xs)"
    by (simp add: field_text_def printed_def)
  moreover have "list_all field_ok ?xs"
    using assms(3-5) by (simp add: list_all_iff field_ok_printed ball_Un)
  moreover have snd: "map snd ?xs = pre @ Field t v # Field u x # post" by (simp add: printed_def comp_def)
  moreover have "first_tag (pre @ Field t v # Field u x # post) = Some 35"
    using assms(1) by (cases pre) (auto simp: encode_message_Ok first_tag_def)
  ultimately show ?thesis
    using parts unfolding parse_frame_iff list_all_iff by (metis (no_types, lifting))
qed

definition injected_account :: "field list" where
  "injected_account = [Field 35 (as_bytes ''D''), Field 1 (as_bytes ''ACC'' @ [SOH] @ as_bytes ''44=0'')]"

theorem delimiter_in_value_injects_field_witness:
  "\<exists>w c. encode_message (as_bytes ''F'') injected_account = Ok w
     \<and> parse_frame w = Ok \<lparr>pm_begin_string = as_bytes ''F'',
         pm_fields = [Field 35 (as_bytes ''D''), Field 1 (as_bytes ''ACC''), Field 44 (as_bytes ''0'')],
         pm_checksum = c\<rparr>"
proof -
  obtain w where w: "encode_message (as_bytes ''F'') injected_account = Ok w" "length w \<le> usize_max"
    by (simp add: injected_account_def fix_eval word_le_nat_alt [of 8 "1 :: u32"] cong: fix_cong)
  have "injected_account = [Field 35 (as_bytes ''D'')] @
      Field 1 (as_bytes ''ACC'' @ SOH # as_bytes (dec (unat (44 :: u32))) @ as_bytes ''='' @ as_bytes ''0'') # []"
    by (simp add: injected_account_def fix_eval)
  with w have "encode_message (as_bytes ''F'') ([Field 35 (as_bytes ''D'')] @
      Field 1 (as_bytes ''ACC'' @ SOH # as_bytes (dec (unat (44 :: u32))) @ as_bytes ''='' @ as_bytes ''0'') # []) = Ok w"
    by simp
  from delimiter_in_value_injects_field [OF this w(2)] show ?thesis using w(1) by simp
qed

text \<open>C14: what \<open>ingest\<close> does with every byte, for every buffer and every chunk, success or not. It
  splits well-formed frames off the old buffer followed by the new bytes and keeps the rest, so the
  buffer never grows by more than the chunk. On success all of those frames are returned, no further whole frame is
  left and at most the body limit plus 1024 bytes stay buffered. On an error \<^emph>\<open>none\<close> of the frames split off
  before it is returned and they are gone from the buffer, while the offending rest stays in it: a malformed
  frame at its front, or a rest above the bound (or a bound that does not fit into \<open>usize\<close>).\<close>

theorem ingest_bounded:
  assumes "ingest d chunk = (d', r)"
  shows "\<exists>fs. fd_buffer d @ chunk = concat fs @ fd_buffer d'
    \<and> list_all (wf_frame (fd_max_body_length d)) fs
    \<and> fd_max_body_length d' = fd_max_body_length d
    \<and> (case r of
        Ok gs \<Rightarrow> gs = fs \<and> length (fd_buffer d') \<le> fd_max_body_length d + 1024
          \<and> try_take_frame (fd_buffer d') (fd_max_body_length d) = Ok None
      | Err e \<Rightarrow> try_take_frame (fd_buffer d') (fd_max_body_length d) = Err e
          \<or> e = BufferedDataTooLarge \<and> fd_max_body_length d + 1024 < length (fd_buffer d')
          \<or> e = LengthOverflow \<and> usize_max < fd_max_body_length d + 1024
      | Panic \<Rightarrow> False)"
proof -
  obtain rest q where t: "take_frames (fd_buffer d @ chunk) (fd_max_body_length d) = (rest, q)" by fastforce
  from take_frames_split [OF this] obtain fs where
    "fd_buffer d @ chunk = concat fs @ rest" "list_all (wf_frame (fd_max_body_length d)) fs"
    "q = Ok fs \<and> try_take_frame rest (fd_max_body_length d) = Ok None
      \<or> (\<exists>e. q = Err e \<and> try_take_frame rest (fd_max_body_length d) = Err e)" by metis
  with assms t show ?thesis
    by (intro exI [of _ fs]) (auto simp: ingest_def bindR_eqs checked_add_usize_def split: if_splits)
qed

text \<open>Both outcomes on a small decoder: a frame that arrives whole, and the same frame followed by
  a byte sequence that is not one: the frame is lost and the decoder stays stuck on the rest.\<close>

theorem ingest_bounded_witness:
  "(\<exists>fs. heartbeat_frame = concat fs \<and> [heartbeat_frame] = fs \<and> list_all (wf_frame 64) fs)
    \<and> ingest (new_decoder 64) (heartbeat_frame @ [0, 0])
       = ((new_decoder 64)\<lparr>fd_buffer := [0, 0]\<rparr>, Err (Malformed ''BeginString(8) must be first''))
    \<and> (\<exists>fs. heartbeat_frame @ [0, 0] = concat fs @ [0, 0] \<and> list_all (wf_frame 64) fs)"
proof -
  have taken: "try_take_frame (heartbeat_frame @ [0, 0]) 64 = Ok (Some (heartbeat_frame, [0, 0]))"
    using heartbeat_frame_taken by (simp add: try_take_frame_iff)
  have whole: "ingest (new_decoder 64) heartbeat_frame = (new_decoder 64, Ok [heartbeat_frame])"
    using heartbeat_frame_taken
    by (simp add: ingest_def new_decoder_def take_frames_eval try_take_frame_def [of "[]"]
        checked_add_usize_def usize_max_def)
  have bad: "try_take_frame [0, 0] 64 = Err (Malformed ''BeginString(8) must be first'')"
    by (simp add: try_take_frame_def starts_with_split)
  then have lost: "ingest (new_decoder 64) (heartbeat_frame @ [0, 0])
       = ((new_decoder 64)\<lparr>fd_buffer := [0, 0]\<rparr>, Err (Malformed ''BeginString(8) must be first''))"
    using taken by (simp add: ingest_def new_decoder_def take_frames_eval)
  show ?thesis
    using ingest_bounded [OF whole] ingest_bounded [OF lost] lost
    by (auto simp: new_decoder_def)
qed

end
