(* ===== verification/Fix_Store.thy ===== *)
theory Fix_Store
  imports Fix_Prelude
begin

text \<open>
  The journal of \<open>crates/fix-store/src/lib.rs\<close>: its records, the operations of \<open>RedbStore\<close> and
  the worker behind a \<open>StoreHandle\<close>.

  redb and serde_json are third-party. A redb table is a map, as redb documents it, that holds
  the stored records themselves (the JSON text of a record is not modelled). What they can do
  wrong is the parameter \<open>be\<close> of every operation: \<open>be n = Some message\<close> when the fallible call
  number \<open>n\<close> of the operation, counted in program order, returns that error. A write transaction works on a
  copy of the tables which \<open>commit\<close> installs; one that is dropped before that is aborted.
\<close>

section \<open>Records\<close>

record recovery_state =
  rs_next_out :: u64
  rs_next_in :: u64
  rs_next_event :: u64

definition recovery_default :: recovery_state where
  "recovery_default = \<lparr>rs_next_out = 1, rs_next_in = 1, rs_next_event = 1\<rparr>"

datatype command_phase = Journaled | Written

record command_record =
  cr_request_id :: string
  cr_fingerprint :: string
  cr_cl_ord_id :: string
  cr_msg_seq_num :: u64
  cr_phase :: command_phase

record outbound_record =
  ob_command :: command_record
  ob_wire :: bytes

datatype transmission_phase = TxJournaled | TxWritten

record transmission_record =
  tr_id :: u64
  tr_msg_seq_num :: u64
  tr_kind :: string
  tr_wire :: bytes
  tr_phase :: transmission_phase

record event_record =
  ev_id :: u64
  ev_kind :: string
  ev_details :: "string \<rightharpoonup> string"

record inbound_record =
  ib_msg_seq_num :: u64
  ib_msg_type :: string
  ib_wire :: bytes
  ib_event_id :: u64

record resync_inbound_commit =
  ri_next_in_after :: u64
  ri_event :: event_record

record outbound_commit =
  oc_request_id :: string
  oc_fingerprint :: string
  oc_cl_ord_id :: string
  oc_msg_seq_num :: u64
  oc_wire :: bytes

record mark_outbound =
  mo_request_id :: string
  mo_msg_seq_num :: u64

record transmission_commit =
  tc_msg_seq_num :: u64
  tc_kind :: string
  tc_wire :: bytes

record inbound_commit =
  ic_msg_seq_num :: u64
  ic_next_in_after :: u64
  ic_msg_type :: string
  ic_wire :: bytes
  ic_event :: event_record

datatype store_op =
    CommitOutbound outbound_commit
  | MarkOutboundWritten mark_outbound
  | CommitTransmission transmission_commit
  | MarkTransmissionWritten u64
  | CommitInbound inbound_commit
  | ResyncInbound resync_inbound_commit
  | ResetSequences
  | LoadCommand string
  | LoadOutboundRange u64 u64
  | LoadInbound u64
  | LoadTransmission u64

datatype store_reply =
    Command command_record
  | StoredCommand "command_record option"
  | Transmission transmission_record
  | StoredTransmission "transmission_record option"
  | Inbound inbound_record
  | ResyncedInbound u64
  | SequencesReset u64
  | StoredInbound "inbound_record option"
  | Outbound "outbound_record list"

datatype store_error =
    IdempotencyConflict string
  | OutboundSequenceMismatch (expected: u64) (actual: u64)
  | InboundSequenceMismatch (expected: u64) (actual: u64)
  | EventSequenceMismatch (expected: u64) (actual: u64)
  | InvalidNextInbound u64 u64
  | UnknownCommand string
  | UnknownTransmission u64
  | Backend string
  | Decode string
  | WorkerStopped

text \<open>The \<open>Display\<close> strings, which the session and the control service carry in their errors.\<close>

fun store_error_string :: "store_error \<Rightarrow> string" where
  "store_error_string (IdempotencyConflict r) = ''request ID '' @ r @ '' was reused with a different fingerprint''"
| "store_error_string (OutboundSequenceMismatch e a) = ''expected outbound sequence '' @ dec64 e @ '', got '' @ dec64 a"
| "store_error_string (InboundSequenceMismatch e a) = ''expected inbound sequence '' @ dec64 e @ '', got '' @ dec64 a"
| "store_error_string (EventSequenceMismatch e a) = ''expected event ID '' @ dec64 e @ '', got '' @ dec64 a"
| "store_error_string (InvalidNextInbound c n) =
     ''next inbound sequence '' @ dec64 n @ '' must be greater than current '' @ dec64 c"
| "store_error_string (UnknownCommand r) = ''request ID '' @ r @ '' is not present in the journal''"
| "store_error_string (UnknownTransmission i) = ''transmission ID '' @ dec64 i @ '' is not present in the journal''"
| "store_error_string (Backend m) = ''storage backend error: '' @ m"
| "store_error_string (Decode m) = ''stored record could not be decoded: '' @ m"
| "store_error_string WorkerStopped = ''store worker stopped''"

section \<open>Tables and faults\<close>

record journal =
  db_meta :: "string \<rightharpoonup> u64"
  db_commands :: "string \<rightharpoonup> command_record"
  db_outbound :: "u64 \<rightharpoonup> outbound_record"
  db_transmissions :: "u64 \<rightharpoonup> transmission_record"
  db_inbound :: "u64 \<rightharpoonup> inbound_record"
  db_events :: "u64 \<rightharpoonup> event_record"

definition empty_database :: journal where
  "empty_database = \<lparr>db_meta = Map.empty, db_commands = Map.empty, db_outbound = Map.empty,
     db_transmissions = Map.empty, db_inbound = Map.empty, db_events = Map.empty\<rparr>"

type_synonym faults = "nat \<Rightarrow> string option"

definition no_faults :: faults where
  "no_faults = (\<lambda>_. None)"

text \<open>Consecutive redb calls, by their number in the transaction, and the serde_json calls.\<close>

fun redb :: "faults \<Rightarrow> nat list \<Rightarrow> (store_error, unit) result" where
  "redb be [] = Ok ()"
| "redb be (n # ns) = (case be n of Some m \<Rightarrow> Err (Backend m) | None \<Rightarrow> redb be ns)"

fun serde :: "faults \<Rightarrow> nat list \<Rightarrow> (store_error, unit) result" where
  "serde be [] = Ok ()"
| "serde be (n # ns) = (case be n of Some m \<Rightarrow> Err (Decode m) | None \<Rightarrow> serde be ns)"

definition get_meta :: "journal \<Rightarrow> string \<Rightarrow> (store_error, u64) result" where
  "get_meta db key = ok_or (Decode (key @ '' is missing'')) (db_meta db key)"

definition put_meta :: "string \<Rightarrow> u64 \<Rightarrow> journal \<Rightarrow> journal" where
  "put_meta key v db = db\<lparr>db_meta := (db_meta db)(key \<mapsto> v)\<rparr>"

type_synonym tx_result = "(store_error, store_reply \<times> journal) result"

text \<open>The end of a transaction: its tables are installed, or the old ones stay.\<close>

definition run_tx :: "journal \<Rightarrow> tx_result \<Rightarrow> journal \<times> (store_error, store_reply) result" where
  "run_tx db r = (case r of Ok (reply, db') \<Rightarrow> (db', Ok reply) | Err e \<Rightarrow> (db, Err e) | Panic \<Rightarrow> (db, Panic))"

section \<open>Opening\<close>

definition init_key :: "faults \<Rightarrow> nat \<Rightarrow> string \<Rightarrow> journal \<Rightarrow> (store_error, journal) result" where
  "init_key be n key db =
     bindR (redb be [n]) (\<lambda>_.
     case db_meta db key of
       Some _ \<Rightarrow> Ok db
     | None \<Rightarrow> bindR (redb be [n + 1]) (\<lambda>_. Ok (put_meta key 1 db)))"

text \<open>\<open>RedbStore::initialize\<close>: the four counters start at 1, the other five tables exist.\<close>

definition initialize :: "faults \<Rightarrow> journal \<Rightarrow> journal \<times> (store_error, unit) result" where
  "initialize be db =
     (case bindR (redb be [0, 1, 2]) (\<lambda>_.
           bindR (init_key be 3 ''next_out'' db) (\<lambda>db1.
           bindR (init_key be 5 ''next_in'' db1) (\<lambda>db2.
           bindR (init_key be 7 ''next_event'' db2) (\<lambda>db3.
           bindR (init_key be 9 ''next_transmission'' db3) (\<lambda>db4.
           bindR (redb be [11, 12, 13, 14, 15, 16]) (\<lambda>_. Ok db4)))))) of
        Ok db' \<Rightarrow> (db', Ok ())
      | Err e \<Rightarrow> (db, Err e)
      | Panic \<Rightarrow> (db, Panic))"

section \<open>Operations\<close>

definition commit_outbound :: "faults \<Rightarrow> journal \<Rightarrow> outbound_commit \<Rightarrow> tx_result" where
  "commit_outbound be db commit =
     bindR (redb be [0, 1, 2, 3]) (\<lambda>_.
     case db_commands db (oc_request_id commit) of
       Some existing \<Rightarrow>
         bindR (serde be [4]) (\<lambda>_.
         if cr_fingerprint existing \<noteq> oc_fingerprint commit
         then Err (IdempotencyConflict (oc_request_id commit))
         else Ok (Command existing, db))
     | None \<Rightarrow>
         bindR (redb be [4, 5]) (\<lambda>_.
         bindR (get_meta db ''next_out'') (\<lambda>next_out.
         if oc_msg_seq_num commit \<noteq> next_out
         then Err (OutboundSequenceMismatch next_out (oc_msg_seq_num commit))
         else
           let command = \<lparr>cr_request_id = oc_request_id commit, cr_fingerprint = oc_fingerprint commit,
                 cr_cl_ord_id = oc_cl_ord_id commit, cr_msg_seq_num = oc_msg_seq_num commit,
                 cr_phase = Journaled\<rparr>;
               outbound = \<lparr>ob_command = command, ob_wire = oc_wire commit\<rparr> in
           bindR (serde be [6, 7]) (\<lambda>_.
           bindR (redb be [8, 9, 10, 11, 12]) (\<lambda>_.
           bindR (add64 next_out 1) (\<lambda>next_out'.
           bindR (redb be [13, 14]) (\<lambda>_.
           Ok (Command command,
               put_meta ''next_out'' next_out'
                 (db\<lparr>db_commands := (db_commands db)(cr_request_id command \<mapsto> command),
                     db_outbound := (db_outbound db)(cr_msg_seq_num command \<mapsto> outbound)\<rparr>)))))))))"

definition mark_outbound_written :: "faults \<Rightarrow> journal \<Rightarrow> mark_outbound \<Rightarrow> tx_result" where
  "mark_outbound_written be db mark =
     bindR (redb be [0, 1, 2, 3]) (\<lambda>_.
     bindR (ok_or (UnknownCommand (mo_request_id mark)) (db_commands db (mo_request_id mark))) (\<lambda>stored.
     bindR (serde be [4]) (\<lambda>_.
     if cr_msg_seq_num stored \<noteq> mo_msg_seq_num mark
     then Err (OutboundSequenceMismatch (cr_msg_seq_num stored) (mo_msg_seq_num mark))
     else
       bindR (redb be [5, 6]) (\<lambda>_.
       bindR (ok_or (UnknownCommand (mo_request_id mark)) (db_outbound db (mo_msg_seq_num mark))) (\<lambda>outbound.
       bindR (serde be [7]) (\<lambda>_.
       let command = stored\<lparr>cr_phase := Written\<rparr>;
           outbound' = outbound\<lparr>ob_command := command\<rparr> in
       bindR (serde be [8, 9]) (\<lambda>_.
       bindR (redb be [10, 11, 12, 13, 14]) (\<lambda>_.
       Ok (Command command,
           db\<lparr>db_commands := (db_commands db)(cr_request_id command \<mapsto> command),
              db_outbound := (db_outbound db)(mo_msg_seq_num mark \<mapsto> outbound')\<rparr>)))))))))"

definition commit_transmission :: "faults \<Rightarrow> journal \<Rightarrow> transmission_commit \<Rightarrow> tx_result" where
  "commit_transmission be db commit =
     bindR (redb be [0, 1, 2, 3]) (\<lambda>_.
     bindR (get_meta db ''next_transmission'') (\<lambda>next_transmission.
     let record = \<lparr>tr_id = next_transmission, tr_msg_seq_num = tc_msg_seq_num commit,
           tr_kind = tc_kind commit, tr_wire = tc_wire commit, tr_phase = TxJournaled\<rparr> in
     bindR (serde be [4]) (\<lambda>_.
     bindR (redb be [5, 6, 7]) (\<lambda>_.
     bindR (add64 next_transmission 1) (\<lambda>next_transmission'.
     bindR (redb be [8, 9]) (\<lambda>_.
     Ok (Transmission record,
         put_meta ''next_transmission'' next_transmission'
           (db\<lparr>db_transmissions := (db_transmissions db)(tr_id record \<mapsto> record)\<rparr>))))))))"

definition mark_transmission_written :: "faults \<Rightarrow> journal \<Rightarrow> u64 \<Rightarrow> tx_result" where
  "mark_transmission_written be db mark_id =
     bindR (redb be [0, 1, 2, 3]) (\<lambda>_.
     bindR (ok_or (UnknownTransmission mark_id) (db_transmissions db mark_id)) (\<lambda>stored.
     bindR (serde be [4]) (\<lambda>_.
     let record = stored\<lparr>tr_phase := TxWritten\<rparr> in
     bindR (serde be [5]) (\<lambda>_.
     bindR (redb be [6, 7, 8]) (\<lambda>_.
     Ok (Transmission record,
         db\<lparr>db_transmissions := (db_transmissions db)(tr_id record \<mapsto> record)\<rparr>))))))"

definition commit_inbound :: "faults \<Rightarrow> journal \<Rightarrow> inbound_commit \<Rightarrow> tx_result" where
  "commit_inbound be db commit =
     bindR (redb be [0, 1, 2, 3]) (\<lambda>_.
     bindR (get_meta db ''next_in'') (\<lambda>next_in.
     bindR (redb be [4]) (\<lambda>_.
     bindR (get_meta db ''next_event'') (\<lambda>next_event.
     if ic_msg_seq_num commit \<noteq> next_in
     then Err (InboundSequenceMismatch next_in (ic_msg_seq_num commit))
     else if ev_id (ic_event commit) \<noteq> next_event
     then Err (EventSequenceMismatch next_event (ev_id (ic_event commit)))
     else if ic_next_in_after commit \<le> next_in
     then Err (InvalidNextInbound next_in (ic_next_in_after commit))
     else
       let record = \<lparr>ib_msg_seq_num = ic_msg_seq_num commit, ib_msg_type = ic_msg_type commit,
             ib_wire = ic_wire commit, ib_event_id = ev_id (ic_event commit)\<rparr> in
       bindR (serde be [5, 6]) (\<lambda>_.
       bindR (redb be [7, 8, 9, 10, 11, 12]) (\<lambda>_.
       bindR (add64 next_event 1) (\<lambda>next_event'.
       bindR (redb be [13, 14]) (\<lambda>_.
       Ok (Inbound record,
           put_meta ''next_event'' next_event'
            (put_meta ''next_in'' (ic_next_in_after commit)
              (db\<lparr>db_inbound := (db_inbound db)(ib_msg_seq_num record \<mapsto> record),
                  db_events := (db_events db)(ev_id (ic_event commit) \<mapsto> ic_event commit)\<rparr>)))))))))))"

definition resync_inbound :: "faults \<Rightarrow> journal \<Rightarrow> resync_inbound_commit \<Rightarrow> tx_result" where
  "resync_inbound be db commit =
     bindR (redb be [0, 1, 2, 3]) (\<lambda>_.
     bindR (get_meta db ''next_event'') (\<lambda>next_event.
     if ri_next_in_after commit = 0 then Err (InvalidNextInbound 0 0)
     else if ev_id (ri_event commit) \<noteq> next_event
     then Err (EventSequenceMismatch next_event (ev_id (ri_event commit)))
     else
       bindR (serde be [4]) (\<lambda>_.
       bindR (redb be [5, 6, 7, 8]) (\<lambda>_.
       bindR (add64 next_event 1) (\<lambda>next_event'.
       bindR (redb be [9, 10]) (\<lambda>_.
       Ok (ResyncedInbound (ri_next_in_after commit),
           put_meta ''next_event'' next_event'
            (put_meta ''next_in'' (ri_next_in_after commit)
              (db\<lparr>db_events := (db_events db)(ev_id (ri_event commit) \<mapsto> ri_event commit)\<rparr>)))))))))"

text \<open>
  \<open>reset_sequences\<close>: for each of the three tables one call opens it, one reads its keys and one
  removes them (the removals of a table share a number). Commands and events are kept.
\<close>

definition reset_sequences :: "faults \<Rightarrow> journal \<Rightarrow> tx_result" where
  "reset_sequences be db =
     bindR (redb be [0, 1, 2, 3, 4, 5, 6, 7, 8, 9, 10, 11, 12]) (\<lambda>_.
     let cleared = db\<lparr>db_outbound := Map.empty, db_transmissions := Map.empty, db_inbound := Map.empty\<rparr> in
     bindR (get_meta db ''next_event'') (\<lambda>next_event.
     bindR (redb be [13, 14, 15]) (\<lambda>_.
     bindR (add64 next_event 1) (\<lambda>next_event'.
     bindR (redb be [16, 17]) (\<lambda>_.
     Ok (SequencesReset next_event',
         put_meta ''next_event'' next_event'
          (put_meta ''next_transmission'' 1 (put_meta ''next_in'' 1 (put_meta ''next_out'' 1 cleared)))))))))"

text \<open>The sequence numbers of \<open>begin..=end\<close>, and the reading loop over them.\<close>

definition seq_range :: "u64 \<Rightarrow> u64 \<Rightarrow> u64 list" where
  "seq_range b e = map of_nat [unat b..<Suc (unat e)]"

fun load_range :: "faults \<Rightarrow> nat \<Rightarrow> (u64 \<rightharpoonup> outbound_record) \<Rightarrow> u64 list \<Rightarrow> (store_error, outbound_record list) result" where
  "load_range be n table [] = Ok []"
| "load_range be n table (s # ss) =
     bindR (redb be [n]) (\<lambda>_.
     case table s of
       None \<Rightarrow> load_range be (n + 2) table ss
     | Some record \<Rightarrow>
         bindR (serde be [n + 1]) (\<lambda>_.
         bindR (load_range be (n + 2) table ss) (\<lambda>records. Ok (record # records))))"

definition load_outbound_range :: "faults \<Rightarrow> journal \<Rightarrow> u64 \<Rightarrow> u64 \<Rightarrow> (store_error, store_reply) result" where
  "load_outbound_range be db b e =
     bindR (redb be [0, 1]) (\<lambda>_.
     bindR (load_range be 2 (db_outbound db) (seq_range b e)) (\<lambda>records. Ok (Outbound records)))"

definition load_one :: "faults \<Rightarrow> 'a option \<Rightarrow> (store_error, 'a option) result" where
  "load_one be found =
     bindR (redb be [0, 1, 2]) (\<lambda>_.
     case found of None \<Rightarrow> Ok None | Some record \<Rightarrow> bindR (serde be [3]) (\<lambda>_. Ok (Some record)))"

definition load_inbound :: "faults \<Rightarrow> journal \<Rightarrow> u64 \<Rightarrow> (store_error, store_reply) result" where
  "load_inbound be db sequence = bindR (load_one be (db_inbound db sequence)) (\<lambda>r. Ok (StoredInbound r))"

definition load_command :: "faults \<Rightarrow> journal \<Rightarrow> string \<Rightarrow> (store_error, store_reply) result" where
  "load_command be db request_id = bindR (load_one be (db_commands db request_id)) (\<lambda>r. Ok (StoredCommand r))"

definition load_transmission :: "faults \<Rightarrow> journal \<Rightarrow> u64 \<Rightarrow> (store_error, store_reply) result" where
  "load_transmission be db i = bindR (load_one be (db_transmissions db i)) (\<lambda>r. Ok (StoredTransmission r))"

section \<open>The port\<close>

definition recover :: "faults \<Rightarrow> journal \<Rightarrow> (store_error, recovery_state) result" where
  "recover be db =
     bindR (redb be [0, 1, 2]) (\<lambda>_.
     bindR (get_meta db ''next_out'') (\<lambda>next_out.
     bindR (redb be [3]) (\<lambda>_.
     bindR (get_meta db ''next_in'') (\<lambda>next_in.
     bindR (redb be [4]) (\<lambda>_.
     bindR (get_meta db ''next_event'') (\<lambda>next_event.
     Ok \<lparr>rs_next_out = next_out, rs_next_in = next_in, rs_next_event = next_event\<rparr>))))))"

fun apply_op :: "faults \<Rightarrow> journal \<Rightarrow> store_op \<Rightarrow> journal \<times> (store_error, store_reply) result" where
  "apply_op be db (CommitOutbound commit) = run_tx db (commit_outbound be db commit)"
| "apply_op be db (MarkOutboundWritten mark) = run_tx db (mark_outbound_written be db mark)"
| "apply_op be db (CommitTransmission commit) = run_tx db (commit_transmission be db commit)"
| "apply_op be db (MarkTransmissionWritten i) = run_tx db (mark_transmission_written be db i)"
| "apply_op be db (CommitInbound commit) = run_tx db (commit_inbound be db commit)"
| "apply_op be db (ResyncInbound commit) = run_tx db (resync_inbound be db commit)"
| "apply_op be db ResetSequences = run_tx db (reset_sequences be db)"
| "apply_op be db (LoadCommand r) = (db, load_command be db r)"
| "apply_op be db (LoadOutboundRange b e) = (db, load_outbound_range be db b e)"
| "apply_op be db (LoadInbound s) = (db, load_inbound be db s)"
| "apply_op be db (LoadTransmission i) = (db, load_transmission be db i)"

section \<open>The worker thread and its handle\<close>

text \<open>
  \<open>StoreWorker::spawn\<close> owns a store on a thread and serves one request at a time; the handle
  sends a request and waits for the reply. A panic of the store ends the thread, and from then on
  every request fails. The store is any \<open>StorePort\<close>: \<open>port\<close> is its \<open>apply\<close>, \<open>rec\<close> its \<open>recover\<close>.
\<close>

record 'st worker =
  w_alive :: bool
  w_store :: 'st

definition spawn_worker :: "'st \<Rightarrow> 'st worker" where
  "spawn_worker st = \<lparr>w_alive = True, w_store = st\<rparr>"

definition handle_apply ::
    "('st \<Rightarrow> store_op \<Rightarrow> 'st \<times> (store_error, store_reply) result) \<Rightarrow> 'st worker \<Rightarrow> store_op
      \<Rightarrow> 'st worker \<times> (store_error, store_reply) result" where
  "handle_apply port w operation =
     (if \<not> w_alive w then (w, Err WorkerStopped)
      else case port (w_store w) operation of
        (st, Panic) \<Rightarrow> (\<lparr>w_alive = False, w_store = st\<rparr>, Err WorkerStopped)
      | (st, r) \<Rightarrow> (w\<lparr>w_store := st\<rparr>, r))"

definition handle_recover ::
    "('st \<Rightarrow> (store_error, recovery_state) result) \<Rightarrow> 'st worker \<Rightarrow> (store_error, recovery_state) result" where
  "handle_recover rec w = (if \<not> w_alive w then Err WorkerStopped else rec (w_store w))"

section \<open>Evaluation and rewriting\<close>

lemmas [fix_eval] = recovery_default_def empty_database_def no_faults_def get_meta_def put_meta_def
  run_tx_def init_key_def initialize_def commit_outbound_def mark_outbound_written_def
  commit_transmission_def mark_transmission_written_def commit_inbound_def resync_inbound_def
  reset_sequences_def seq_range_def load_outbound_range_def load_one_def load_inbound_def
  load_command_def load_transmission_def recover_def spawn_worker_def handle_apply_def
  handle_recover_def redb.simps serde.simps

lemma put_meta_simps [simp]:
  "db_meta (put_meta k v db) = (db_meta db)(k \<mapsto> v)"
  "db_commands (put_meta k v db) = db_commands db"
  "db_outbound (put_meta k v db) = db_outbound db"
  "db_transmissions (put_meta k v db) = db_transmissions db"
  "db_inbound (put_meta k v db) = db_inbound db"
  "db_events (put_meta k v db) = db_events db"
  by (simp_all add: put_meta_def)

lemma redb_Ok: "redb be ns = Ok u \<longleftrightarrow> (\<forall>n \<in> set ns. be n = None)"
  by (induction ns) (auto split: option.splits)

lemma redb_no_panic [simp]: "redb be ns \<noteq> Panic"
  by (induction ns) (auto split: option.splits)

lemma serde_Ok: "serde be ns = Ok u \<longleftrightarrow> (\<forall>n \<in> set ns. be n = None)"
  by (induction ns) (auto split: option.splits)

lemma serde_no_panic [simp]: "serde be ns \<noteq> Panic"
  by (induction ns) (auto split: option.splits)

declare redb.simps [simp del] serde.simps [simp del]

lemma redb_no_faults [simp]: "redb no_faults ns = Ok ()"
  by (simp add: redb_Ok no_faults_def)

lemma serde_no_faults [simp]: "serde no_faults ns = Ok ()"
  by (simp add: serde_Ok no_faults_def)

lemma get_meta_Ok [simp]: "get_meta db k = Ok v \<longleftrightarrow> db_meta db k = Some v"
  by (simp add: get_meta_def)

lemma run_tx_Ok: "run_tx db r = (db', Ok reply) \<longleftrightarrow> r = Ok (reply, db')"
  by (auto simp: run_tx_def split: result.splits)

lemma run_tx_not_Ok: "run_tx db r = (db', x) \<Longrightarrow> \<not> is_Ok x \<Longrightarrow> db' = db"
  by (auto simp: run_tx_def split: result.splits)

text \<open>What a committed transaction did, one lemma per operation.\<close>

lemma commit_outbound_Ok:
  "commit_outbound be db c = Ok (reply, db') \<Longrightarrow>
     (\<exists>existing. db_commands db (oc_request_id c) = Some existing
        \<and> cr_fingerprint existing = oc_fingerprint c \<and> reply = Command existing \<and> db' = db) \<or>
     (\<exists>next. db_commands db (oc_request_id c) = None \<and> db_meta db ''next_out'' = Some (oc_msg_seq_num c)
        \<and> add64 (oc_msg_seq_num c) 1 = (Ok next :: (store_error, u64) result)
        \<and> (let command = \<lparr>cr_request_id = oc_request_id c, cr_fingerprint = oc_fingerprint c,
              cr_cl_ord_id = oc_cl_ord_id c, cr_msg_seq_num = oc_msg_seq_num c, cr_phase = Journaled\<rparr>
           in reply = Command command \<and> db' = put_meta ''next_out'' next
              (db\<lparr>db_commands := (db_commands db)(oc_request_id c \<mapsto> command),
                  db_outbound := (db_outbound db)(oc_msg_seq_num c \<mapsto> \<lparr>ob_command = command, ob_wire = oc_wire c\<rparr>)\<rparr>)))"
  by (auto simp: commit_outbound_def bindR_eqs Let_def split: option.splits if_splits)

end
