(* ===== verification/Fix_Journal.thy ===== *)
theory Fix_Journal
  imports Fix_Store
begin

text \<open>
  What the journal promises. The abstract journal \<open>journal_log\<close> is a pair of logs (the outbound
  records of the current epoch and the replay transmissions) with the inbound table, the command
  table and two counters; \<open>log_apply\<close> is the fault-free specification of \<open>StorePort::apply\<close> on it:
  a commit appends to a log. \<open>db_wf\<close> is the invariant of the redb tables, \<open>log_of\<close> the
  abstraction, and the section on refinement shows that every operation keeps the invariant,
  follows the specification when it succeeds and changes nothing when it fails.
\<close>

section \<open>The abstract journal\<close>

record journal_log =
  lg_out :: "outbound_record list"
  lg_tx :: "transmission_record list"
  lg_in :: "u64 \<rightharpoonup> inbound_record"
  lg_cmds :: "string \<rightharpoonup> command_record"
  lg_events :: "u64 \<rightharpoonup> event_record"
  lg_next_in :: u64
  lg_next_event :: u64

definition lg_next_out :: "journal_log \<Rightarrow> u64" where
  "lg_next_out l = of_nat (Suc (length (lg_out l)))"

definition new_command :: "outbound_commit \<Rightarrow> command_record" where
  "new_command c = \<lparr>cr_request_id = oc_request_id c, cr_fingerprint = oc_fingerprint c,
     cr_cl_ord_id = oc_cl_ord_id c, cr_msg_seq_num = oc_msg_seq_num c, cr_phase = Journaled\<rparr>"

definition log_event :: "event_record \<Rightarrow> u64 \<Rightarrow> journal_log \<Rightarrow> journal_log" where
  "log_event e next_event l = l\<lparr>lg_events := (lg_events l)(ev_id e \<mapsto> e), lg_next_event := next_event\<rparr>"

fun log_apply :: "journal_log \<Rightarrow> store_op \<Rightarrow> (store_error, journal_log \<times> store_reply) result" where
  "log_apply l (CommitOutbound c) =
     (case lg_cmds l (oc_request_id c) of
        Some existing \<Rightarrow>
          if cr_fingerprint existing \<noteq> oc_fingerprint c then Err (IdempotencyConflict (oc_request_id c))
          else Ok (l, Command existing)
      | None \<Rightarrow>
          if oc_msg_seq_num c \<noteq> lg_next_out l
          then Err (OutboundSequenceMismatch (lg_next_out l) (oc_msg_seq_num c))
          else Ok (l\<lparr>lg_out := lg_out l @ [\<lparr>ob_command = new_command c, ob_wire = oc_wire c\<rparr>],
                     lg_cmds := (lg_cmds l)(oc_request_id c \<mapsto> new_command c)\<rparr>, Command (new_command c)))"
| "log_apply l (MarkOutboundWritten m) =
     (case lg_cmds l (mo_request_id m) of
        None \<Rightarrow> Err (UnknownCommand (mo_request_id m))
      | Some stored \<Rightarrow>
          if cr_msg_seq_num stored \<noteq> mo_msg_seq_num m
          then Err (OutboundSequenceMismatch (cr_msg_seq_num stored) (mo_msg_seq_num m))
          else if mo_msg_seq_num m = 0 \<or> length (lg_out l) < unat (mo_msg_seq_num m)
          then Err (UnknownCommand (mo_request_id m))
          else
            let i = unat (mo_msg_seq_num m) - 1; command = stored\<lparr>cr_phase := Written\<rparr>
            in Ok (l\<lparr>lg_out := (lg_out l)[i := (lg_out l ! i)\<lparr>ob_command := command\<rparr>],
                     lg_cmds := (lg_cmds l)(mo_request_id m \<mapsto> command)\<rparr>, Command command))"
| "log_apply l (CommitTransmission c) =
     (let record = \<lparr>tr_id = of_nat (Suc (length (lg_tx l))), tr_msg_seq_num = tc_msg_seq_num c,
            tr_kind = tc_kind c, tr_wire = tc_wire c, tr_phase = TxJournaled\<rparr>
      in Ok (l\<lparr>lg_tx := lg_tx l @ [record]\<rparr>, Transmission record))"
| "log_apply l (MarkTransmissionWritten k) =
     (if k = 0 \<or> length (lg_tx l) < unat k then Err (UnknownTransmission k)
      else let i = unat k - 1; record = (lg_tx l ! i)\<lparr>tr_phase := TxWritten\<rparr>
           in Ok (l\<lparr>lg_tx := (lg_tx l)[i := record]\<rparr>, Transmission record))"
| "log_apply l (CommitInbound c) =
     (if ic_msg_seq_num c \<noteq> lg_next_in l then Err (InboundSequenceMismatch (lg_next_in l) (ic_msg_seq_num c))
      else if ev_id (ic_event c) \<noteq> lg_next_event l
      then Err (EventSequenceMismatch (lg_next_event l) (ev_id (ic_event c)))
      else if ic_next_in_after c \<le> lg_next_in l
      then Err (InvalidNextInbound (lg_next_in l) (ic_next_in_after c))
      else
        let record = \<lparr>ib_msg_seq_num = ic_msg_seq_num c, ib_msg_type = ic_msg_type c,
              ib_wire = ic_wire c, ib_event_id = ev_id (ic_event c)\<rparr>
        in bindR (add64 (lg_next_event l) 1) (\<lambda>next_event.
           Ok (log_event (ic_event c) next_event
                 (l\<lparr>lg_in := (lg_in l)(ic_msg_seq_num c \<mapsto> record), lg_next_in := ic_next_in_after c\<rparr>),
               Inbound record)))"
| "log_apply l (ResyncInbound c) =
     (if ri_next_in_after c = 0 then Err (InvalidNextInbound 0 0)
      else if ev_id (ri_event c) \<noteq> lg_next_event l
      then Err (EventSequenceMismatch (lg_next_event l) (ev_id (ri_event c)))
      else bindR (add64 (lg_next_event l) 1) (\<lambda>next_event.
           Ok (log_event (ri_event c) next_event (l\<lparr>lg_next_in := ri_next_in_after c\<rparr>),
               ResyncedInbound (ri_next_in_after c))))"
| "log_apply l ResetSequences =
     bindR (add64 (lg_next_event l) 1) (\<lambda>next_event.
     Ok (l\<lparr>lg_out := [], lg_tx := [], lg_in := Map.empty, lg_next_in := 1, lg_next_event := next_event\<rparr>,
         SequencesReset next_event))"
| "log_apply l (LoadCommand r) = Ok (l, StoredCommand (lg_cmds l r))"
| "log_apply l (LoadOutboundRange b e) = Ok (l, Outbound (drop (unat b - 1) (take (unat e) (lg_out l))))"
| "log_apply l (LoadInbound s) = Ok (l, StoredInbound (lg_in l s))"
| "log_apply l (LoadTransmission k) =
     Ok (l, StoredTransmission (if k = 0 \<or> length (lg_tx l) < unat k then None else Some (lg_tx l ! (unat k - 1))))"

section \<open>The invariant of the tables\<close>

text \<open>
  A table numbered from 1 without gaps up to (and without) \<open>n\<close>, each record carrying its key.
\<close>

definition numbered :: "(u64 \<rightharpoonup> 'a) \<Rightarrow> ('a \<Rightarrow> u64) \<Rightarrow> u64 \<Rightarrow> bool" where
  "numbered t key n \<longleftrightarrow> 1 \<le> n \<and> (\<forall>k. t k \<noteq> None \<longleftrightarrow> 1 \<le> k \<and> k < n) \<and> (\<forall>k r. t k = Some r \<longrightarrow> key r = k)"

definition ob_seq :: "outbound_record \<Rightarrow> u64" where
  "ob_seq r = cr_msg_seq_num (ob_command r)"

definition commands_wf :: "(string \<rightharpoonup> command_record) \<Rightarrow> (u64 \<rightharpoonup> outbound_record) \<Rightarrow> bool" where
  "commands_wf commands outbound \<longleftrightarrow>
     (\<forall>k c. commands k = Some c \<longrightarrow> cr_request_id c = k) \<and>
     (\<forall>n r. outbound n = Some r \<longrightarrow> commands (cr_request_id (ob_command r)) = Some (ob_command r))"

definition inbound_wf :: "(u64 \<rightharpoonup> inbound_record) \<Rightarrow> (u64 \<rightharpoonup> event_record) \<Rightarrow> u64 \<Rightarrow> bool" where
  "inbound_wf inbound events next_event \<longleftrightarrow>
     (\<forall>n r. inbound n = Some r \<longrightarrow> ib_msg_seq_num r = n) \<and>
     (\<forall>n e. events n = Some e \<longrightarrow> ev_id e = n \<and> n < next_event)"

definition db_wf :: "journal \<Rightarrow> bool" where
  "db_wf db \<longleftrightarrow> (\<exists>no ni ne nt.
     db_meta db ''next_out'' = Some no \<and> db_meta db ''next_in'' = Some ni
     \<and> db_meta db ''next_event'' = Some ne \<and> db_meta db ''next_transmission'' = Some nt
     \<and> 1 \<le> ni \<and> 1 \<le> ne
     \<and> commands_wf (db_commands db) (db_outbound db) \<and> inbound_wf (db_inbound db) (db_events db) ne
     \<and> numbered (db_outbound db) ob_seq no \<and> numbered (db_transmissions db) tr_id nt)"

lemma numbered_insert:
  "numbered t key n \<Longrightarrow> key r = n \<Longrightarrow> add64 n 1 = (Ok n' :: (store_error, u64) result) \<Longrightarrow>
   numbered (t(n \<mapsto> r)) key n'"
proof -
  assume t: "numbered t key n" "key r = n" and n': "add64 n 1 = (Ok n' :: (store_error, u64) result)"
  have "1 \<le> n" using t(1) by (simp add: numbered_def)
  moreover have "n < n'" using add64_one_less [OF n'] .
  ultimately have "1 \<le> n'" by simp
  then show ?thesis
    using t \<open>1 \<le> n\<close> unfolding numbered_def add64_one_eq [OF n'] by auto
qed

lemma numbered_update:
  "numbered t key n \<Longrightarrow> t k = Some r \<Longrightarrow> key r' = k \<Longrightarrow> numbered (t(k \<mapsto> r')) key n"
  unfolding numbered_def by (auto split: if_splits)

lemma numbered_empty: "numbered Map.empty key 1"
  unfolding numbered_def by auto

lemma word_one_le_iff: "1 \<le> (w :: u64) \<longleftrightarrow> w \<noteq> 0"
  by (simp add: word_le_nat_alt word_unat_eq_iff Suc_le_eq)

lemma add64_one_le: "1 \<le> n \<Longrightarrow> add64 n 1 = (Ok n' :: (store_error, u64) result) \<Longrightarrow> 1 \<le> n'"
  by (metis add64_one_less less_imp_le order.trans)

lemma commands_wf_insert:
  "commands_wf cs os \<Longrightarrow> cs (cr_request_id c) = None \<Longrightarrow>
   ob_command r = c \<Longrightarrow> commands_wf (cs(cr_request_id c \<mapsto> c)) (os(n \<mapsto> r))"
  unfolding commands_wf_def by (simp split: if_splits) (metis option.distinct(1))

lemma commands_wf_update:
  assumes "commands_wf cs os" "numbered os ob_seq no" "cs (cr_request_id c) = Some old"
    and "cr_msg_seq_num c = n" "cr_msg_seq_num old = n" "ob_command r = c"
  shows "commands_wf (cs(cr_request_id c \<mapsto> c)) (os(n \<mapsto> r))"
proof -
  have "k = n" if "os k = Some r" "cr_request_id (ob_command r) = cr_request_id c" for k r
    using assms that unfolding commands_wf_def numbered_def ob_seq_def by (metis option.inject)
  then show ?thesis using assms(1,6) unfolding commands_wf_def by (simp split: if_splits) metis
qed

lemma inbound_wf_event:
  "inbound_wf inb evs ne \<Longrightarrow> ev_id e = ne \<Longrightarrow> add64 ne 1 = (Ok ne' :: (store_error, u64) result) \<Longrightarrow>
   inbound_wf inb (evs(ne \<mapsto> e)) ne'"
  unfolding inbound_wf_def by (auto simp: add64_one_eq dest: add64_one_less split: if_splits)

lemma inbound_wf_record: "inbound_wf inb evs ne \<Longrightarrow> inbound_wf (inb(ib_msg_seq_num r \<mapsto> r)) evs ne"
  unfolding inbound_wf_def by auto

section \<open>Every operation keeps the invariant\<close>

lemma init_key_Ok:
  "init_key be n k db = Ok db' \<Longrightarrow> db' = (if db_meta db k = None then put_meta k 1 db else db)"
  by (auto simp: init_key_def bindR_eqs split: option.splits)

lemma initialize_wf:
  assumes "initialize be db = (db', Ok ())" "db = empty_database \<or> db_wf db"
  shows "db_wf db'"
proof -
  from assms(1) obtain db1 db2 db3 where
      "init_key be 3 ''next_out'' db = Ok db1" "init_key be 5 ''next_in'' db1 = Ok db2"
      "init_key be 7 ''next_event'' db2 = Ok db3" "init_key be 9 ''next_transmission'' db3 = Ok db'"
    by (auto simp: initialize_def bindR_eqs split: result.splits)
  note steps = this [THEN init_key_Ok]
  show ?thesis
  proof (cases "db_wf db")
    case True
    then have "db_meta db ''next_out'' \<noteq> None" "db_meta db ''next_in'' \<noteq> None"
      "db_meta db ''next_event'' \<noteq> None" "db_meta db ''next_transmission'' \<noteq> None"
      unfolding db_wf_def by auto
    with steps True show ?thesis by simp
  next
    case False
    with assms(2) have db: "db = empty_database" by blast
    have "inbound_wf Map.empty Map.empty 1" "commands_wf Map.empty Map.empty"
      by (simp_all add: inbound_wf_def commands_wf_def)
    with steps show ?thesis
      unfolding db by (simp add: empty_database_def db_wf_def numbered_empty)
  qed
qed

lemma commit_outbound_wf:
  assumes "commit_outbound be db c = Ok (reply, db')" "db_wf db"
  shows "db_wf db'"
  using commit_outbound_Ok [OF assms(1)]
proof
  assume "\<exists>existing. db_commands db (oc_request_id c) = Some existing
        \<and> cr_fingerprint existing = oc_fingerprint c \<and> reply = Command existing \<and> db' = db"
  then show ?thesis using assms(2) by auto
next
  assume "\<exists>next. db_commands db (oc_request_id c) = None \<and> db_meta db ''next_out'' = Some (oc_msg_seq_num c)
        \<and> add64 (oc_msg_seq_num c) 1 = (Ok next :: (store_error, u64) result)
        \<and> (let command = \<lparr>cr_request_id = oc_request_id c, cr_fingerprint = oc_fingerprint c,
              cr_cl_ord_id = oc_cl_ord_id c, cr_msg_seq_num = oc_msg_seq_num c, cr_phase = Journaled\<rparr>
           in reply = Command command \<and> db' = put_meta ''next_out'' next
              (db\<lparr>db_commands := (db_commands db)(oc_request_id c \<mapsto> command),
                  db_outbound := (db_outbound db)(oc_msg_seq_num c \<mapsto> \<lparr>ob_command = command, ob_wire = oc_wire c\<rparr>)\<rparr>))"
  then obtain n where n: "db_commands db (oc_request_id c) = None"
      "db_meta db ''next_out'' = Some (oc_msg_seq_num c)"
      "add64 (oc_msg_seq_num c) 1 = (Ok n :: (store_error, u64) result)"
    and db': "db' = put_meta ''next_out'' n (db\<lparr>db_commands := (db_commands db)(oc_request_id c \<mapsto> new_command c),
        db_outbound := (db_outbound db)(oc_msg_seq_num c \<mapsto> \<lparr>ob_command = new_command c, ob_wire = oc_wire c\<rparr>)\<rparr>)"
    by (auto simp: Let_def new_command_def)
  have "commands_wf (db_commands db') (db_outbound db')"
    using commands_wf_insert [of "db_commands db" "db_outbound db" "new_command c"
        "\<lparr>ob_command = new_command c, ob_wire = oc_wire c\<rparr>" "oc_msg_seq_num c"] assms(2) n
    by (auto simp: db' db_wf_def new_command_def)
  moreover have "numbered (db_outbound db') ob_seq n"
    using assms(2) n by (auto simp: db' db_wf_def ob_seq_def new_command_def intro!: numbered_insert)
  ultimately show ?thesis using assms(2) by (auto simp: db' db_wf_def)
qed

lemma mark_outbound_written_Ok:
  "mark_outbound_written be db m = Ok (reply, db') \<Longrightarrow>
     \<exists>stored outbound. db_commands db (mo_request_id m) = Some stored \<and> cr_msg_seq_num stored = mo_msg_seq_num m
        \<and> db_outbound db (mo_msg_seq_num m) = Some outbound \<and> reply = Command (stored\<lparr>cr_phase := Written\<rparr>)
        \<and> db' = db\<lparr>db_commands := (db_commands db)(cr_request_id stored \<mapsto> stored\<lparr>cr_phase := Written\<rparr>),
              db_outbound := (db_outbound db)(mo_msg_seq_num m \<mapsto> outbound\<lparr>ob_command := stored\<lparr>cr_phase := Written\<rparr>\<rparr>)\<rparr>"
  by (auto simp: mark_outbound_written_def bindR_eqs Let_def split: if_splits)

lemma mark_outbound_written_wf:
  assumes "mark_outbound_written be db m = Ok (reply, db')" "db_wf db"
  shows "db_wf db'"
proof -
  from mark_outbound_written_Ok [OF assms(1)] obtain stored outbound where
      c: "db_commands db (mo_request_id m) = Some stored" "cr_msg_seq_num stored = mo_msg_seq_num m"
      "db_outbound db (mo_msg_seq_num m) = Some outbound"
    and db': "db' = db\<lparr>db_commands := (db_commands db)(cr_request_id stored \<mapsto> stored\<lparr>cr_phase := Written\<rparr>),
              db_outbound := (db_outbound db)(mo_msg_seq_num m \<mapsto> outbound\<lparr>ob_command := stored\<lparr>cr_phase := Written\<rparr>\<rparr>)\<rparr>"
    by blast
  have rid: "cr_request_id stored = mo_request_id m"
    using assms(2) c unfolding db_wf_def commands_wf_def by blast
  from assms(2) obtain no where "commands_wf (db_commands db) (db_outbound db)"
    and num: "numbered (db_outbound db) ob_seq no" "db_meta db ''next_out'' = Some no"
    unfolding db_wf_def by blast
  then have "commands_wf (db_commands db') (db_outbound db')"
    using commands_wf_update [of "db_commands db" "db_outbound db" no "stored\<lparr>cr_phase := Written\<rparr>" stored
        "mo_msg_seq_num m" "outbound\<lparr>ob_command := stored\<lparr>cr_phase := Written\<rparr>\<rparr>"] c rid
    by (simp add: db')
  moreover have "numbered (db_outbound db') ob_seq no"
    using num c by (auto simp: db' ob_seq_def intro!: numbered_update)
  ultimately show ?thesis using assms(2) num by (auto simp: db' db_wf_def)
qed

lemma commit_transmission_wf:
  "commit_transmission be db c = Ok (reply, db') \<Longrightarrow> db_wf db \<Longrightarrow> db_wf db'"
  by (auto simp: commit_transmission_def bindR_eqs Let_def db_wf_def intro!: numbered_insert)

lemma mark_transmission_written_wf:
  assumes "mark_transmission_written be db k = Ok (reply, db')" "db_wf db"
  shows "db_wf db'"
proof -
  from assms(1) obtain stored where s: "db_transmissions db k = Some stored"
    and db': "db' = db\<lparr>db_transmissions := (db_transmissions db)(tr_id stored \<mapsto> stored\<lparr>tr_phase := TxWritten\<rparr>)\<rparr>"
    by (auto simp: mark_transmission_written_def bindR_eqs Let_def)
  have "tr_id stored = k" using assms(2) s unfolding db_wf_def numbered_def by blast
  then show ?thesis using assms(2) s by (auto simp: db' db_wf_def intro!: numbered_update)
qed

lemma commit_inbound_Ok:
  "commit_inbound be db c = Ok (reply, db') \<Longrightarrow>
     db_meta db ''next_in'' = Some (ic_msg_seq_num c) \<and> db_meta db ''next_event'' = Some (ev_id (ic_event c))
     \<and> ic_msg_seq_num c < ic_next_in_after c
     \<and> (\<exists>next record. add64 (ev_id (ic_event c)) 1 = (Ok next :: (store_error, u64) result)
         \<and> record = \<lparr>ib_msg_seq_num = ic_msg_seq_num c, ib_msg_type = ic_msg_type c,
             ib_wire = ic_wire c, ib_event_id = ev_id (ic_event c)\<rparr>
         \<and> reply = Inbound record
         \<and> db' = put_meta ''next_event'' next (put_meta ''next_in'' (ic_next_in_after c)
              (db\<lparr>db_inbound := (db_inbound db)(ib_msg_seq_num record \<mapsto> record),
                  db_events := (db_events db)(ev_id (ic_event c) \<mapsto> ic_event c)\<rparr>)))"
  by (auto simp: commit_inbound_def bindR_eqs Let_def not_le split: if_splits)

lemma commit_inbound_wf:
  assumes "commit_inbound be db c = Ok (reply, db')" "db_wf db"
  shows "db_wf db'"
proof -
  from commit_inbound_Ok [OF assms(1)] obtain n rc where
    ok: "db_meta db ''next_in'' = Some (ic_msg_seq_num c)" "db_meta db ''next_event'' = Some (ev_id (ic_event c))"
      "ic_msg_seq_num c < ic_next_in_after c" "add64 (ev_id (ic_event c)) 1 = (Ok n :: (store_error, u64) result)"
    and db': "db' = put_meta ''next_event'' n (put_meta ''next_in'' (ic_next_in_after c)
              (db\<lparr>db_inbound := (db_inbound db)(ib_msg_seq_num rc \<mapsto> rc),
                  db_events := (db_events db)(ev_id (ic_event c) \<mapsto> ic_event c)\<rparr>))"
    by blast
  have "inbound_wf (db_inbound db') (db_events db') n" "1 \<le> n" "1 \<le> ic_next_in_after c"
    using assms(2) ok
    by (auto simp: db' db_wf_def intro: inbound_wf_event inbound_wf_record add64_one_le)
  then show ?thesis using assms(2) ok by (auto simp: db' db_wf_def)
qed

lemma resync_inbound_Ok:
  "resync_inbound be db c = Ok (reply, db') \<Longrightarrow>
     ri_next_in_after c \<noteq> 0 \<and> db_meta db ''next_event'' = Some (ev_id (ri_event c))
     \<and> (\<exists>next. add64 (ev_id (ri_event c)) 1 = (Ok next :: (store_error, u64) result)
         \<and> reply = ResyncedInbound (ri_next_in_after c)
         \<and> db' = put_meta ''next_event'' next (put_meta ''next_in'' (ri_next_in_after c)
              (db\<lparr>db_events := (db_events db)(ev_id (ri_event c) \<mapsto> ri_event c)\<rparr>)))"
  by (auto simp: resync_inbound_def bindR_eqs Let_def split: if_splits)

lemma resync_inbound_wf:
  assumes "resync_inbound be db c = Ok (reply, db')" "db_wf db"
  shows "db_wf db'"
proof -
  from resync_inbound_Ok [OF assms(1)] obtain n where
    ok: "ri_next_in_after c \<noteq> 0" "db_meta db ''next_event'' = Some (ev_id (ri_event c))"
      "add64 (ev_id (ri_event c)) 1 = (Ok n :: (store_error, u64) result)"
    and db': "db' = put_meta ''next_event'' n (put_meta ''next_in'' (ri_next_in_after c)
              (db\<lparr>db_events := (db_events db)(ev_id (ri_event c) \<mapsto> ri_event c)\<rparr>))"
    by blast
  have "inbound_wf (db_inbound db') (db_events db') n" "1 \<le> n" "1 \<le> ri_next_in_after c"
    using assms(2) ok
    by (auto simp: db' db_wf_def word_one_le_iff [of "ri_next_in_after c"] intro: inbound_wf_event add64_one_le)
  then show ?thesis using assms(2) ok by (auto simp: db' db_wf_def)
qed

lemma reset_sequences_Ok:
  "reset_sequences be db = Ok (reply, db') \<Longrightarrow>
     \<exists>e n. db_meta db ''next_event'' = Some e \<and> add64 e 1 = (Ok n :: (store_error, u64) result)
       \<and> reply = SequencesReset n
       \<and> db' = put_meta ''next_event'' n (put_meta ''next_transmission'' 1
           (put_meta ''next_in'' 1 (put_meta ''next_out'' 1
             (db\<lparr>db_outbound := Map.empty, db_transmissions := Map.empty, db_inbound := Map.empty\<rparr>))))"
  by (auto simp: reset_sequences_def bindR_eqs Let_def)

lemma reset_sequences_wf:
  assumes "reset_sequences be db = Ok (reply, db')" "db_wf db"
  shows "db_wf db'"
proof -
  from reset_sequences_Ok [OF assms(1)] obtain e n where
    ok: "db_meta db ''next_event'' = Some e" "add64 e 1 = (Ok n :: (store_error, u64) result)"
    and db': "db' = put_meta ''next_event'' n (put_meta ''next_transmission'' 1
           (put_meta ''next_in'' 1 (put_meta ''next_out'' 1
             (db\<lparr>db_outbound := Map.empty, db_transmissions := Map.empty, db_inbound := Map.empty\<rparr>))))"
    by blast
  have "x < n" if "x < e" for x
    using that add64_one_less [OF ok(2)] by (rule order.strict_trans)
  then have "inbound_wf Map.empty (db_events db) n" "1 \<le> n" "commands_wf (db_commands db) Map.empty"
    using assms(2) ok add64_one_le by (auto simp: db_wf_def inbound_wf_def commands_wf_def)
  then show ?thesis using assms(2) ok by (auto simp: db' db_wf_def numbered_empty)
qed

lemma run_tx_wf:
  "db_wf db \<Longrightarrow> (\<And>reply db'. r = Ok (reply, db') \<Longrightarrow> db_wf db') \<Longrightarrow> db_wf (fst (run_tx db r))"
  by (cases r) (auto simp: run_tx_def)

lemma apply_op_wf: "db_wf db \<Longrightarrow> db_wf (fst (apply_op be db operation))"
  by (cases operation)
    (auto intro: run_tx_wf commit_outbound_wf mark_outbound_written_wf commit_transmission_wf
      mark_transmission_written_wf commit_inbound_wf resync_inbound_wf reset_sequences_wf)

lemma apply_op_atomic: "apply_op be db operation = (db', r) \<Longrightarrow> \<not> is_Ok r \<Longrightarrow> db' = db"
  by (cases operation) (auto dest: run_tx_not_Ok)

section \<open>The abstraction\<close>

definition entries :: "(u64 \<rightharpoonup> 'a) \<Rightarrow> u64 \<Rightarrow> 'a list" where
  "entries t n = map (\<lambda>i. the (t (of_nat i))) [1..<unat n]"

definition log_of :: "journal \<Rightarrow> journal_log" where
  "log_of db = \<lparr>lg_out = entries (db_outbound db) (the (db_meta db ''next_out'')),
     lg_tx = entries (db_transmissions db) (the (db_meta db ''next_transmission'')),
     lg_in = db_inbound db, lg_cmds = db_commands db, lg_events = db_events db,
     lg_next_in = the (db_meta db ''next_in''), lg_next_event = the (db_meta db ''next_event'')\<rparr>"

lemma length_entries [simp]: "length (entries t n) = unat n - 1"
  by (simp add: entries_def)

lemma entries_one [simp]: "entries t 1 = []"
  by (simp add: entries_def)

lemma nth_entries: "1 \<le> k \<Longrightarrow> k < n \<Longrightarrow> entries t n ! (unat k - 1) = the (t k)"
proof -
  assume k: "1 \<le> k" "k < n"
  then have "[1..<unat n] ! (unat k - 1) = unat k" "unat k - 1 < length [1..<unat n]"
    by (auto simp: word_le_nat_alt word_less_nat_alt intro!: nth_upt [THEN trans])
  then show ?thesis by (simp add: entries_def)
qed

lemma entries_cong:
  assumes "\<And>k. k < n \<Longrightarrow> t k = t' k"
  shows "entries t n = entries t' n"
  unfolding entries_def
proof (rule map_cong [OF refl])
  fix i assume "i \<in> set [1..<unat n]"
  then have i: "i < unat n" by simp
  then have "of_nat i < n"
    using unat_u64_less [of n] by (simp add: word_less_nat_alt unat_of_nat_u64)
  then show "the (t (of_nat i)) = the (t' (of_nat i))" using assms by simp
qed

lemma entries_append:
  assumes "1 \<le> n" and n': "add64 n 1 = (Ok n' :: (store_error, u64) result)"
  shows "entries (t(n \<mapsto> r)) n' = entries t n @ [r]"
proof -
  have "unat n' = Suc (unat n)" using add64_Ok [OF n'] by simp
  moreover have "1 \<le> unat n" using assms(1) by (simp add: word_le_nat_alt)
  ultimately have "entries (t(n \<mapsto> r)) n' = entries (t(n \<mapsto> r)) n @ [r]"
    by (simp add: entries_def)
  also have "entries (t(n \<mapsto> r)) n = entries t n" by (rule entries_cong) auto
  finally show ?thesis .
qed

lemma entries_update:
  assumes "1 \<le> k" "k < n"
  shows "entries (t(k \<mapsto> r)) n = (entries t n)[unat k - 1 := r]"
proof (rule nth_equalityI)
  fix i assume "i < length (entries (t(k \<mapsto> r)) n)"
  then have i: "Suc i < unat n" by simp
  then have nat: "Suc i < 2 ^ 64" using unat_u64_less [of n] by simp
  have "of_nat (Suc i) = k \<longleftrightarrow> i = unat k - 1"
    using assms unat_of_nat_u64 [OF nat] by (auto simp: word_le_nat_alt word_unat_eq_iff simp del: of_nat_Suc)
  with i show "entries (t(k \<mapsto> r)) n ! i = (entries t n)[unat k - 1 := r] ! i"
    by (cases "i = unat k - 1") (auto simp: entries_def nth_append simp del: of_nat_Suc)
qed simp

lemma numbered_None:
  "numbered t key n \<Longrightarrow> t k = None \<longleftrightarrow> k = 0 \<or> length (entries t n) < unat k"
proof -
  assume t: "numbered t key n"
  then have "1 \<le> unat n" by (simp add: numbered_def word_le_nat_alt)
  from t have "t k \<noteq> None \<longleftrightarrow> 1 \<le> k \<and> k < n" unfolding numbered_def by blast
  then have "t k = None \<longleftrightarrow> \<not> (1 \<le> unat k \<and> unat k < unat n)"
    by (auto simp: word_le_nat_alt word_less_nat_alt)
  also have "\<dots> \<longleftrightarrow> unat k = 0 \<or> unat n - 1 < unat k"
    using \<open>1 \<le> unat n\<close> by linarith
  finally show ?thesis by (simp add: word_unat_eq_iff)
qed

lemma lg_next_out_eq: "1 \<le> no \<Longrightarrow> db_meta db ''next_out'' = Some no \<Longrightarrow> lg_next_out (log_of db) = no"
  by (simp add: lg_next_out_def log_of_def word_le_nat_alt flip: of_nat_Suc)

section \<open>Refinement\<close>

text \<open>One lemma per transaction: what it commits is what the abstract journal does.\<close>

lemma refine_commit_outbound:
  assumes "commit_outbound be db c = Ok (reply, db')" "db_wf db"
  shows "log_apply (log_of db) (CommitOutbound c) = Ok (log_of db', reply)"
  using commit_outbound_Ok [OF assms(1)]
proof
  assume "\<exists>existing. db_commands db (oc_request_id c) = Some existing
        \<and> cr_fingerprint existing = oc_fingerprint c \<and> reply = Command existing \<and> db' = db"
  then show ?thesis by (auto simp: log_of_def)
next
  assume "\<exists>next. db_commands db (oc_request_id c) = None \<and> db_meta db ''next_out'' = Some (oc_msg_seq_num c)
        \<and> add64 (oc_msg_seq_num c) 1 = (Ok next :: (store_error, u64) result)
        \<and> (let command = \<lparr>cr_request_id = oc_request_id c, cr_fingerprint = oc_fingerprint c,
              cr_cl_ord_id = oc_cl_ord_id c, cr_msg_seq_num = oc_msg_seq_num c, cr_phase = Journaled\<rparr>
           in reply = Command command \<and> db' = put_meta ''next_out'' next
              (db\<lparr>db_commands := (db_commands db)(oc_request_id c \<mapsto> command),
                  db_outbound := (db_outbound db)(oc_msg_seq_num c \<mapsto> \<lparr>ob_command = command, ob_wire = oc_wire c\<rparr>)\<rparr>))"
  then obtain n where n: "db_commands db (oc_request_id c) = None"
      "db_meta db ''next_out'' = Some (oc_msg_seq_num c)"
      "add64 (oc_msg_seq_num c) 1 = (Ok n :: (store_error, u64) result)"
    and db': "reply = Command (new_command c)"
      "db' = put_meta ''next_out'' n (db\<lparr>db_commands := (db_commands db)(oc_request_id c \<mapsto> new_command c),
        db_outbound := (db_outbound db)(oc_msg_seq_num c \<mapsto> \<lparr>ob_command = new_command c, ob_wire = oc_wire c\<rparr>)\<rparr>)"
    by (auto simp: Let_def new_command_def)
  have "1 \<le> oc_msg_seq_num c" using assms(2) n by (auto simp: db_wf_def numbered_def)
  then have "lg_next_out (log_of db) = oc_msg_seq_num c" using n by (simp add: lg_next_out_eq)
  then show ?thesis
    using n by (simp add: log_of_def db' entries_append [OF \<open>1 \<le> oc_msg_seq_num c\<close> n(3)])
qed

lemma refine_mark_outbound_written:
  assumes "mark_outbound_written be db m = Ok (reply, db')" "db_wf db"
  shows "log_apply (log_of db) (MarkOutboundWritten m) = Ok (log_of db', reply)"
proof -
  from mark_outbound_written_Ok [OF assms(1)] obtain stored outbound where
      c: "db_commands db (mo_request_id m) = Some stored" "cr_msg_seq_num stored = mo_msg_seq_num m"
      "db_outbound db (mo_msg_seq_num m) = Some outbound"
    and db': "reply = Command (stored\<lparr>cr_phase := Written\<rparr>)"
      "db' = db\<lparr>db_commands := (db_commands db)(cr_request_id stored \<mapsto> stored\<lparr>cr_phase := Written\<rparr>),
              db_outbound := (db_outbound db)(mo_msg_seq_num m \<mapsto> outbound\<lparr>ob_command := stored\<lparr>cr_phase := Written\<rparr>\<rparr>)\<rparr>"
    by blast
  have rid: "cr_request_id stored = mo_request_id m"
    using assms(2) c unfolding db_wf_def commands_wf_def by blast
  from assms(2) obtain no where num: "numbered (db_outbound db) ob_seq no" "db_meta db ''next_out'' = Some no"
    unfolding db_wf_def by blast
  then have k: "1 \<le> mo_msg_seq_num m" "mo_msg_seq_num m < no"
    using c(3) unfolding numbered_def by blast+
  have bounds: "\<not> (mo_msg_seq_num m = 0 \<or> length (lg_out (log_of db)) < unat (mo_msg_seq_num m))"
    using numbered_None [OF num(1), of "mo_msg_seq_num m"] c(3) num(2) by (simp add: log_of_def)
  have "lg_out (log_of db) ! (unat (mo_msg_seq_num m) - 1) = outbound"
    using nth_entries [OF k, of "db_outbound db"] num(2) c(3) by (simp add: log_of_def)
  moreover have "lg_cmds (log_of db) = db_commands db" by (simp add: log_of_def)
  ultimately show ?thesis
    using c rid bounds num(2) by (simp add: Let_def) (simp add: log_of_def db' entries_update [OF k])
qed

lemma refine_commit_transmission:
  assumes "commit_transmission be db c = Ok (reply, db')" "db_wf db"
  shows "log_apply (log_of db) (CommitTransmission c) = Ok (log_of db', reply)"
proof -
  from assms(1) obtain k k' where k: "db_meta db ''next_transmission'' = Some k"
      "add64 k 1 = (Ok k' :: (store_error, u64) result)"
    and db': "reply = Transmission \<lparr>tr_id = k, tr_msg_seq_num = tc_msg_seq_num c,
            tr_kind = tc_kind c, tr_wire = tc_wire c, tr_phase = TxJournaled\<rparr>"
      "db' = put_meta ''next_transmission'' k' (db\<lparr>db_transmissions := (db_transmissions db)(k \<mapsto>
          \<lparr>tr_id = k, tr_msg_seq_num = tc_msg_seq_num c,
            tr_kind = tc_kind c, tr_wire = tc_wire c, tr_phase = TxJournaled\<rparr>)\<rparr>)"
    by (auto simp: commit_transmission_def bindR_eqs Let_def)
  have "1 \<le> k" using assms(2) k by (auto simp: db_wf_def numbered_def)
  moreover from this have "of_nat (Suc (length (lg_tx (log_of db)))) = k"
    using k by (simp add: log_of_def word_le_nat_alt flip: of_nat_Suc)
  ultimately show ?thesis
    using k by (simp add: Let_def) (simp add: log_of_def db' entries_append)
qed

lemma refine_mark_transmission_written:
  assumes "mark_transmission_written be db k = Ok (reply, db')" "db_wf db"
  shows "log_apply (log_of db) (MarkTransmissionWritten k) = Ok (log_of db', reply)"
proof -
  from assms(1) obtain stored where s: "db_transmissions db k = Some stored"
    and db': "reply = Transmission (stored\<lparr>tr_phase := TxWritten\<rparr>)"
      "db' = db\<lparr>db_transmissions := (db_transmissions db)(tr_id stored \<mapsto> stored\<lparr>tr_phase := TxWritten\<rparr>)\<rparr>"
    by (auto simp: mark_transmission_written_def bindR_eqs Let_def)
  from assms(2) obtain nt where num: "numbered (db_transmissions db) tr_id nt" "db_meta db ''next_transmission'' = Some nt"
    unfolding db_wf_def by blast
  have k: "1 \<le> k" "k < nt" "tr_id stored = k" using s num(1) unfolding numbered_def by blast+
  have "\<not> (k = 0 \<or> length (lg_tx (log_of db)) < unat k)"
    using numbered_None [OF num(1), of k] s num(2) by (simp add: log_of_def)
  moreover have "lg_tx (log_of db) ! (unat k - 1) = stored"
    using nth_entries [OF k(1,2), of "db_transmissions db"] num(2) s by (simp add: log_of_def)
  ultimately show ?thesis
    using num(2) k(3) by (simp add: Let_def) (simp add: log_of_def db' entries_update [OF k(1,2)])
qed

lemma refine_commit_inbound:
  assumes "commit_inbound be db c = Ok (reply, db')" "db_wf db"
  shows "log_apply (log_of db) (CommitInbound c) = Ok (log_of db', reply)"
  using commit_inbound_Ok [OF assms(1)]
  by (auto simp: log_of_def log_event_def Let_def not_le)

lemma refine_resync_inbound:
  assumes "resync_inbound be db c = Ok (reply, db')" "db_wf db"
  shows "log_apply (log_of db) (ResyncInbound c) = Ok (log_of db', reply)"
  using resync_inbound_Ok [OF assms(1)]
  by (auto simp: log_of_def log_event_def)

lemma refine_reset_sequences:
  assumes "reset_sequences be db = Ok (reply, db')" "db_wf db"
  shows "log_apply (log_of db) ResetSequences = Ok (log_of db', reply)"
  using reset_sequences_Ok [OF assms(1)] by (auto simp: log_of_def)

text \<open>The loads. A range that passes the last record ends there.\<close>

lemma load_range_Ok:
  "load_range be n t ss = Ok rs \<Longrightarrow> rs = List.map_filter t ss"
  by (induction ss arbitrary: n rs) (auto simp: bindR_eqs List.map_filter_def split: option.splits)

lemma map_filter_all: "\<forall>x \<in> set xs. t x \<noteq> None \<Longrightarrow> List.map_filter t xs = map (\<lambda>x. the (t x)) xs"
  by (induction xs) (auto simp: List.map_filter_def)

lemma map_filter_none: "\<forall>x \<in> set xs. t x = None \<Longrightarrow> List.map_filter t xs = []"
  by (induction xs) (auto simp: List.map_filter_def)

lemma map_filter_append: "List.map_filter t (xs @ ys) = List.map_filter t xs @ List.map_filter t ys"
  by (simp add: List.map_filter_def)

lemma upt_split: "a \<le> b \<Longrightarrow> b \<le> c \<Longrightarrow> [a..<c] = [a..<b] @ [b..<c]"
  by (metis le_add_diff_inverse upt_add_eq_append)

lemma seq_range_entries:
  assumes "numbered t key n"
  shows "List.map_filter t (seq_range b e) = drop (unat b - 1) (take (unat e) (entries t n))"
proof -
  define lo where "lo = max 1 (unat b)"
  define hi where "hi = min (Suc (unat e)) (unat n)"
  have n: "1 \<le> unat n" using assms by (simp add: numbered_def word_le_nat_alt)
  have some: "t (of_nat i) \<noteq> None \<longleftrightarrow> 1 \<le> i \<and> i < unat n" if "i \<le> unat e" for i
  proof -
    have "unat (of_nat i :: u64) = i"
      using that unat_u64_less [of e] by (intro unat_of_nat_u64) linarith
    moreover have "t (of_nat i) \<noteq> None \<longleftrightarrow> 1 \<le> (of_nat i :: u64) \<and> of_nat i < n"
      using assms unfolding numbered_def by blast
    ultimately show ?thesis by (simp add: word_le_nat_alt word_less_nat_alt)
  qed
  have split: "[unat b..<Suc (unat e)] = [unat b..<min lo (Suc (unat e))] @ [lo..<hi] @ [max lo hi..<Suc (unat e)]"
  proof (cases "lo < Suc (unat e)")
    case True
    have "lo \<le> max lo hi" "max lo hi \<le> Suc (unat e)" "unat b \<le> lo" using True by (auto simp: hi_def lo_def)
    then have "[unat b..<Suc (unat e)] = [unat b..<lo] @ [lo..<max lo hi] @ [max lo hi..<Suc (unat e)]"
      by (metis upt_split le_trans)
    moreover have "[lo..<max lo hi] = [lo..<hi]" by (auto simp: max_def)
    ultimately show ?thesis using True by (simp add: min_def)
  qed (auto simp: hi_def)
  have "List.map_filter t (map of_nat [unat b..<min lo (Suc (unat e))]) = []"
  proof (rule map_filter_none, clarsimp)
    fix i assume "unat b \<le> i" "i < lo" "i < Suc (unat e)"
    then show "t (of_nat i) = None" using some [of i] by (auto simp: lo_def)
  qed
  moreover have "List.map_filter t (map of_nat [max lo hi..<Suc (unat e)]) = []"
  proof (rule map_filter_none, clarsimp simp del: upt_Suc)
    fix i assume "lo \<le> i" "hi \<le> i" "i < Suc (unat e)"
    then show "t (of_nat i) = None" using some [of i] by (auto simp: lo_def hi_def)
  qed
  moreover have "List.map_filter t (map of_nat [lo..<hi]) = map (\<lambda>i. the (t (of_nat i))) [lo..<hi]"
  proof -
    have "\<forall>x \<in> set (map of_nat [lo..<hi]). t x \<noteq> None"
    proof (rule ballI)
      fix x :: u64 assume "x \<in> set (map of_nat [lo..<hi])"
      then obtain i where "x = of_nat i" "lo \<le> i" "i < hi" by auto
      then show "t x \<noteq> None" using some [of i] by (simp add: lo_def hi_def)
    qed
    then show ?thesis by (simp add: map_filter_all)
  qed
  moreover have "map (\<lambda>i. the (t (of_nat i))) [lo..<hi] = drop (unat b - 1) (take (unat e) (entries t n))"
    using n by (simp add: entries_def lo_def hi_def drop_map take_map min_def max_def) linarith
  ultimately show ?thesis
    unfolding seq_range_def split map_append map_filter_append by simp
qed

lemma load_one_Ok: "load_one be found = Ok r \<Longrightarrow> r = found"
  by (auto simp: load_one_def bindR_eqs split: option.splits)

lemma entry_at:
  assumes "numbered t key n"
  shows "(if k = 0 \<or> length (entries t n) < unat k then None else Some (entries t n ! (unat k - 1))) = t k"
proof (cases "t k")
  case None
  then show ?thesis using numbered_None [OF assms, of k] by simp
next
  case (Some r)
  then have "\<not> (k = 0 \<or> length (entries t n) < unat k)" using numbered_None [OF assms, of k] by simp
  moreover have "1 \<le> k" "k < n" using assms Some unfolding numbered_def by blast+
  ultimately show ?thesis using nth_entries [of k n t] Some by simp
qed

lemma refine_loads:
  assumes "db_wf db"
  shows "load_command be db r = Ok reply \<Longrightarrow> log_apply (log_of db) (LoadCommand r) = Ok (log_of db, reply)"
    and "load_inbound be db k = Ok reply \<Longrightarrow> log_apply (log_of db) (LoadInbound k) = Ok (log_of db, reply)"
    and "load_outbound_range be db b e = Ok reply \<Longrightarrow>
      log_apply (log_of db) (LoadOutboundRange b e) = Ok (log_of db, reply)"
    and "load_transmission be db k = Ok reply \<Longrightarrow>
      log_apply (log_of db) (LoadTransmission k) = Ok (log_of db, reply)"
proof -
  from assms obtain no nt where no: "db_meta db ''next_out'' = Some no" "numbered (db_outbound db) ob_seq no"
    and nt: "db_meta db ''next_transmission'' = Some nt" "numbered (db_transmissions db) tr_id nt"
    unfolding db_wf_def by blast
  show "load_command be db r = Ok reply \<Longrightarrow> log_apply (log_of db) (LoadCommand r) = Ok (log_of db, reply)"
    by (auto simp: load_command_def log_of_def bindR_eqs dest!: load_one_Ok)
  show "load_inbound be db k = Ok reply \<Longrightarrow> log_apply (log_of db) (LoadInbound k) = Ok (log_of db, reply)"
    by (auto simp: load_inbound_def log_of_def bindR_eqs dest!: load_one_Ok)
  show "load_outbound_range be db b e = Ok reply \<Longrightarrow>
      log_apply (log_of db) (LoadOutboundRange b e) = Ok (log_of db, reply)"
    using no by (auto simp: load_outbound_range_def log_of_def bindR_eqs seq_range_entries dest!: load_range_Ok)
  show "load_transmission be db k = Ok reply \<Longrightarrow>
      log_apply (log_of db) (LoadTransmission k) = Ok (log_of db, reply)"
    using nt(1) entry_at [OF nt(2), of k]
    by (auto simp: load_transmission_def log_of_def bindR_eqs dest!: load_one_Ok)
qed

lemma apply_op_refines:
  assumes "apply_op be db operation = (db', Ok reply)" "db_wf db"
  shows "log_apply (log_of db) operation = Ok (log_of db', reply)"
  using assms
  by (cases operation)
    (auto simp only: apply_op.simps run_tx_Ok prod.inject refine_loads
      intro: refine_commit_outbound refine_mark_outbound_written refine_commit_transmission
        refine_mark_transmission_written refine_commit_inbound refine_resync_inbound refine_reset_sequences)

section \<open>Failures\<close>

text \<open>An error the backend did not cause is the error of the specification.\<close>

definition backend_error :: "store_error \<Rightarrow> bool" where
  "backend_error e \<longleftrightarrow> (\<exists>m. e = Backend m \<or> e = Decode m)"

lemma redb_Err: "redb be ns = Err e \<Longrightarrow> backend_error e"
  by (induction ns) (auto simp: redb.simps backend_error_def split: option.splits)

lemma serde_Err: "serde be ns = Err e \<Longrightarrow> backend_error e"
  by (induction ns) (auto simp: serde.simps backend_error_def split: option.splits)

lemma get_meta_Err: "get_meta db k = Err e \<Longrightarrow> backend_error e"
  by (auto simp: get_meta_def backend_error_def)

lemma load_range_Err: "load_range be n t ss = Err e \<Longrightarrow> backend_error e"
  by (induction ss arbitrary: n) (auto simp: bindR_eqs split: option.splits dest: redb_Err serde_Err)

lemmas backend_errors = redb_Err serde_Err get_meta_Err load_range_Err

lemma apply_op_error:
  assumes "apply_op be db operation = (db', Err e)" "db_wf db" "\<not> backend_error e"
  shows "log_apply (log_of db) operation = Err e"
proof -
  from assms(2) obtain no nt where no: "db_meta db ''next_out'' = Some no" "numbered (db_outbound db) ob_seq no"
    and nt: "db_meta db ''next_transmission'' = Some nt" "numbered (db_transmissions db) tr_id nt"
    unfolding db_wf_def by blast
  have out: "lg_next_out (log_of db) = no"
    using no by (auto simp: numbered_def intro: lg_next_out_eq)
  have bounds: "db_outbound db k = None \<longleftrightarrow> k = 0 \<or> length (lg_out (log_of db)) < unat k"
      "db_transmissions db k = None \<longleftrightarrow> k = 0 \<or> length (lg_tx (log_of db)) < unat k" for k
    using numbered_None [OF no(2)] numbered_None [OF nt(2)] no(1) nt(1) by (simp_all add: log_of_def)
  have maps: "lg_cmds (log_of db) = db_commands db" "lg_next_in (log_of db) = the (db_meta db ''next_in'')"
      "lg_next_event (log_of db) = the (db_meta db ''next_event'')"
    by (simp_all add: log_of_def)
  have ops: "run_tx db r = (db', Err e) \<Longrightarrow> r = Err e" for r
    by (auto simp: run_tx_def split: result.splits)
  show ?thesis
  proof (cases operation)
    case (CommitOutbound c)
    with assms(1) have "commit_outbound be db c = Err e" by (auto dest: ops)
    with assms(3) show ?thesis
      using no(1) out maps unfolding CommitOutbound
      by (auto simp: commit_outbound_def bindR_eqs Let_def dest: backend_errors split: option.splits if_splits)
  next
    case (MarkOutboundWritten m)
    with assms(1) have "mark_outbound_written be db m = Err e" by (auto dest: ops)
    with assms(3) show ?thesis
      using bounds maps unfolding MarkOutboundWritten
      by (auto simp: mark_outbound_written_def bindR_eqs Let_def dest: backend_errors split: option.splits if_splits)
  next
    case (CommitTransmission c)
    with assms(1) have "commit_transmission be db c = Err e" by (auto dest: ops)
    with assms(3) show ?thesis
      by (auto simp: commit_transmission_def bindR_eqs Let_def dest: backend_errors)
  next
    case (MarkTransmissionWritten k)
    with assms(1) have "mark_transmission_written be db k = Err e" by (auto dest: ops)
    with assms(3) show ?thesis
      using bounds unfolding MarkTransmissionWritten
      by (auto simp: mark_transmission_written_def bindR_eqs Let_def dest: backend_errors)
  next
    case (CommitInbound c)
    with assms(1) have "commit_inbound be db c = Err e" by (auto dest: ops)
    with assms(3) show ?thesis
      using maps unfolding CommitInbound
      by (auto simp: commit_inbound_def bindR_eqs Let_def dest: backend_errors split: if_splits)
  next
    case (ResyncInbound c)
    with assms(1) have "resync_inbound be db c = Err e" by (auto dest: ops)
    with assms(3) show ?thesis
      using maps unfolding ResyncInbound
      by (auto simp: resync_inbound_def bindR_eqs Let_def dest: backend_errors split: if_splits)
  next
    case ResetSequences
    with assms(1) have "reset_sequences be db = Err e" by (auto dest: ops)
    with assms(3) show ?thesis
      by (auto simp: reset_sequences_def bindR_eqs Let_def dest: backend_errors)
  qed (use assms in \<open>auto simp: load_command_def load_inbound_def load_transmission_def load_outbound_range_def
      load_one_def bindR_eqs dest: backend_errors split: option.splits\<close>)
qed

end
