(* ===== verification/Fix_Port.thy ===== *)
theory Fix_Port
  imports Fix_Journal
begin

text \<open>
  The interface between the session and its store. \<open>store_port\<close> is the contract of the trait
  \<open>StorePort\<close> and of a \<open>StoreHandle\<close>: an invariant every operation keeps, and a view of the state as a
  \<open>journal_log\<close> that a successful operation changes as the specification says and a failed one
  leaves alone. The session is verified against the contract; the redb store and the handle of
  a worker that owns it are its two instances. The number of a call selects its faults.
\<close>

section \<open>The contract\<close>

locale store_port =
  fixes port :: "nat \<Rightarrow> 'st \<Rightarrow> store_op \<Rightarrow> 'st \<times> (store_error, store_reply) result"
    and inv :: "'st \<Rightarrow> bool"
    and view :: "'st \<Rightarrow> journal_log"
  assumes keeps_inv: "inv st \<Longrightarrow> port n st operation = (st', r) \<Longrightarrow> inv st'"
    and refines: "inv st \<Longrightarrow> port n st operation = (st', Ok reply) \<Longrightarrow>
      log_apply (view st) operation = Ok (view st', reply)"
    and room: "inv st \<Longrightarrow> Suc (length (lg_out (view st))) < 2 ^ 64"
    and failed: "inv st \<Longrightarrow> port n st operation = (st', r) \<Longrightarrow> \<not> is_Ok r \<Longrightarrow> view st' = view st"
begin

lemma commit_outbound:
  assumes "inv st" "port n st (CommitOutbound c) = (st', Ok reply)"
  shows "(\<exists>old. lg_cmds (view st) (oc_request_id c) = Some old \<and> cr_fingerprint old = oc_fingerprint c
            \<and> reply = Command old \<and> view st' = view st) \<or>
         (lg_cmds (view st) (oc_request_id c) = None \<and> oc_msg_seq_num c = lg_next_out (view st)
            \<and> reply = Command (new_command c)
            \<and> view st' = (view st)\<lparr>lg_out := lg_out (view st) @ [\<lparr>ob_command = new_command c, ob_wire = oc_wire c\<rparr>],
                     lg_cmds := (lg_cmds (view st))(oc_request_id c \<mapsto> new_command c)\<rparr>)"
  using refines [OF assms] by (auto split: option.splits if_splits)

lemma commit_transmission:
  assumes "inv st" "port n st (CommitTransmission c) = (st', Ok reply)"
  shows "\<exists>t. reply = Transmission t \<and> tr_wire t = tc_wire c \<and> tr_id t = of_nat (Suc (length (lg_tx (view st))))
    \<and> tr_msg_seq_num t = tc_msg_seq_num c \<and> view st' = (view st)\<lparr>lg_tx := lg_tx (view st) @ [t]\<rparr>"
  using refines [OF assms] by (auto simp: Let_def)

lemma commit_inbound:
  assumes "inv st" "port n st (CommitInbound c) = (st', Ok reply)"
  shows "ic_msg_seq_num c = lg_next_in (view st)" "ev_id (ic_event c) = lg_next_event (view st)"
    "lg_next_in (view st') = ic_next_in_after c" "add64 (lg_next_event (view st)) 1 = (Ok (lg_next_event (view st')) :: (store_error, u64) result)"
    "lg_out (view st') = lg_out (view st)" "lg_tx (view st') = lg_tx (view st)"
    "lg_cmds (view st') = lg_cmds (view st)" "lg_next_in (view st) < ic_next_in_after c"
    "lg_in (view st') = (lg_in (view st))(ic_msg_seq_num c \<mapsto> \<lparr>ib_msg_seq_num = ic_msg_seq_num c,
        ib_msg_type = ic_msg_type c, ib_wire = ic_wire c, ib_event_id = ev_id (ic_event c)\<rparr>)"
  using refines [OF assms]
  by (auto simp: Let_def log_event_def not_le bindR_eqs dest!: sym [of _ "view st'"] split: if_splits)

lemma load:
  assumes "inv st" "port n st operation = (st', Ok reply)"
    and "\<exists>r b e s k. operation \<in> {LoadCommand r, LoadOutboundRange b e, LoadInbound s, LoadTransmission k}"
  shows "view st' = view st"
  using assms(3) refines [OF assms(1,2)] by auto

end

section \<open>The two instances\<close>

interpretation redb: store_port "\<lambda>n. apply_op (be n)" db_wf log_of for be
proof
  fix st n operation st' and r :: "(store_error, store_reply) result"
  show "db_wf st \<Longrightarrow> apply_op (be n) st operation = (st', r) \<Longrightarrow> db_wf st'"
    by (metis apply_op_wf fst_conv)
  show "db_wf st \<Longrightarrow> apply_op (be n) st operation = (st', r) \<Longrightarrow> \<not> is_Ok r \<Longrightarrow> log_of st' = log_of st"
    by (drule (1) apply_op_atomic) simp
  show "Suc (length (lg_out (log_of st))) < 2 ^ 64" if "db_wf st" for st
  proof -
    from that obtain no where "db_meta st ''next_out'' = Some no" "1 \<le> no"
      unfolding db_wf_def numbered_def by blast
    then show ?thesis using unat_u64_less [of no] by (simp add: log_of_def word_le_nat_alt)
  qed
qed (rule apply_op_refines)

definition redb_handle ::
    "(nat \<Rightarrow> faults) \<Rightarrow> nat \<Rightarrow> journal worker \<Rightarrow> store_op \<Rightarrow> journal worker \<times> (store_error, store_reply) result" where
  "redb_handle be n = handle_apply (apply_op (be n))"

definition worker_wf :: "journal worker \<Rightarrow> bool" where
  "worker_wf w \<longleftrightarrow> db_wf (w_store w)"

definition worker_log :: "journal worker \<Rightarrow> journal_log" where
  "worker_log w = log_of (w_store w)"

lemma redb_handle_cases:
  assumes "redb_handle be n w operation = (w', r)"
  obtains (stopped) "w' = w" "r = Err WorkerStopped"
  | (crashed) st where "apply_op (be n) (w_store w) operation = (st, Panic)" "w_store w' = st" "r = Err WorkerStopped"
  | (answered) st where "apply_op (be n) (w_store w) operation = (st, r)" "w_store w' = st"
  using assms
  by (cases "apply_op (be n) (w_store w) operation" "snd (apply_op (be n) (w_store w) operation)" rule: prod.exhaust [case_product result.exhaust])
    (auto simp: redb_handle_def handle_apply_def split: if_splits)

interpretation handle: store_port "redb_handle be" worker_wf worker_log for be
proof
  fix w n operation w' reply and r :: "(store_error, store_reply) result"
  assume w: "worker_wf w"
  show "worker_wf w'" if "redb_handle be n w operation = (w', r)"
    using that w by (cases rule: redb_handle_cases) (auto simp: worker_wf_def dest: redb.keeps_inv)
  show "log_apply (worker_log w) operation = Ok (worker_log w', reply)" if "redb_handle be n w operation = (w', Ok reply)"
    using that w by (cases rule: redb_handle_cases) (auto simp: worker_wf_def worker_log_def dest: redb.refines)
  show "Suc (length (lg_out (worker_log w))) < 2 ^ 64"
    using w redb.room by (simp add: worker_wf_def worker_log_def)
  show "worker_log w' = worker_log w" if "redb_handle be n w operation = (w', r)" "\<not> is_Ok r"
    using that w by (cases rule: redb_handle_cases) (auto simp: worker_wf_def worker_log_def dest: redb.failed)
qed

lemma redb_handle_no_panic [simp]: "redb_handle be n w operation \<noteq> (w', Panic)"
proof
  assume "redb_handle be n w operation = (w', Panic)"
  then show False
    by (simp add: redb_handle_def handle_apply_def split: if_splits prod.splits result.splits)
qed

section \<open>Properties of the journal\<close>

definition fresh_journal :: journal where
  "fresh_journal = fst (initialize no_faults empty_database)"

lemma initialize_empty: "initialize no_faults empty_database = (fresh_journal, Ok ())"
  by (simp add: fresh_journal_def initialize_def init_key_def empty_database_def)

lemma fresh_journal_wf: "db_wf fresh_journal"
  using initialize_wf [OF initialize_empty] by simp

definition order_commit :: outbound_commit where
  "order_commit = \<lparr>oc_request_id = ''order-1'', oc_fingerprint = ''abc'', oc_cl_ord_id = ''C1'',
     oc_msg_seq_num = 1, oc_wire = as_bytes ''wire''\<rparr>"

definition order_journal :: journal where
  "order_journal = fst (apply_op no_faults fresh_journal (CommitOutbound order_commit))"

lemma order_committed:
  "apply_op no_faults fresh_journal (CommitOutbound order_commit) = (order_journal, Ok (Command (new_command order_commit)))"
  by (simp add: order_journal_def order_commit_def new_command_def fresh_journal_def fix_eval cong: fix_cong)

lemma order_journal_wf: "db_wf order_journal"
  using apply_op_wf [OF fresh_journal_wf, of no_faults "CommitOutbound order_commit"] by (simp add: order_journal_def)

text \<open>C15: every operation keeps the journal well formed, whatever the backend does, and an
  operation that does not succeed leaves it exactly as it was.\<close>

theorem journal_atomic:
  assumes "db_wf db" "apply_op be db operation = (db', r)"
  shows "db_wf db' \<and> (is_Ok r \<or> db' = db)"
  using apply_op_wf [OF assms(1), of be operation] apply_op_atomic [OF assms(2)] assms(2) by auto

theorem journal_atomic_witness:
  "db_wf order_journal \<and> (is_Ok (Ok (Command (new_command order_commit)) :: (store_error, store_reply) result)
     \<or> order_journal = fresh_journal)"
  by (rule journal_atomic [OF fresh_journal_wf order_committed])

text \<open>C16: the redb store implements the abstract journal: what an operation returns and does to
  the tables when it succeeds is what the specification says of the two logs.\<close>

theorem journal_refines_log:
  assumes "db_wf db" "apply_op be db operation = (db', Ok reply)"
  shows "log_apply (log_of db) operation = Ok (log_of db', reply)"
  using assms(2,1) by (rule apply_op_refines)

theorem journal_refines_log_witness:
  "log_apply (log_of fresh_journal) (CommitOutbound order_commit)
     = Ok (log_of order_journal, Command (new_command order_commit))"
  by (rule journal_refines_log [OF fresh_journal_wf order_committed])

text \<open>C17: an error that does not come from redb or serde is the error the specification gives:
  the sequence, event and idempotency checks of the store are exactly those of the abstract journal.\<close>

theorem journal_errors:
  assumes "db_wf db" "apply_op be db operation = (db', Err e)" "\<not> backend_error e"
  shows "log_apply (log_of db) operation = Err e \<and> db' = db"
  using apply_op_error [OF assms(2,1,3)] apply_op_atomic [OF assms(2)] by simp

lemma order_conflict:
  "apply_op no_faults order_journal (CommitOutbound (order_commit\<lparr>oc_fingerprint := ''xyz''\<rparr>))
     = (order_journal, Err (IdempotencyConflict ''order-1''))"
  by (simp add: order_journal_def order_commit_def fresh_journal_def fix_eval cong: fix_cong)

theorem journal_errors_witness:
  "log_apply (log_of order_journal) (CommitOutbound (order_commit\<lparr>oc_fingerprint := ''xyz''\<rparr>))
     = Err (IdempotencyConflict ''order-1'') \<and> order_journal = order_journal"
  by (rule journal_errors [OF order_journal_wf order_conflict]) (simp add: backend_error_def)

text \<open>C18: a request ID that is already journaled is never journaled again: a commit that repeats
  its fingerprint returns the stored command, one with another fingerprint is a conflict, and
  neither changes the journal.\<close>

theorem commit_idempotent:
  assumes "db_commands db (oc_request_id c) = Some old"
  shows "apply_op no_faults db (CommitOutbound c) =
    (db, if cr_fingerprint old = oc_fingerprint c then Ok (Command old)
         else Err (IdempotencyConflict (oc_request_id c)))
    \<and> fst (apply_op be db (CommitOutbound c)) = db"
proof -
  have "db' = db" if "commit_outbound be db c = Ok (reply, db')" for reply db'
    using commit_outbound_Ok [OF that] assms by auto
  then have "fst (apply_op be db (CommitOutbound c)) = db"
    by (cases "commit_outbound be db c") (auto simp: run_tx_def)
  moreover have "commit_outbound no_faults db c =
      (if cr_fingerprint old = oc_fingerprint c then Ok (Command old, db)
       else Err (IdempotencyConflict (oc_request_id c)))"
    using assms by (simp add: commit_outbound_def)
  ultimately show ?thesis by (simp add: run_tx_def)
qed

theorem commit_idempotent_witness:
  "apply_op no_faults order_journal (CommitOutbound order_commit) = (order_journal, Ok (Command (new_command order_commit)))"
proof -
  have "db_commands order_journal (oc_request_id order_commit) = Some (new_command order_commit)"
    by (simp add: order_journal_def order_commit_def new_command_def fresh_journal_def fix_eval cong: fix_cong)
  from commit_idempotent [OF this] show ?thesis by (simp add: new_command_def)
qed

text \<open>C19: after a restart the journal is the one that was left: opening a well-formed journal
  changes nothing, and \<open>recover\<close> returns the numbers that follow its last records.\<close>

theorem reopen_recovers:
  assumes "db_wf db"
  shows "initialize no_faults db = (db, Ok ()) \<and>
    recover no_faults db = Ok \<lparr>rs_next_out = lg_next_out (log_of db), rs_next_in = lg_next_in (log_of db),
      rs_next_event = lg_next_event (log_of db)\<rparr>"
proof -
  from assms obtain no ni ne nt where
    m: "db_meta db ''next_out'' = Some no" "db_meta db ''next_in'' = Some ni" "db_meta db ''next_event'' = Some ne"
      "db_meta db ''next_transmission'' = Some nt" and "numbered (db_outbound db) ob_seq no"
    unfolding db_wf_def by blast
  then have "lg_next_out (log_of db) = no" by (auto simp: numbered_def intro: lg_next_out_eq)
  then show ?thesis
    using m by (simp add: initialize_def init_key_def recover_def get_meta_def)
      (simp add: log_of_def)
qed

theorem reopen_recovers_witness:
  "recover no_faults order_journal = Ok \<lparr>rs_next_out = 2, rs_next_in = 1, rs_next_event = 1\<rparr>"
proof -
  have "db_meta order_journal = [''next_out'' \<mapsto> 2, ''next_in'' \<mapsto> 1, ''next_event'' \<mapsto> 1, ''next_transmission'' \<mapsto> 1]"
    by (simp add: order_journal_def order_commit_def fresh_journal_def fix_eval cong: fix_cong) auto
  then have "lg_next_out (log_of order_journal) = 2 \<and> lg_next_in (log_of order_journal) = 1
      \<and> lg_next_event (log_of order_journal) = 1"
    by (simp add: log_of_def lg_next_out_def)
  with reopen_recovers [OF order_journal_wf] show ?thesis by simp
qed

lemma log_apply_commands:
  "log_apply l operation = Ok (l', reply) \<Longrightarrow> lg_cmds l r = Some c \<Longrightarrow>
   lg_cmds l' r = Some c \<or> lg_cmds l' r = Some (c\<lparr>cr_phase := Written\<rparr>)"
  by (cases operation) (auto simp: Let_def log_event_def bindR_eqs split: option.splits if_splits)

text \<open>C20: no operation, not even a sequence reset, forgets a journaled command or changes its
  fingerprint or sequence number, and a command that is marked written stays so.\<close>

theorem commands_permanent:
  assumes "db_wf db" "db_commands db r = Some c"
  shows "\<exists>p. db_commands (fst (apply_op be db operation)) r = Some (c\<lparr>cr_phase := p\<rparr>)
    \<and> (cr_phase c = Written \<longrightarrow> p = Written)"
proof (cases "apply_op be db operation")
  case (Pair db' res)
  have same: "c\<lparr>cr_phase := cr_phase c\<rparr> = c" by simp
  show ?thesis
  proof (cases res)
    case (Ok reply)
    have cmds: "lg_cmds (log_of d) = db_commands d" for d by (simp add: log_of_def)
    have "log_apply (log_of db) operation = Ok (log_of db', reply)"
      using apply_op_refines Pair Ok assms(1) by simp
    then have "db_commands db' r = Some c \<or> db_commands db' r = Some (c\<lparr>cr_phase := Written\<rparr>)"
      using log_apply_commands [of "log_of db" operation "log_of db'" reply r c] assms(2) by (simp add: cmds)
    then show ?thesis
      unfolding Pair fst_conv by (metis same)
  next
    case (Err e)
    then have "db' = db" using apply_op_atomic [OF Pair] by simp
    then show ?thesis using Pair assms(2) by (intro exI [of _ "cr_phase c"]) simp
  next
    case Panic
    then have "db' = db" using apply_op_atomic [OF Pair] by simp
    then show ?thesis using Pair assms(2) by (intro exI [of _ "cr_phase c"]) simp
  qed
qed

theorem commands_permanent_witness:
  "\<exists>p. db_commands (fst (apply_op no_faults order_journal ResetSequences)) ''order-1''
     = Some ((new_command order_commit)\<lparr>cr_phase := p\<rparr>)"
proof -
  have "db_commands order_journal ''order-1'' = Some (new_command order_commit)"
    by (simp add: order_journal_def order_commit_def new_command_def fresh_journal_def fix_eval cong: fix_cong)
  from commands_permanent [OF order_journal_wf this, of no_faults ResetSequences] show ?thesis by blast
qed

end
