(* ===== verification/Fix_Effects.thy ===== *)
theory Fix_Effects
  imports Fix_Prelude
begin

text \<open>
  Stateful code. A function that works on \<open>&mut self\<close> and returns a \<open>Result\<close> is a function from
  the state to the new state and a result; \<open>?\<close> is \<open>sbind\<close>, which keeps the effects that happened
  before an error. \<open>triple P m Q F\<close> is the partial-failure Hoare triple the invariants are proved
  with: from \<open>P\<close> the code ends in \<open>Q\<close> when it returns, and in \<open>F\<close> when it fails (with the error,
  or with \<open>None\<close> for a panic). The rules are collected in \<open>triples\<close>.
\<close>

named_theorems triples
named_theorems keeping

section \<open>State and errors\<close>

type_synonym ('s, 'e, 'a) action = "'s \<Rightarrow> 's \<times> ('e, 'a) result"

definition sreturn :: "'a \<Rightarrow> ('s, 'e, 'a) action" where
  "sreturn x = (\<lambda>s. (s, Ok x))"

definition sfail :: "'e \<Rightarrow> ('s, 'e, 'a) action" where
  "sfail e = (\<lambda>s. (s, Err e))"

definition sbind :: "('s, 'e, 'a) action \<Rightarrow> ('a \<Rightarrow> ('s, 'e, 'b) action) \<Rightarrow> ('s, 'e, 'b) action" where
  "sbind m f = (\<lambda>s. case m s of (s', r) \<Rightarrow>
     (case r of Ok x \<Rightarrow> f x s' | Err e \<Rightarrow> (s', Err e) | Panic \<Rightarrow> (s', Panic)))"

definition slift :: "('e, 'a) result \<Rightarrow> ('s, 'e, 'a) action" where
  "slift r = (\<lambda>s. (s, r))"

definition sget :: "('s \<Rightarrow> 'a) \<Rightarrow> ('s, 'e, 'a) action" where
  "sget f = (\<lambda>s. (s, Ok (f s)))"

definition smodify :: "('s \<Rightarrow> 's) \<Rightarrow> ('s, 'e, unit) action" where
  "smodify f = (\<lambda>s. (f s, Ok ()))"

text \<open>A guard: the code's early \<open>return Err(e)\<close> when the condition fails.\<close>

definition sensure :: "bool \<Rightarrow> 'e \<Rightarrow> ('s, 'e, unit) action" where
  "sensure b e = (if b then sreturn () else sfail e)"

lemmas action_defs = sreturn_def sfail_def sbind_def slift_def sget_def smodify_def sensure_def

lemma action_apply [simp]:
  "sreturn x s = (s, Ok x)" "sfail e s = (s, Err e)" "slift r s = (s, r)"
  "sget g s = (s, Ok (g s))" "smodify h s = (h s, Ok ())"
  "sensure True e s = (s, Ok ())" "sensure False e s = (s, Err e)"
  by (simp_all add: action_defs)

lemma sbind_apply: "sbind m f s = (case m s of (s', r) \<Rightarrow>
     (case r of Ok x \<Rightarrow> f x s' | Err e \<Rightarrow> (s', Err e) | Panic \<Rightarrow> (s', Panic)))"
  by (simp add: sbind_def)

lemma sbind_steps [fix_eval]:
  "m s = (s', Ok x) \<Longrightarrow> sbind m f s = f x s'"
  "m s = (s', Err e) \<Longrightarrow> sbind m f s = (s', Err e)"
  "m s = (s', Panic) \<Longrightarrow> sbind m f s = (s', Panic)"
  by (simp_all add: sbind_def)

lemma sbind_Ok:
  "sbind m f s = (s'', Ok y) \<longleftrightarrow> (\<exists>s' x. m s = (s', Ok x) \<and> f x s' = (s'', Ok y))"
  by (auto simp: sbind_def split: prod.splits result.splits)

lemma slift_Ok [simp]: "slift r s = (s', Ok x) \<longleftrightarrow> s' = s \<and> r = Ok x"
  by (auto simp: slift_def)

lemma sensure_Ok [simp]: "sensure b e s = (s', Ok u) \<longleftrightarrow> b \<and> s' = s"
  by (auto simp: sensure_def)

section \<open>Triples\<close>

definition triple ::
    "('s \<Rightarrow> bool) \<Rightarrow> ('s, 'e, 'a) action \<Rightarrow> ('a \<Rightarrow> 's \<Rightarrow> bool) \<Rightarrow> ('e option \<Rightarrow> 's \<Rightarrow> bool) \<Rightarrow> bool" where
  "triple P m Q F \<longleftrightarrow> (\<forall>s. P s \<longrightarrow> (case m s of (s', r) \<Rightarrow>
     (case r of Ok x \<Rightarrow> Q x s' | Err e \<Rightarrow> F (Some e) s' | Panic \<Rightarrow> F None s')))"

lemma tripleI:
  assumes "\<And>s s' x. P s \<Longrightarrow> m s = (s', Ok x) \<Longrightarrow> Q x s'"
    and "\<And>s s' e. P s \<Longrightarrow> m s = (s', Err e) \<Longrightarrow> F (Some e) s'"
    and "\<And>s s'. P s \<Longrightarrow> m s = (s', Panic) \<Longrightarrow> F None s'"
  shows "triple P m Q F"
  using assms unfolding triple_def by (auto split: prod.splits result.splits)

lemma triple_Ok: "triple P m Q F \<Longrightarrow> P s \<Longrightarrow> m s = (s', Ok x) \<Longrightarrow> Q x s'"
  unfolding triple_def by (auto split: prod.splits)

lemma triple_Err: "triple P m Q F \<Longrightarrow> P s \<Longrightarrow> m s = (s', Err e) \<Longrightarrow> F (Some e) s'"
  unfolding triple_def by fastforce

lemma triple_Panic: "triple P m Q F \<Longrightarrow> P s \<Longrightarrow> m s = (s', Panic) \<Longrightarrow> F None s'"
  unfolding triple_def by fastforce

lemma triple_bind [triples]:
  "triple P m R F \<Longrightarrow> (\<And>x. triple (R x) (f x) Q F) \<Longrightarrow> triple P (sbind m f) Q F"
  unfolding triple_def sbind_def by (fastforce split: prod.splits result.splits)

lemma triple_return [triples]: "(\<And>s. P s \<Longrightarrow> Q x s) \<Longrightarrow> triple P (sreturn x) Q F"
  by (simp add: triple_def)

lemma triple_fail [triples]: "(\<And>s. P s \<Longrightarrow> F (Some e) s) \<Longrightarrow> triple P (sfail e) Q F"
  by (simp add: triple_def)

lemma triple_get [triples]: "(\<And>s. P s \<Longrightarrow> Q (g s) s) \<Longrightarrow> triple P (sget g) Q F"
  by (simp add: triple_def)

lemma triple_modify [triples]: "(\<And>s. P s \<Longrightarrow> Q () (h s)) \<Longrightarrow> triple P (smodify h) Q F"
  by (simp add: triple_def)

lemma triple_lift:
  "(\<And>s x. P s \<Longrightarrow> r = Ok x \<Longrightarrow> Q x s) \<Longrightarrow> (\<And>s e. P s \<Longrightarrow> F e s) \<Longrightarrow> triple P (slift r) Q F"
  by (cases r) (auto simp: triple_def)

lemma triple_ensure:
  "(\<And>s. P s \<Longrightarrow> b \<Longrightarrow> Q () s) \<Longrightarrow> (\<And>s. P s \<Longrightarrow> \<not> b \<Longrightarrow> F (Some e) s) \<Longrightarrow> triple P (sensure b e) Q F"
  by (simp add: triple_def sensure_def)

lemma triple_weaken:
  "triple P' m Q' F' \<Longrightarrow> (\<And>s. P s \<Longrightarrow> P' s) \<Longrightarrow> (\<And>x s. Q' x s \<Longrightarrow> Q x s) \<Longrightarrow>
   (\<And>e s. F' e s \<Longrightarrow> F e s) \<Longrightarrow> triple P m Q F"
  unfolding triple_def by (fastforce split: prod.splits result.splits)

lemma triple_if:
  "(b \<Longrightarrow> triple P m Q F) \<Longrightarrow> (\<not> b \<Longrightarrow> triple P m' Q F) \<Longrightarrow> triple P (if b then m else m') Q F"
  by simp

lemma triple_option:
  "(x = None \<Longrightarrow> triple P m Q F) \<Longrightarrow> (\<And>y. x = Some y \<Longrightarrow> triple P (f y) Q F) \<Longrightarrow>
   triple P (case x of None \<Rightarrow> m | Some y \<Rightarrow> f y) Q F"
  by (cases x) simp_all

section \<open>What an action leaves alone\<close>

text \<open>\<open>keeps f m\<close>: whatever \<open>m\<close> does, also when it fails, the part \<open>f\<close> of the state stays. The rules
  are collected in \<open>keeping\<close>.\<close>

definition keeps :: "('s \<Rightarrow> 'f) \<Rightarrow> ('s, 'e, 'a) action \<Rightarrow> bool" where
  "keeps f m \<longleftrightarrow> (\<forall>s. f (fst (m s)) = f s)"

lemma keeps_bind [keeping]:
  assumes "keeps f m" "\<And>x. keeps f (g x)"
  shows "keeps f (sbind m g)"
  unfolding keeps_def
proof
  fix s
  obtain s' r where m: "m s = (s', r)" by fastforce
  then have "f s' = f s" using assms(1) unfolding keeps_def by (metis fst_conv)
  then show "f (fst (sbind m g s)) = f s"
    using assms(2) unfolding keeps_def by (cases r) (simp_all add: sbind_apply m)
qed

lemma keeps_result: "keeps f m \<Longrightarrow> m s = (s', r) \<Longrightarrow> f s' = f s"
  unfolding keeps_def by (metis fst_conv)

lemma keeps_simple [keeping]:
  "keeps f (sreturn x)" "keeps f (sfail e)" "keeps f (slift r)" "keeps f (sget g)" "keeps f (sensure b e)"
  by (simp_all add: keeps_def sensure_def)

lemma keeps_modify: "(\<And>s. f (h s) = f s) \<Longrightarrow> keeps f (smodify h)"
  by (simp add: keeps_def)

lemma keeps_if [keeping]: "(b \<Longrightarrow> keeps f m) \<Longrightarrow> (\<not> b \<Longrightarrow> keeps f m') \<Longrightarrow> keeps f (if b then m else m')"
  by simp

lemma keeps_option [keeping]:
  "keeps f m \<Longrightarrow> (\<And>y. keeps f (g y)) \<Longrightarrow> keeps f (case x of None \<Rightarrow> m | Some y \<Rightarrow> g y)"
  by (cases x) simp_all

lemma keeps_prod [keeping]: "(\<And>a b. keeps f (g a b)) \<Longrightarrow> keeps f (case p of (a, b) \<Rightarrow> g a b)"
  by (cases p) simp

end
