(* ===== verification/Fix_Session.thy ===== *)
theory Fix_Session
  imports Fix_Effects Fix_Protocol Fix_Store
begin

text \<open>
  The session actor of \<open>crates/fix-session/src/lib.rs\<close>: its configuration, its state, and one
  action per method. The actor is generic in the store behind its \<open>StoreHandle\<close> (type \<open>'st\<close>).

  The environment \<open>E\<close> supplies what the actor asks the outside world for, indexed by a tick that
  counts the questions: the store's answer, the \<open>TimeSource\<close> text, \<open>Instant::now\<close> in nanoseconds,
  and whether \<open>write_all\<close> or \<open>flush\<close> fails. The state records the effects: the frames handed to
  \<open>write_all\<close> in order, the broadcast events, the replies to commands and the logger's lines.
\<close>

section \<open>Data\<close>

record session_config =
  sc_begin_string :: string
  sc_sender_comp_id :: string
  sc_target_comp_id :: string
  sc_heartbeat_interval_secs :: u64
  sc_reset_on_logon :: bool

datatype session_phase =
  Disconnected | Connecting | LogonSent | Synchronizing | Established | Recovering | LogoutSent | Blocked

record session_status =
  ss_phase :: session_phase
  ss_next_out :: u64
  ss_next_in :: u64
  ss_test_request_outstanding :: "string option"

record application_request =
  ar_request_id :: string
  ar_fingerprint :: string
  ar_cl_ord_id :: string
  ar_msg_type :: string
  ar_fields :: "field list"

datatype session_event = PhaseChanged session_phase | TransportClosed | ProtocolError string

datatype session_error =
    ActorStopped
  | Store string
  | Codec string
  | Transport string
  | Protocol string
  | NotEstablished
  | InvalidApplication string

fun session_error_string :: "session_error \<Rightarrow> string" where
  "session_error_string ActorStopped = ''session actor stopped''"
| "session_error_string (Store m) = ''store error: '' @ m"
| "session_error_string (Codec m) = ''FIX codec error: '' @ m"
| "session_error_string (Transport m) = ''transport error: '' @ m"
| "session_error_string (Protocol m) = ''FIX session protocol error: '' @ m"
| "session_error_string NotEstablished = ''session is not established''"
| "session_error_string (InvalidApplication m) = ''invalid application request: '' @ m"

fun is_fatal :: "session_error \<Rightarrow> bool" where
  "is_fatal (Store _) = True"
| "is_fatal (Codec _) = True"
| "is_fatal (Transport _) = True"
| "is_fatal (Protocol _) = True"
| "is_fatal _ = False"

datatype actor_command =
  Status | LookupCommand string | Submit application_request | Logout "string option"

datatype actor_reply =
  AStatus session_status | AStoredCommand "command_record option" | ACommand command_record | AAck

record test_request_outstanding =
  to_id :: string
  to_deadline :: nat

datatype log_line = Incoming bytes | Outgoing bytes | Info string | Error string

record 'st session =
  s_config :: session_config
  s_store :: 'st
  s_phase :: session_phase
  s_next_out :: u64
  s_next_in :: u64
  s_next_event :: u64
  s_decoder :: frame_decoder
  s_logon_fields :: "field list"
  s_gap_buffer :: "(u64 \<times> bytes) list"
  s_last_outbound :: nat
  s_last_inbound :: nat
  s_test_request :: "test_request_outstanding option"
  s_tick :: nat
  s_wire :: "bytes list"
  s_events :: "session_event list"
  s_replies :: "(session_error, actor_reply) result list"
  s_log :: "log_line list"

record 'st env =
  e_apply :: "nat \<Rightarrow> 'st \<Rightarrow> store_op \<Rightarrow> 'st \<times> (store_error, store_reply) result"
  e_recover :: "'st \<Rightarrow> (store_error, recovery_state) result"
  e_time :: "nat \<Rightarrow> string"
  e_now :: "nat \<Rightarrow> nat"
  e_write :: "nat \<Rightarrow> string option"

type_synonym ('st, 'a) act = "('st session, session_error, 'a) action"

section \<open>Messages\<close>

fun frame_error_string :: "frame_error \<Rightarrow> string" where
  "frame_error_string (Malformed m) = ''malformed FIX frame: '' @ m"
| "frame_error_string BodyTooLarge = ''FIX BodyLength exceeds the configured maximum''"
| "frame_error_string BufferedDataTooLarge = ''buffered FIX data exceeds the configured maximum''"
| "frame_error_string LengthOverflow = ''FIX frame length overflow''"

fun parse_error_string :: "parse_error \<Rightarrow> string" where
  "parse_error_string (Frame e) = frame_error_string e"
| "parse_error_string (ParseMalformed m) = ''malformed FIX message: '' @ m"

fun codec_error_string :: "codec_error \<Rightarrow> string" where
  "codec_error_string MsgTypeMustBeFirst = ''MsgType(35) must be the first body field''"
| "codec_error_string (ManagedField t) = ''field '' @ dec (unat t) @ '' is managed by the FIX encoder''"
| "codec_error_string InvalidTag = ''field tag must be non-zero''"
| "codec_error_string InvalidBeginString = ''BeginString contains a delimiter''"

definition required_value :: "parsed_message \<Rightarrow> u32 \<Rightarrow> (session_error, bytes) result" where
  "required_value m t = (case values_of m t of
       v # _ \<Rightarrow> Ok v
     | [] \<Rightarrow> Err (Protocol (''required tag '' @ dec (unat t) @ '' is missing'')))"

definition required_u64 :: "parsed_message \<Rightarrow> u32 \<Rightarrow> (session_error, u64) result" where
  "required_u64 m t =
     bindR (required_value m t) (\<lambda>v.
     bindR (ok_or (Protocol (''tag '' @ dec (unat t) @ '' is not ASCII'')) (from_utf8 v)) (\<lambda>text.
     ok_or (Protocol (''tag '' @ dec (unat t) @ '' is not an unsigned integer'')) (parse_u64 text)))"

definition replay_payload :: "parsed_message \<Rightarrow> (u32 \<times> bytes) list" where
  "replay_payload m = map (\<lambda>f. (field_tag f, field_value f))
     (filter (\<lambda>f. field_tag f \<notin> {43, 52, 122}) (pm_fields m))"

definition same_replay_payload :: "parsed_message \<Rightarrow> parsed_message \<Rightarrow> bool" where
  "same_replay_payload original replay \<longleftrightarrow> replay_payload original = replay_payload replay"

definition event_kind :: "string \<Rightarrow> string" where
  "event_kind t = (if t = ''A'' then ''session_logon'' else if t = ''5'' then ''session_logout''
     else if t = ''8'' then ''execution_report'' else ''fix_message'')"

text \<open>\<open>validate_custom_logon_fields\<close>, with the tags seen so far.\<close>

definition logon_managed_tags :: "u32 set" where
  "logon_managed_tags = {0, 8, 9, 10, 34, 35, 43, 49, 52, 56, 98, 108, 1137, 122}"

fun validate_logon_from :: "u32 list \<Rightarrow> field list \<Rightarrow> (session_error, unit) result" where
  "validate_logon_from seen [] = Ok ()"
| "validate_logon_from seen (f # fs) =
     (if field_tag f \<in> logon_managed_tags \<or> SOH \<in> set (field_value f) \<or> field_tag f \<in> set seen
      then Err (Protocol (''invalid custom Logon field '' @ dec (unat (field_tag f))))
      else validate_logon_from (field_tag f # seen) fs)"

definition validate_custom_logon_fields :: "field list \<Rightarrow> (session_error, unit) result" where
  "validate_custom_logon_fields fs = validate_logon_from [] fs"

section \<open>Talking to the environment\<close>

definition tick :: "('st, nat) act" where
  "tick = (\<lambda>s. (s\<lparr>s_tick := Suc (s_tick s)\<rparr>, Ok (s_tick s)))"

definition store_apply :: "'st env \<Rightarrow> store_op \<Rightarrow> ('st, store_reply) act" where
  "store_apply E operation = (\<lambda>s.
     case e_apply E (s_tick s) (s_store s) operation of (st, r) \<Rightarrow>
       (s\<lparr>s_store := st, s_tick := Suc (s_tick s)\<rparr>, map_err (\<lambda>e. Store (store_error_string e)) r))"

definition sending_time :: "'st env \<Rightarrow> ('st, string) act" where
  "sending_time E = sbind tick (\<lambda>n. sreturn (e_time E n))"

definition instant_now :: "'st env \<Rightarrow> ('st, nat) act" where
  "instant_now E = sbind tick (\<lambda>n. sreturn (e_now E n))"

definition log_out :: "log_line \<Rightarrow> ('st, unit) act" where
  "log_out l = smodify (\<lambda>s. s\<lparr>s_log := s_log s @ [l]\<rparr>)"

definition send_event :: "session_event \<Rightarrow> ('st, unit) act" where
  "send_event e = smodify (\<lambda>s. s\<lparr>s_events := s_events s @ [e]\<rparr>)"

definition set_phase :: "session_phase \<Rightarrow> ('st, unit) act" where
  "set_phase p = sbind (smodify (\<lambda>s. s\<lparr>s_phase := p\<rparr>)) (\<lambda>_. send_event (PhaseChanged p))"

definition encode_outbound :: "field list \<Rightarrow> ('st, bytes) act" where
  "encode_outbound fs = (\<lambda>s. (s, map_err (\<lambda>e. Codec (codec_error_string e))
     (encode_message (as_bytes (sc_begin_string (s_config s))) fs)))"

definition is_sensitive_tag :: "field list \<Rightarrow> u32 \<Rightarrow> bool" where
  "is_sensitive_tag logon_fields t \<longleftrightarrow> t \<in> {553, 554, 925} \<or> (\<exists>f \<in> set logon_fields. field_tag f = t)"

definition standard_header :: "'st env \<Rightarrow> string \<Rightarrow> ('st, field list) act" where
  "standard_header E t =
     sbind (sget (\<lambda>s. s)) (\<lambda>s.
     sbind (sending_time E) (\<lambda>now.
     sreturn
      [Field 35 (as_bytes t),
       Field 49 (as_bytes (sc_sender_comp_id (s_config s))),
       Field 56 (as_bytes (sc_target_comp_id (s_config s))),
       Field 34 (as_bytes (dec64 (s_next_out s))),
       Field 52 (as_bytes now)]))"

definition write_call :: "'st env \<Rightarrow> ('st, unit) act" where
  "write_call E = sbind tick (\<lambda>n.
     case e_write E n of Some m \<Rightarrow> sfail (Transport m) | None \<Rightarrow> sreturn ())"

definition write_wire :: "'st env \<Rightarrow> bytes \<Rightarrow> ('st, unit) act" where
  "write_wire E wire =
     sbind (log_out (Outgoing wire)) (\<lambda>_.
     sbind (smodify (\<lambda>s. s\<lparr>s_wire := s_wire s @ [wire]\<rparr>)) (\<lambda>_.
     sbind (write_call E) (\<lambda>_.
     sbind (write_call E) (\<lambda>_.
     sbind (instant_now E) (\<lambda>now.
     smodify (\<lambda>s. s\<lparr>s_last_outbound := now\<rparr>))))))"

section \<open>Sending a message\<close>

text \<open>
  The commit of an outbound message, and the mark that follows its write. The methods repeat
  both; \<open>wrong\<close> is the text of each method's error for a reply of the wrong kind.
\<close>

definition commit_command ::
    "'st env \<Rightarrow> string \<Rightarrow> string \<Rightarrow> string \<Rightarrow> bytes \<Rightarrow> string \<Rightarrow> ('st, command_record) act" where
  "commit_command E request_id fingerprint cl_ord_id wire wrong =
     sbind (sget s_next_out) (\<lambda>next_out.
     sbind (store_apply E (CommitOutbound \<lparr>oc_request_id = request_id, oc_fingerprint = fingerprint,
        oc_cl_ord_id = cl_ord_id, oc_msg_seq_num = next_out, oc_wire = wire\<rparr>)) (\<lambda>reply.
     case reply of Command command \<Rightarrow> sreturn command | _ \<Rightarrow> sfail (Store wrong)))"

definition advance_next_out :: "u64 \<Rightarrow> ('st, unit) act" where
  "advance_next_out seq =
     sbind (slift (add64 seq 1)) (\<lambda>n. smodify (\<lambda>s. s\<lparr>s_next_out := n\<rparr>))"

definition mark_written :: "'st env \<Rightarrow> string \<Rightarrow> u64 \<Rightarrow> ('st, store_reply) act" where
  "mark_written E request_id seq =
     store_apply E (MarkOutboundWritten \<lparr>mo_request_id = request_id, mo_msg_seq_num = seq\<rparr>)"

definition send_committed ::
    "'st env \<Rightarrow> string \<Rightarrow> string \<Rightarrow> bytes \<Rightarrow> bytes \<Rightarrow> ('st, unit) act \<Rightarrow> string \<Rightarrow> ('st, unit) act" where
  "send_committed E request_id fingerprint journal_wire wire sent wrong =
     sbind (commit_command E request_id fingerprint '''' journal_wire wrong) (\<lambda>command.
     sbind (write_wire E wire) (\<lambda>_.
     sbind sent (\<lambda>_.
     sbind (mark_written E request_id (cr_msg_seq_num command)) (\<lambda>_.
     advance_next_out (cr_msg_seq_num command)))))"

definition admin_id :: "string \<Rightarrow> u64 \<Rightarrow> u64 \<Rightarrow> string" where
  "admin_id kind next_out next_event =
     ''session:'' @ kind @ '':'' @ dec64 next_out @ '':'' @ dec64 next_event"

definition outbound_wrong :: string where
  "outbound_wrong = ''outbound commit returned an inbound record''"

definition redact_field :: "field list \<Rightarrow> field \<Rightarrow> field" where
  "redact_field logon_fields f =
     (if is_sensitive_tag logon_fields (field_tag f)
      then Field (field_tag f) (as_bytes ''<redacted>'') else f)"

definition reset_for_logon :: "'st env \<Rightarrow> ('st, unit) act" where
  "reset_for_logon E =
     sbind (store_apply E ResetSequences) (\<lambda>reply.
     case reply of
       SequencesReset next_event \<Rightarrow>
         sbind (smodify (\<lambda>s. s\<lparr>s_next_out := 1, s_next_in := 1, s_next_event := next_event\<rparr>)) (\<lambda>_.
         log_out (Info ''Resetting sequence numbers to 1 (ResetSeqNumFlag=Y)''))
     | _ \<Rightarrow> sfail (Store ''sequence reset returned the wrong record type''))"

definition logon_body :: "session_config \<Rightarrow> field list \<Rightarrow> field list" where
  "logon_body cfg logon_fields =
     [Field 98 (as_bytes ''0''), Field 108 (as_bytes (dec64 (sc_heartbeat_interval_secs cfg)))]
     @ (if sc_reset_on_logon cfg then [Field 141 (as_bytes ''Y'')] else []) @ logon_fields"

definition send_logon :: "'st env \<Rightarrow> ('st, unit) act" where
  "send_logon E =
     sbind (sget (\<lambda>s. s)) (\<lambda>s0.
     sbind (slift (validate_custom_logon_fields (s_logon_fields s0))) (\<lambda>_.
     sbind (if sc_reset_on_logon (s_config s0) then reset_for_logon E else sreturn ()) (\<lambda>_.
     sbind (standard_header E ''A'') (\<lambda>header.
     let fields = header @ logon_body (s_config s0) (s_logon_fields s0) in
     sbind (encode_outbound fields) (\<lambda>wire.
     sbind (encode_outbound (map (redact_field (s_logon_fields s0)) fields)) (\<lambda>journal_wire.
     sbind (sget (\<lambda>s. s)) (\<lambda>s.
     send_committed E (admin_id ''logon'' (s_next_out s) (s_next_event s))
       (''admin:A:'' @ dec64 (s_next_out s)) journal_wire wire
       (log_out (Info ''Sent logon request'')) outbound_wrong)))))))"

definition send_resend_request :: "'st env \<Rightarrow> u64 \<Rightarrow> ('st, unit) act" where
  "send_resend_request E begin_seq_num =
     sbind (standard_header E ''2'') (\<lambda>header.
     sbind (encode_outbound (header @ [Field 7 (as_bytes (dec64 begin_seq_num)), Field 16 (as_bytes ''0'')])) (\<lambda>wire.
     sbind (sget (\<lambda>s. s)) (\<lambda>s.
     send_committed E (admin_id ''resend-request'' (s_next_out s) (s_next_event s))
       (''admin:2:'' @ dec64 (s_next_out s) @ '':'' @ dec64 begin_seq_num) wire wire
       (sreturn ()) outbound_wrong)))"

definition send_heartbeat_response :: "'st env \<Rightarrow> bytes option \<Rightarrow> ('st, unit) act" where
  "send_heartbeat_response E test_request_id =
     sbind (standard_header E ''0'') (\<lambda>header.
     sbind (encode_outbound (header @ (case test_request_id of None \<Rightarrow> [] | Some i \<Rightarrow> [Field 112 i]))) (\<lambda>wire.
     sbind (sget (\<lambda>s. s)) (\<lambda>s.
     send_committed E (admin_id ''heartbeat'' (s_next_out s) (s_next_event s))
       (''admin:0:'' @ dec64 (s_next_out s)) wire wire
       (sreturn ()) ''heartbeat commit returned the wrong record type'')))"

definition send_test_request :: "'st env \<Rightarrow> nat \<Rightarrow> ('st, unit) act" where
  "send_test_request E response_timeout =
     sbind (sget (\<lambda>s. ''TEST-'' @ dec64 (s_next_out s))) (\<lambda>test_req_id.
     sbind (standard_header E ''1'') (\<lambda>header.
     sbind (encode_outbound (header @ [Field 112 (as_bytes test_req_id)])) (\<lambda>wire.
     sbind (sget (\<lambda>s. s)) (\<lambda>s.
     sbind (send_committed E (admin_id ''test-request'' (s_next_out s) (s_next_event s))
       (''admin:1:'' @ dec64 (s_next_out s) @ '':'' @ test_req_id) wire wire
       (sreturn ()) ''TestRequest commit returned the wrong record type'') (\<lambda>_.
     sbind (instant_now E) (\<lambda>now.
     smodify (\<lambda>s. s\<lparr>s_test_request := Some \<lparr>to_id = test_req_id, to_deadline = now + response_timeout\<rparr>\<rparr>)))))))"

definition send_logout :: "'st env \<Rightarrow> string option \<Rightarrow> ('st, unit) act" where
  "send_logout E reason =
     sbind (sget s_phase) (\<lambda>phase.
     sbind (sensure (phase \<in> {LogonSent, Synchronizing, Established, Recovering}) NotEstablished) (\<lambda>_.
     sbind (standard_header E ''5'') (\<lambda>header.
     sbind (encode_outbound (header @ (case reason of None \<Rightarrow> [] | Some t \<Rightarrow> [Field 58 (as_bytes t)]))) (\<lambda>wire.
     sbind (sget (\<lambda>s. s)) (\<lambda>s.
     sbind (send_committed E (admin_id ''logout'' (s_next_out s) (s_next_event s))
       (''admin:5:'' @ dec64 (s_next_out s)) wire wire
       (sreturn ()) ''Logout commit returned the wrong record type'') (\<lambda>_.
     set_phase LogoutSent))))))"

section \<open>Evaluation\<close>

lemmas [fix_eval] = required_value_def required_u64_def replay_payload_def same_replay_payload_def event_kind_def
  logon_managed_tags_def validate_custom_logon_fields_def tick_def store_apply_def sending_time_def instant_now_def
  log_out_def send_event_def set_phase_def encode_outbound_def is_sensitive_tag_def standard_header_def write_call_def
  write_wire_def commit_command_def advance_next_out_def mark_written_def send_committed_def admin_id_def
  outbound_wrong_def redact_field_def reset_for_logon_def logon_body_def send_logon_def send_resend_request_def
  send_heartbeat_response_def send_test_request_def send_logout_def

end
