(* ===== verification/Fix_Actor.thy ===== *)
theory Fix_Actor
  imports Fix_Session
begin

text \<open>
  The rest of the session actor of \<open>crates/fix-session/src/lib.rs\<close>: submission of application
  messages, replay of sent ones, the handling of an inbound frame with its gap buffer, and the
  loop of \<open>run\<close> as a step function on the events its \<open>select!\<close> waits for.
\<close>

section \<open>Submitting an application message\<close>

definition daemon_managed_tags :: "u32 set" where
  "daemon_managed_tags = {8, 9, 10, 11, 34, 35, 43, 49, 52, 56, 60, 122}"

text \<open>The loop that copies the body and puts TransactTime(60) after each Side(54).\<close>

fun push_body :: "'st env \<Rightarrow> bool \<Rightarrow> field list \<Rightarrow> bool \<Rightarrow> field list \<Rightarrow> ('st, field list \<times> bool) act" where
  "push_body E requires out added [] = sreturn (out, added)"
| "push_body E requires out added (f # body) =
     (if requires \<and> field_tag f = 54
      then sbind (sending_time E) (\<lambda>now.
           push_body E requires (out @ [f, Field 60 (as_bytes now)]) True body)
      else push_body E requires (out @ [f]) added body)"

definition valid_msg_type :: "string \<Rightarrow> bool" where
  "valid_msg_type t \<longleftrightarrow> t \<noteq> [] \<and> (\<forall>b \<in> set (as_bytes t). b \<noteq> of_char (CHR ''='') \<and> b \<noteq> SOH)"

definition split_orig :: "string \<Rightarrow> field list \<Rightarrow> (session_error, field list \<times> field list) result" where
  "split_orig t body =
     (if t \<in> {''F'', ''G''} then
        (case body of
           f # rest \<Rightarrow> if field_tag f = 41 then Ok ([f], rest)
                       else Err (InvalidApplication ''F/G requires OrigClOrdID(41) as the first field'')
         | [] \<Rightarrow> Err (InvalidApplication ''F/G requires OrigClOrdID(41) as the first field''))
      else Ok ([], body))"

definition application_fields :: "'st env \<Rightarrow> application_request \<Rightarrow> ('st, field list) act" where
  "application_fields E request =
     sbind (standard_header E (ar_msg_type request)) (\<lambda>header.
     sbind (slift (split_orig (ar_msg_type request) (ar_fields request))) (\<lambda>(orig, body).
     sbind (push_body E (ar_msg_type request \<in> {''D'', ''G''})
       (header @ orig @ [Field 11 (as_bytes (ar_cl_ord_id request))]) False body) (\<lambda>(fields, transact_time_added).
     sbind (sensure (\<not> (ar_msg_type request \<in> {''D'', ''G''} \<and> \<not> transact_time_added))
       (InvalidApplication ''order message is missing Side(54)'')) (\<lambda>_.
     sreturn fields))))"

definition submit_application :: "'st env \<Rightarrow> application_request \<Rightarrow> ('st, command_record) act" where
  "submit_application E request =
     sbind (sget s_phase) (\<lambda>phase.
     sbind (sensure (phase = Established) NotEstablished) (\<lambda>_.
     sbind (sensure (valid_msg_type (ar_msg_type request))
       (InvalidApplication ''MsgType is empty or contains a delimiter'')) (\<lambda>_.
     sbind (sensure (\<forall>f \<in> set (ar_fields request). field_tag f \<notin> daemon_managed_tags)
       (InvalidApplication ''request contains a daemon-managed tag'')) (\<lambda>_.
     sbind (application_fields E request) (\<lambda>fields.
     sbind (encode_outbound fields) (\<lambda>wire.
     sbind (commit_command E (ar_request_id request) (ar_fingerprint request) (ar_cl_ord_id request)
       wire outbound_wrong) (\<lambda>command.
     sbind (sget s_next_out) (\<lambda>next_out.
     if cr_msg_seq_num command < next_out then sreturn command
     else if cr_msg_seq_num command \<noteq> next_out
     then sfail (Store (''store returned future outbound sequence '' @ dec64 (cr_msg_seq_num command)))
     else
       sbind (write_wire E wire) (\<lambda>_.
       sbind (mark_written E (ar_request_id request) (cr_msg_seq_num command)) (\<lambda>reply.
       case reply of
         Command written \<Rightarrow> sbind (advance_next_out (cr_msg_seq_num written)) (\<lambda>_. sreturn written)
       | _ \<Rightarrow> sfail (Store ''mark written returned an inbound record'')))))))))))"

definition load_stored_command :: "'st env \<Rightarrow> string \<Rightarrow> ('st, command_record option) act" where
  "load_stored_command E request_id =
     sbind (store_apply E (LoadCommand request_id)) (\<lambda>reply.
     case reply of StoredCommand command \<Rightarrow> sreturn command
     | _ \<Rightarrow> sfail (Store ''command lookup returned the wrong record type''))"

section \<open>Replay\<close>

definition write_replay_transmission :: "'st env \<Rightarrow> u64 \<Rightarrow> string \<Rightarrow> bytes \<Rightarrow> ('st, unit) act" where
  "write_replay_transmission E seq kind wire =
     sbind (store_apply E (CommitTransmission \<lparr>tc_msg_seq_num = seq, tc_kind = kind, tc_wire = wire\<rparr>)) (\<lambda>reply.
     case reply of
       Transmission t \<Rightarrow>
         sbind (write_wire E wire) (\<lambda>_.
         sbind (store_apply E (MarkTransmissionWritten (tr_id t))) (\<lambda>_. sreturn ()))
     | _ \<Rightarrow> sfail (Store ''transmission commit returned the wrong record type''))"

fun replay_fields :: "'st env \<Rightarrow> bytes \<Rightarrow> field list \<Rightarrow> ('st, field list) act" where
  "replay_fields E orig_time [] = sreturn []"
| "replay_fields E orig_time (f # fs) =
     (if field_tag f = 43 \<or> field_tag f = 122 then replay_fields E orig_time fs
      else if field_tag f = 34
      then sbind (replay_fields E orig_time fs) (\<lambda>rest. sreturn (f # Field 43 (as_bytes ''Y'') # rest))
      else if field_tag f = 52
      then sbind (sending_time E) (\<lambda>now.
           sbind (replay_fields E orig_time fs) (\<lambda>rest.
           sreturn (Field 52 (as_bytes now) # Field 122 orig_time # rest)))
      else sbind (replay_fields E orig_time fs) (\<lambda>rest. sreturn (f # rest)))"

definition parse_frame_or :: "bytes \<Rightarrow> (session_error, parsed_message) result" where
  "parse_frame_or frame = map_err (\<lambda>e. Codec (parse_error_string e)) (parse_frame frame)"

definition write_application_replay :: "'st env \<Rightarrow> bytes \<Rightarrow> ('st, unit) act" where
  "write_application_replay E wire =
     sbind (slift (parse_frame_or wire)) (\<lambda>original.
     sbind (slift (required_u64 original 34)) (\<lambda>seq.
     sbind (slift (required_value original 52)) (\<lambda>orig_time.
     sbind (replay_fields E orig_time (pm_fields original)) (\<lambda>fields.
     sbind (encode_outbound fields) (\<lambda>replay.
     write_replay_transmission E seq ''application_replay'' replay)))))"

definition gap_fill_fields :: "session_config \<Rightarrow> string \<Rightarrow> u64 \<Rightarrow> u64 \<Rightarrow> field list" where
  "gap_fill_fields cfg now gap_start new_seq_num =
     [Field 35 (as_bytes ''4''),
      Field 49 (as_bytes (sc_sender_comp_id cfg)),
      Field 56 (as_bytes (sc_target_comp_id cfg)),
      Field 34 (as_bytes (dec64 gap_start)),
      Field 43 (as_bytes ''Y''),
      Field 52 (as_bytes now),
      Field 122 (as_bytes now),
      Field 123 (as_bytes ''Y''),
      Field 36 (as_bytes (dec64 new_seq_num))]"

definition write_gap_fill :: "'st env \<Rightarrow> u64 \<Rightarrow> u64 \<Rightarrow> ('st, unit) act" where
  "write_gap_fill E gap_start new_seq_num =
     sbind (sending_time E) (\<lambda>now.
     sbind (sget s_config) (\<lambda>cfg.
     sbind (encode_outbound (gap_fill_fields cfg now gap_start new_seq_num)) (\<lambda>wire.
     write_replay_transmission E gap_start ''gap_fill'' wire)))"

definition validate_replay_range :: "u64 \<Rightarrow> u64 \<Rightarrow> u64 \<Rightarrow> (session_error, u64 \<times> u64) result" where
  "validate_replay_range next_out begin_seq_num requested_end_seq_num =
     (let last = saturating_sub64 next_out 1;
          end_seq_num = (if requested_end_seq_num = 0 then last else min requested_end_seq_num last)
      in if begin_seq_num = 0 \<or> end_seq_num < begin_seq_num
         then Err (Protocol (''invalid ResendRequest range '' @ dec64 begin_seq_num @ ''..='' @ dec64 requested_end_seq_num))
         else Ok (begin_seq_num, end_seq_num))"

text \<open>
  The loop over the requested sequence numbers. \<open>records\<close> is the map the code collects the loaded
  records into; \<open>gap_start\<close> is the first number of the gap being skipped. It returns the gap that
  is still open at the end.
\<close>

fun replay_loop :: "'st env \<Rightarrow> (u64 \<rightharpoonup> outbound_record) \<Rightarrow> u64 option \<Rightarrow> u64 list \<Rightarrow> ('st, u64 option) act" where
  "replay_loop E records gap_start [] = sreturn gap_start"
| "replay_loop E records gap_start (sequence # rest) =
     (case records sequence of
        Some record \<Rightarrow>
          if cr_cl_ord_id (ob_command record) \<noteq> [] then
            sbind (case gap_start of None \<Rightarrow> sreturn () | Some start \<Rightarrow> write_gap_fill E start sequence) (\<lambda>_.
            sbind (write_application_replay E (ob_wire record)) (\<lambda>_.
            replay_loop E records None rest))
          else replay_loop E records (Some (case gap_start of None \<Rightarrow> sequence | Some start \<Rightarrow> start)) rest
      | None \<Rightarrow> replay_loop E records (Some (case gap_start of None \<Rightarrow> sequence | Some start \<Rightarrow> start)) rest)"

definition replay_validated_range :: "'st env \<Rightarrow> u64 \<Rightarrow> u64 \<Rightarrow> ('st, unit) act" where
  "replay_validated_range E begin_seq_num end_seq_num =
     sbind (store_apply E (LoadOutboundRange begin_seq_num end_seq_num)) (\<lambda>reply.
     case reply of
       Outbound records \<Rightarrow>
         sbind (replay_loop E (map_of (rev (map (\<lambda>r. (cr_msg_seq_num (ob_command r), r)) records)))
           None (seq_range begin_seq_num end_seq_num)) (\<lambda>gap_start.
         case gap_start of None \<Rightarrow> sreturn ()
         | Some start \<Rightarrow>
             sbind (slift (add64 end_seq_num 1)) (\<lambda>after. write_gap_fill E start after))
     | _ \<Rightarrow> sfail (Store ''outbound range query returned the wrong record type''))"

section \<open>Inbound frames\<close>

definition parse_inbound :: "session_config \<Rightarrow> field list \<Rightarrow> bytes \<Rightarrow> (session_error, parsed_message) result" where
  "parse_inbound cfg logon_fields frame =
     bindR (parse_frame_or frame) (\<lambda>message.
     if pm_begin_string message \<noteq> as_bytes (sc_begin_string cfg) then Err (Protocol ''BeginString mismatch'')
     else
       bindR (required_value message 49) (\<lambda>sender.
       if sender \<noteq> as_bytes (sc_target_comp_id cfg)
       then Err (Protocol ''inbound SenderCompID does not match TargetCompID'')
       else
         bindR (required_value message 56) (\<lambda>target.
         if target \<noteq> as_bytes (sc_sender_comp_id cfg)
         then Err (Protocol ''inbound TargetCompID does not match SenderCompID'')
         else case find (\<lambda>f. is_sensitive_tag logon_fields (field_tag f)) (pm_fields message) of
           Some f \<Rightarrow> Err (Protocol (''inbound sensitive tag '' @ dec (unat (field_tag f)) @
                       '' is forbidden from persistent session input''))
         | None \<Rightarrow> Ok message)))"

definition parse_inbound_act :: "bytes \<Rightarrow> ('st, parsed_message) act" where
  "parse_inbound_act frame = (\<lambda>s. (s, parse_inbound (s_config s) (s_logon_fields s) frame))"

text \<open>Byte strings compare lexicographically.\<close>

fun bytes_le :: "bytes \<Rightarrow> bytes \<Rightarrow> bool" where
  "bytes_le [] _ = True"
| "bytes_le (x # xs) [] = False"
| "bytes_le (x # xs) (y # ys) = (x < y \<or> (x = y \<and> bytes_le xs ys))"

definition verify_possdup :: "'st env \<Rightarrow> parsed_message \<Rightarrow> u64 \<Rightarrow> ('st, unit) act" where
  "verify_possdup E replay seq =
     sbind (sensure (length (values_of replay 43) = 1 \<and> length (values_of replay 52) = 1
         \<and> length (values_of replay 122) = 1)
       (Protocol ''PossDup requires exactly one PossDupFlag, SendingTime and OrigSendingTime'')) (\<lambda>_.
     sbind (slift (required_value replay 122)) (\<lambda>orig_sending_time.
     sbind (slift (required_value replay 52)) (\<lambda>sending_time.
     sbind (sensure (bytes_le orig_sending_time sending_time)
       (Protocol ''OrigSendingTime is later than SendingTime'')) (\<lambda>_.
     sbind (store_apply E (LoadInbound seq)) (\<lambda>reply.
     case reply of
       StoredInbound (Some stored) \<Rightarrow>
         sbind (slift (parse_frame_or (ib_wire stored))) (\<lambda>original.
         sbind (slift (required_value original 52)) (\<lambda>original_sending_time.
         sensure (original_sending_time = orig_sending_time
             \<and> pm_begin_string original = pm_begin_string replay
             \<and> same_replay_payload original replay)
           (Protocol (''PossDup payload mismatch for sequence '' @ dec64 seq))))
     | _ \<Rightarrow> sfail (Protocol (''PossDup sequence '' @ dec64 seq @ '' has no committed original'')))))))"

text \<open>The checks of \<open>commit_expected\<close> that depend on the message type.\<close>

definition heartbeat_matches :: "session_config \<Rightarrow> string \<Rightarrow> parsed_message \<Rightarrow> (session_error, unit) result" where
  "heartbeat_matches cfg mt message =
     (if mt = ''A'' then
        bindR (required_u64 message 108) (\<lambda>heartbeat.
        if heartbeat \<noteq> sc_heartbeat_interval_secs cfg
        then Err (Protocol (''peer HeartBtInt '' @ dec64 heartbeat @ '' does not match configured ''
               @ dec64 (sc_heartbeat_interval_secs cfg)))
        else Ok ())
      else Ok ())"

definition next_in_after :: "string \<Rightarrow> parsed_message \<Rightarrow> u64 \<Rightarrow> u64 \<Rightarrow> (session_error, u64) result" where
  "next_in_after mt message seq baseline =
     (if mt = ''4'' then
        bindR (required_value message 123) (\<lambda>gap_fill_flag.
        if gap_fill_flag \<noteq> as_bytes ''Y'' then Err (Protocol ''non-GapFill SequenceReset is disabled'')
        else
          bindR (required_u64 message 36) (\<lambda>new_seq_num.
          if new_seq_num \<le> baseline
          then Err (Protocol (''SequenceReset NewSeqNo '' @ dec64 new_seq_num @ '' must be greater than '' @ dec64 baseline))
          else Ok new_seq_num))
      else add64 seq 1)"

definition requested_resend :: "string \<Rightarrow> parsed_message \<Rightarrow> u64 \<Rightarrow> (session_error, (u64 \<times> u64) option) result" where
  "requested_resend mt message next_out =
     (if mt = ''2'' then
        bindR (required_u64 message 7) (\<lambda>b.
        bindR (required_u64 message 16) (\<lambda>e.
        bindR (validate_replay_range next_out b e) (\<lambda>range. Ok (Some range))))
      else Ok None)"

definition heartbeat_response :: "string \<Rightarrow> parsed_message \<Rightarrow> (session_error, bytes option) result" where
  "heartbeat_response mt message =
     (if mt = ''1'' then bindR (required_value message 112) (\<lambda>v. Ok (Some v)) else Ok None)"

definition desync_text :: "u64 \<Rightarrow> u64 \<Rightarrow> string" where
  "desync_text expected_seq actual_seq = ''sequence desync at logon: expected '' @ dec64 expected_seq @ '', got ''
     @ dec64 actual_seq @ ''; realigning to counterparty''"

definition unexpected_seq :: "u64 \<Rightarrow> u64 \<Rightarrow> session_error" where
  "unexpected_seq expected_seq actual_seq =
     Protocol (''expected inbound sequence '' @ dec64 expected_seq @ '', got '' @ dec64 actual_seq)"

definition inbound_event :: "u64 \<Rightarrow> string \<Rightarrow> u64 \<Rightarrow> event_record" where
  "inbound_event i mt seq = \<lparr>ev_id = i, ev_kind = event_kind mt,
     ev_details = [''msg_type'' \<mapsto> mt, ''msg_seq_num'' \<mapsto> dec64 seq]\<rparr>"

definition advance_next_event :: "('st, unit) act" where
  "advance_next_event =
     sbind (sget s_next_event) (\<lambda>e. sbind (slift (add64 e 1)) (\<lambda>n. smodify (\<lambda>s. s\<lparr>s_next_event := n\<rparr>)))"

text \<open>What \<open>commit_expected\<close> does once the message is in the journal.\<close>

definition after_commit ::
    "'st env \<Rightarrow> string \<Rightarrow> parsed_message \<Rightarrow> (u64 \<times> u64) option \<Rightarrow> bytes option \<Rightarrow> ('st, unit) act" where
  "after_commit E mt message resend response =
     sbind (sget s_phase) (\<lambda>phase.
     sbind (if mt = ''A'' \<and> phase = LogonSent
       then sbind (log_out (Info ''Received logon response'')) (\<lambda>_. set_phase Established)
       else sreturn ()) (\<lambda>_.
     sbind (smodify (\<lambda>s.
       case (s_test_request s, values_of message 112) of
         (Some outstanding, test_req_id # _) \<Rightarrow>
           if mt = ''0'' \<and> as_bytes (to_id outstanding) = test_req_id
           then s\<lparr>s_test_request := None\<rparr> else s
       | _ \<Rightarrow> s)) (\<lambda>_.
     sbind (if mt = ''5'' then
         sbind (log_out (Info ''Received logout request'')) (\<lambda>_.
         sbind (sget s_phase) (\<lambda>phase.
         sbind (if phase \<noteq> LogoutSent then send_logout E None else sreturn ()) (\<lambda>_.
         set_phase Disconnected)))
       else sreturn ()) (\<lambda>_.
     sbind (case resend of None \<Rightarrow> sreturn () | Some (b, e) \<Rightarrow> replay_validated_range E b e) (\<lambda>_.
     case response of None \<Rightarrow> sreturn () | Some i \<Rightarrow> send_heartbeat_response E (Some i))))))"

definition commit_expected :: "'st env \<Rightarrow> parsed_message \<Rightarrow> bytes \<Rightarrow> ('st, unit) act" where
  "commit_expected E message frame =
     sbind (slift (required_u64 message 34)) (\<lambda>seq.
     sbind (sget (\<lambda>s. s)) (\<lambda>s.
     sbind (if seq \<noteq> s_next_in s
       then sbind (sensure (s_phase s = LogonSent) (unexpected_seq (s_next_in s) seq)) (\<lambda>_.
            log_out (Info (desync_text (s_next_in s) seq)))
       else sreturn ()) (\<lambda>_.
     sbind (slift (ok_or (Protocol ''MsgType is missing'') (msg_type message))) (\<lambda>type_bytes.
     sbind (slift (ok_or (Protocol ''MsgType is not ASCII'') (from_utf8 type_bytes))) (\<lambda>mt.
     sbind (slift (requested_resend mt message (s_next_out s))) (\<lambda>resend.
     sbind (slift (heartbeat_response mt message)) (\<lambda>response.
     sbind (slift (heartbeat_matches (s_config s) mt message)) (\<lambda>_.
     sbind (slift (next_in_after mt message seq (if seq \<noteq> s_next_in s then seq else s_next_in s))) (\<lambda>next.
     sbind (store_apply E (CommitInbound \<lparr>ic_msg_seq_num = seq, ic_next_in_after = next, ic_msg_type = mt,
         ic_wire = frame, ic_event = inbound_event (s_next_event s) mt seq\<rparr>)) (\<lambda>_.
     sbind (smodify (\<lambda>s. s\<lparr>s_next_in := next\<rparr>)) (\<lambda>_.
     sbind advance_next_event (\<lambda>_.
     after_commit E mt message resend response))))))))))))"

section \<open>The gap buffer\<close>

definition retain_pending :: "u64 \<Rightarrow> (u64 \<times> bytes) list \<Rightarrow> (u64 \<times> bytes) list" where
  "retain_pending next_in = filter (\<lambda>(sequence, _). next_in \<le> sequence)"

definition remove_entry :: "u64 \<Rightarrow> (u64 \<times> bytes) list \<Rightarrow> (u64 \<times> bytes) list" where
  "remove_entry k = filter (\<lambda>(sequence, _). sequence \<noteq> k)"

text \<open>\<open>entry(k).or_insert\<close> of the buffer, which is a map: an existing frame stays.\<close>

definition or_insert :: "u64 \<Rightarrow> bytes \<Rightarrow> (u64 \<times> bytes) list \<Rightarrow> (u64 \<times> bytes) list" where
  "or_insert k frame buffer = (if map_of buffer k = None then buffer @ [(k, frame)] else buffer)"

section \<open>What the methods never touch\<close>

text \<open>
  \<open>projection\<close> is a part of the state that only \<open>handle_inbound\<close> and \<open>run\<close> touch: it does not depend
  on the fields the sending methods update. \<open>inbound_projection\<close> does not depend on the inbound
  counters either, so that the commit of an inbound message keeps it too.
\<close>

lemma keeps_reply [keeping]:
  assumes "\<And>c. keeps f (m1 c)" "\<And>c. keeps f (m2 c)" "\<And>c. keeps f (m3 c)" "\<And>c. keeps f (m4 c)"
    "\<And>c. keeps f (m5 c)" "\<And>c. keeps f (m6 c)" "\<And>c. keeps f (m7 c)" "\<And>c. keeps f (m8 c)" "\<And>c. keeps f (m9 c)"
  shows "keeps f (case_store_reply m1 m2 m3 m4 m5 m6 m7 m8 m9 reply)"
  using assms by (cases reply) simp_all

locale projection =
  fixes f :: "'st session \<Rightarrow> 'f"
  assumes outer [simp]: "f (s\<lparr>s_store := a\<rparr>) = f s" "f (s\<lparr>s_tick := n\<rparr>) = f s" "f (s\<lparr>s_wire := w\<rparr>) = f s"
    "f (s\<lparr>s_events := e\<rparr>) = f s" "f (s\<lparr>s_log := l\<rparr>) = f s" "f (s\<lparr>s_phase := p\<rparr>) = f s"
    "f (s\<lparr>s_next_out := q\<rparr>) = f s" "f (s\<lparr>s_test_request := t\<rparr>) = f s" "f (s\<lparr>s_last_outbound := n\<rparr>) = f s"
begin

lemma keeps_environment [keeping]:
  "keeps f tick" "keeps f (store_apply E op)" "keeps f (log_out l)"
  "keeps f (send_event e)" "keeps f (encode_outbound fs)" "keeps f (parse_inbound_act frame)"
  by (auto simp: keeps_def tick_def store_apply_def log_out_def send_event_def encode_outbound_def
      parse_inbound_act_def split: prod.splits)

lemma keeps_clock [keeping]: "keeps f (sending_time E)" "keeps f (instant_now E)"
  unfolding sending_time_def instant_now_def by (intro keeping)+

lemma keeps_set_phase [keeping]: "keeps f (set_phase p)"
  unfolding set_phase_def by (intro keeping keeps_modify) simp

lemma keeps_push_body [keeping]: "keeps f (push_body E requires out added body)"
  by (induction body arbitrary: out added) (auto simp del: action_apply intro!: keeping)

lemma keeps_replay_fields [keeping]: "keeps f (replay_fields E t fs)"
  by (induction fs) (auto simp del: action_apply intro!: keeping)

lemma keeps_write_wire [keeping]: "keeps f (write_wire E w)"
  unfolding write_wire_def write_call_def by (intro keeping keeps_modify) simp_all

lemma keeps_advance_out [keeping]: "keeps f (advance_next_out q)"
  unfolding advance_next_out_def by (intro keeping keeps_modify) simp

lemma keeps_commit_command [keeping]: "keeps f (commit_command E i fp cl w wrong)" "keeps f (mark_written E i q)"
  unfolding commit_command_def mark_written_def by (intro keeping)+

lemma keeps_send_committed [keeping]:
  "keeps f sent \<Longrightarrow> keeps f (send_committed E i fp jw w sent wrong)"
  unfolding send_committed_def by (intro keeping)

lemma keeps_standard_header [keeping]: "keeps f (standard_header E t)"
  unfolding standard_header_def by (intro keeping)

lemma keeps_admin [keeping]:
  "keeps f (send_logout E reason)" "keeps f (send_heartbeat_response E i)" "keeps f (send_resend_request E q)"
  unfolding send_logout_def send_heartbeat_response_def send_resend_request_def by (intro keeping)+

lemma keeps_send_test_request [keeping]: "keeps f (send_test_request E n)"
  unfolding send_test_request_def by (intro keeping keeps_modify) simp

lemma keeps_submit [keeping]: "keeps f (submit_application E r)" "keeps f (load_stored_command E i)"
  unfolding submit_application_def application_fields_def load_stored_command_def by (intro keeping)+

lemma keeps_write_replay_transmission [keeping]: "keeps f (write_replay_transmission E q k w)"
  unfolding write_replay_transmission_def by (intro keeping)

lemma keeps_replay_writes [keeping]: "keeps f (write_gap_fill E a b)" "keeps f (write_application_replay E w)"
  unfolding write_gap_fill_def write_application_replay_def by (intro keeping)+

lemma keeps_replay_loop [keeping]: "keeps f (replay_loop E records g ss)"
  by (induction ss arbitrary: g) (auto simp del: action_apply intro!: keeping split: option.splits)

lemma keeps_replay_validated_range [keeping]: "keeps f (replay_validated_range E b e)"
  unfolding replay_validated_range_def by (intro keeping)

lemma keeps_after_commit [keeping]: "keeps f (after_commit E t m re rp)"
  unfolding after_commit_def
  by (intro keeping keeps_modify) (auto split: option.splits list.splits)

lemma keeps_verify_possdup [keeping]: "keeps f (verify_possdup E m q)"
  unfolding verify_possdup_def by (intro keeping)

end

locale inbound_projection = projection +
  assumes inner [simp]: "f (s\<lparr>s_next_in := i\<rparr>) = f s" "f (s\<lparr>s_next_event := i\<rparr>) = f s"
begin

lemma keeps_advance_event [keeping]: "keeps f advance_next_event"
  unfolding advance_next_event_def by (intro keeping keeps_modify) simp

lemma keeps_commit_expected [keeping]: "keeps f (commit_expected E m frame)"
  unfolding commit_expected_def by (intro keeping keeps_modify) simp

lemma keeps_reset_for_logon [keeping]: "keeps f (reset_for_logon E)"
  unfolding reset_for_logon_def
proof (intro keeping keeps_modify)
  fix s :: "'a session" and c
  have "f (s\<lparr>s_next_out := 1, s_next_in := 1, s_next_event := c\<rparr>) = f (s\<lparr>s_next_out := 1, s_next_in := 1\<rparr>)"
    by (rule inner)
  also have "\<dots> = f (s\<lparr>s_next_out := 1\<rparr>)" by (rule inner)
  finally show "f (s\<lparr>s_next_out := 1, s_next_in := 1, s_next_event := c\<rparr>) = f s" by simp
qed

lemma keeps_send_logon [keeping]: "keeps f (send_logon E)"
  unfolding send_logon_def Let_def by (intro keeping)

end

definition frame_of :: "'st session \<Rightarrow> (u64 \<times> bytes) list \<times> session_config \<times> field list \<times> frame_decoder" where
  "frame_of s = (s_gap_buffer s, s_config s, s_logon_fields s, s_decoder s)"

interpretation frame: inbound_projection frame_of
  by unfold_locales (simp_all add: frame_of_def)

lemma commit_expected_frame:
  assumes "commit_expected E m f s = (s', r)"
  shows "s_gap_buffer s' = s_gap_buffer s" "s_config s' = s_config s" "s_logon_fields s' = s_logon_fields s"
    "s_decoder s' = s_decoder s"
  using frame.keeps_commit_expected [of E m f] assms unfolding keeps_def frame_of_def
  by (metis fst_conv prod.inject)+

section \<open>Draining the gap buffer and handling a frame\<close>

text \<open>
  The inner loop of \<open>handle_inbound\<close>: drop what is already committed, then commit the frame that
  is next, until that frame is missing. It ends because each turn removes an entry.
\<close>

function drain :: "'st env \<Rightarrow> 'st session \<Rightarrow> 'st session \<times> (session_error, unit) result" where
  "drain E s =
     (let pending = retain_pending (s_next_in s) (s_gap_buffer s) in
      case map_of pending (s_next_in s) of
        None \<Rightarrow> (s\<lparr>s_gap_buffer := pending\<rparr>, Ok ())
      | Some buffered \<Rightarrow>
          let s' = s\<lparr>s_gap_buffer := remove_entry (s_next_in s) pending\<rparr> in
          (case parse_inbound (s_config s) (s_logon_fields s) buffered of
             Ok message \<Rightarrow>
               (case commit_expected E message buffered s' of
                  (s'', Ok _) \<Rightarrow> drain E s''
                | (s'', Err e) \<Rightarrow> (s'', Err e)
                | (s'', Panic) \<Rightarrow> (s'', Panic))
           | Err e \<Rightarrow> (s', Err e)
           | Panic \<Rightarrow> (s', Panic)))"
  by pat_completeness auto

lemma remove_entry_shorter:
  "map_of xs k = Some v \<Longrightarrow> length (remove_entry k xs) < length xs"
  by (induction xs) (auto simp: remove_entry_def less_Suc_eq_le split: if_splits)

lemma length_retain_pending: "length (retain_pending k xs) \<le> length xs"
  by (simp add: retain_pending_def)

termination drain
proof (relation "measure (\<lambda>(E, s). length (s_gap_buffer s))", goal_cases)
  case (2 E s pending buffered s' message)
  then show ?case
    using remove_entry_shorter [of pending "s_next_in s" buffered]
      length_retain_pending [of "s_next_in s" "s_gap_buffer s"] 
    by (auto simp: less_le_trans dest!: sym [of "(_, _)", THEN commit_expected_frame(1)])
qed simp

declare drain.simps [simp del]

definition gap_buffer_limit :: nat where
  "gap_buffer_limit = 1024"

definition resync_event :: "u64 \<Rightarrow> u64 \<Rightarrow> u64 \<Rightarrow> event_record" where
  "resync_event i expected_seq actual_seq = \<lparr>ev_id = i, ev_kind = ''sequence_resync'',
     ev_details = [''expected'' \<mapsto> dec64 expected_seq, ''realign_to'' \<mapsto> dec64 actual_seq]\<rparr>"

text \<open>A frame ahead of the expected number is kept, and the missing ones are asked for once.\<close>

definition buffer_ahead :: "'st env \<Rightarrow> u64 \<Rightarrow> bytes \<Rightarrow> ('st, unit) act" where
  "buffer_ahead E seq frame =
     sbind (sget (\<lambda>s. s)) (\<lambda>s.
     sbind (sensure (length (s_gap_buffer s) < gap_buffer_limit)
       (Protocol ''inbound gap buffer limit exceeded'')) (\<lambda>_.
     sbind (smodify (\<lambda>s. s\<lparr>s_gap_buffer := or_insert seq frame (s_gap_buffer s)\<rparr>)) (\<lambda>_.
     if s_phase s \<noteq> Recovering
     then sbind (send_resend_request E (s_next_in s)) (\<lambda>_. set_phase Recovering)
     else sreturn ())))"

text \<open>A low number on the Logon response realigns the expectation to the counterparty.\<close>

definition realign :: "'st env \<Rightarrow> u64 \<Rightarrow> ('st, unit) act" where
  "realign E seq =
     sbind (sget (\<lambda>s. s)) (\<lambda>s.
     sbind (log_out (Info (desync_text (s_next_in s) seq))) (\<lambda>_.
     sbind (store_apply E (ResyncInbound \<lparr>ri_next_in_after = seq,
        ri_event = resync_event (s_next_event s) (s_next_in s) seq\<rparr>)) (\<lambda>_.
     sbind advance_next_event (\<lambda>_.
     smodify (\<lambda>s. s\<lparr>s_next_in := seq\<rparr>)))))"

context inbound_projection
begin

lemma keeps_realign [keeping]: "keeps f (realign E q)"
  unfolding realign_def by (intro keeping keeps_modify) simp

end

definition commit_and_drain :: "'st env \<Rightarrow> parsed_message \<Rightarrow> bytes \<Rightarrow> ('st, unit) act" where
  "commit_and_drain E message frame =
     sbind (commit_expected E message frame) (\<lambda>_.
     sbind (drain E) (\<lambda>_.
     sbind (sget (\<lambda>s. s)) (\<lambda>s.
     if s_phase s = Recovering \<and> s_gap_buffer s = [] then set_phase Established else sreturn ())))"

definition handle_inbound :: "'st env \<Rightarrow> bytes \<Rightarrow> ('st, unit) act" where
  "handle_inbound E frame =
     sbind (parse_inbound_act frame) (\<lambda>message.
     sbind (instant_now E) (\<lambda>now.
     sbind (smodify (\<lambda>s. s\<lparr>s_last_inbound := now\<rparr>)) (\<lambda>_.
     sbind (slift (required_u64 message 34)) (\<lambda>seq.
     sbind (sget (\<lambda>s. s)) (\<lambda>s.
     if s_next_in s < seq then buffer_ahead E seq frame
     else if seq < s_next_in s then
       (if (case values_of message 43 of v # _ \<Rightarrow> v = as_bytes ''Y'' | [] \<Rightarrow> False)
        then verify_possdup E message seq
        else if s_phase s = LogonSent
        then sbind (realign E seq) (\<lambda>_. commit_and_drain E message frame)
        else sfail (unexpected_seq (s_next_in s) seq))
     else commit_and_drain E message frame)))))"

section \<open>The loop\<close>

text \<open>The branches of \<open>select!\<close>: the command channel, the socket and the heartbeat timer.\<close>

datatype actor_input =
  CommandsClosed | Request actor_command | ReadFailed string | ReadEof | ReadBytes bytes | Timer

definition nanos :: "u64 \<Rightarrow> nat" where
  "nanos secs = unat secs * 1000000000"

definition heartbeat_interval :: "session_config \<Rightarrow> nat" where
  "heartbeat_interval cfg = nanos (max (sc_heartbeat_interval_secs cfg) 1)"

definition smap :: "('a \<Rightarrow> 'b) \<Rightarrow> ('st, 'a) act \<Rightarrow> ('st, 'b) act" where
  "smap f m = sbind m (\<lambda>x. sreturn (f x))"

definition session_status_of :: "'st session \<Rightarrow> session_status" where
  "session_status_of s = \<lparr>ss_phase = s_phase s, ss_next_out = s_next_out s, ss_next_in = s_next_in s,
     ss_test_request_outstanding = map_option to_id (s_test_request s)\<rparr>"

fun run_command :: "'st env \<Rightarrow> actor_command \<Rightarrow> ('st, actor_reply) act" where
  "run_command E Status = sget (\<lambda>s. AStatus (session_status_of s))"
| "run_command E (LookupCommand request_id) = smap AStoredCommand (load_stored_command E request_id)"
| "run_command E (Submit request) = smap ACommand (submit_application E request)"
| "run_command E (Logout reason) = smap (\<lambda>_. AAck) (send_logout E reason)"

definition handle_command :: "'st env \<Rightarrow> actor_command \<Rightarrow> ('st, unit) act" where
  "handle_command E command = (\<lambda>s.
     case run_command E command s of (s', r) \<Rightarrow>
       (let replied = s'\<lparr>s_replies := s_replies s' @ [r]\<rparr> in
        case r of
          Ok _ \<Rightarrow> (replied, Ok ())
        | Err e \<Rightarrow> (replied, if is_fatal e then Err e else Ok ())
        | Panic \<Rightarrow> (s', Panic)))"

fun handle_frames :: "'st env \<Rightarrow> bytes list \<Rightarrow> ('st, unit) act" where
  "handle_frames E [] = sreturn ()"
| "handle_frames E (frame # frames) =
     sbind (log_out (Incoming frame)) (\<lambda>_.
     sbind (handle_inbound E frame) (\<lambda>_.
     handle_frames E frames))"

definition decode_input :: "bytes \<Rightarrow> ('st, bytes list) act" where
  "decode_input input = (\<lambda>s. case ingest (s_decoder s) input of (d, r) \<Rightarrow>
     (s\<lparr>s_decoder := d\<rparr>, map_err (\<lambda>e. Codec (frame_error_string e)) r))"

definition on_timer :: "'st env \<Rightarrow> ('st, unit) act" where
  "on_timer E =
     sbind (sget s_phase) (\<lambda>phase.
     sbind (if phase = Established then send_heartbeat_response E None else sreturn ()) (\<lambda>_.
     sbind (sget (\<lambda>s. s)) (\<lambda>s.
     case s_test_request s of
       Some outstanding \<Rightarrow>
         sbind (instant_now E) (\<lambda>now.
         if to_deadline outstanding \<le> now
         then sbind (send_logout E (Some ''TestRequest response timeout'')) (\<lambda>_.
              sfail (Protocol ''TestRequest response timeout''))
         else sreturn ())
     | None \<Rightarrow>
         if s_phase s = Established then
           sbind (instant_now E) (\<lambda>now.
           let interval = heartbeat_interval (s_config s) in
           if interval + interval \<le> now - s_last_inbound s then send_test_request E interval else sreturn ())
         else sreturn ())))"

text \<open>One turn: \<open>True\<close> goes round again, \<open>False\<close> is the \<open>return Ok(())\<close> of \<open>run\<close>.\<close>

fun run_turn :: "'st env \<Rightarrow> actor_input \<Rightarrow> ('st, bool) act" where
  "run_turn E CommandsClosed = sreturn False"
| "run_turn E (Request command) = smap (\<lambda>_. True) (handle_command E command)"
| "run_turn E (ReadFailed m) = sfail (Transport m)"
| "run_turn E ReadEof =
     sbind (set_phase Disconnected) (\<lambda>_. sbind (send_event TransportClosed) (\<lambda>_. sreturn False))"
| "run_turn E (ReadBytes input) =
     sbind (decode_input input) (\<lambda>frames. smap (\<lambda>_. True) (handle_frames E frames))"
| "run_turn E Timer = smap (\<lambda>_. True) (on_timer E)"

datatype run_state = Running | Finished | Failed session_error | Panicked

text \<open>What the task does with the result of \<open>run\<close>.\<close>

definition blocked :: "string \<Rightarrow> 'st session \<Rightarrow> 'st session" where
  "blocked m s = s\<lparr>s_phase := Blocked,
     s_events := s_events s @ [PhaseChanged Blocked, ProtocolError m]\<rparr>"

definition conclude :: "'st session \<times> (session_error, bool) result \<Rightarrow> 'st session \<times> run_state" where
  "conclude p = (case p of (s, r) \<Rightarrow>
     (case r of
        Ok True \<Rightarrow> (s, Running)
      | Ok False \<Rightarrow> (s\<lparr>s_log := s_log s @ [Info ''Disconnecting'']\<rparr>, Finished)
      | Err e \<Rightarrow> (blocked (session_error_string e)
                    (s\<lparr>s_log := s_log s @ [Info ''Disconnecting'', Error (session_error_string e)]\<rparr>), Failed e)
      | Panic \<Rightarrow> (s, Panicked)))"

definition actor_step :: "'st env \<Rightarrow> actor_input \<Rightarrow> 'st session \<Rightarrow> 'st session \<times> run_state" where
  "actor_step E i s = conclude (run_turn E i s)"

definition new_actor :: "'st env \<Rightarrow> session_config \<Rightarrow> field list \<Rightarrow> 'st \<Rightarrow> recovery_state \<Rightarrow> 'st session" where
  "new_actor E cfg logon_fields st recovery =
     \<lparr>s_config = cfg, s_store = st, s_phase = Connecting,
      s_next_out = rs_next_out recovery, s_next_in = rs_next_in recovery, s_next_event = rs_next_event recovery,
      s_decoder = new_decoder (1024 * 1024), s_logon_fields = logon_fields, s_gap_buffer = [],
      s_last_outbound = e_now E 0, s_last_inbound = e_now E 1, s_test_request = None,
      s_tick = 2, s_wire = [], s_events = [], s_replies = [], s_log = []\<rparr>"

text \<open>
  \<open>spawn_initiator_internal\<close> up to the loop. When recovery fails there is no actor: the record then
  only carries the two events.
\<close>

definition spawn_initiator :: "'st env \<Rightarrow> session_config \<Rightarrow> field list \<Rightarrow> 'st \<Rightarrow> 'st session \<times> run_state" where
  "spawn_initiator E cfg logon_fields st =
     (case e_recover E st of
        Ok recovery \<Rightarrow>
          conclude (sbind (send_logon E) (\<lambda>_. sbind (set_phase LogonSent) (\<lambda>_. sreturn True))
            (new_actor E cfg logon_fields st recovery))
      | Err e \<Rightarrow> (blocked (store_error_string e) (new_actor E cfg logon_fields st recovery_default), Failed (Store (store_error_string e)))
      | Panic \<Rightarrow> (new_actor E cfg logon_fields st recovery_default, Panicked))"

text \<open>
  The states of a session. \<open>ok\<close> restricts what the outside may send; \<open>\<lambda>_ _. True\<close> is everything.
\<close>

inductive reachable ::
    "'st env \<Rightarrow> ('st session \<Rightarrow> actor_input \<Rightarrow> bool) \<Rightarrow> session_config \<Rightarrow> field list \<Rightarrow> 'st
      \<Rightarrow> 'st session \<Rightarrow> run_state \<Rightarrow> bool" for E ok cfg logon_fields st where
  reach_start: "spawn_initiator E cfg logon_fields st = (s, r) \<Longrightarrow> reachable E ok cfg logon_fields st s r"
| reach_step: "reachable E ok cfg logon_fields st s Running \<Longrightarrow> ok s i \<Longrightarrow> actor_step E i s = (s', r) \<Longrightarrow>
    reachable E ok cfg logon_fields st s' r"

inductive_cases reachable_runningE: "reachable E ok cfg logon_fields st s Running"

section \<open>Evaluation\<close>

lemmas [fix_eval] = daemon_managed_tags_def valid_msg_type_def split_orig_def application_fields_def
  submit_application_def load_stored_command_def write_replay_transmission_def parse_frame_or_def
  write_application_replay_def gap_fill_fields_def write_gap_fill_def validate_replay_range_def
  replay_validated_range_def parse_inbound_def parse_inbound_act_def verify_possdup_def heartbeat_matches_def
  next_in_after_def requested_resend_def heartbeat_response_def desync_text_def unexpected_seq_def inbound_event_def
  advance_next_event_def after_commit_def commit_expected_def retain_pending_def remove_entry_def or_insert_def
  gap_buffer_limit_def resync_event_def buffer_ahead_def realign_def commit_and_drain_def handle_inbound_def
  nanos_def heartbeat_interval_def smap_def session_status_of_def handle_command_def decode_input_def on_timer_def
  blocked_def conclude_def actor_step_def new_actor_def spawn_initiator_def

lemma drain_idle [fix_eval]:
  "map_of (retain_pending (s_next_in s) (s_gap_buffer s)) (s_next_in s) = None \<Longrightarrow>
   drain E s = (s\<lparr>s_gap_buffer := retain_pending (s_next_in s) (s_gap_buffer s)\<rparr>, Ok ())"
  by (subst drain.simps) simp

lemma drain_next [fix_eval]:
  "map_of (retain_pending (s_next_in s) (s_gap_buffer s)) (s_next_in s) = Some f \<Longrightarrow>
   parse_inbound (s_config s) (s_logon_fields s) f = Ok m \<Longrightarrow>
   drain E s = sbind (commit_expected E m f) (\<lambda>_. drain E)
     (s\<lparr>s_gap_buffer := remove_entry (s_next_in s) (retain_pending (s_next_in s) (s_gap_buffer s))\<rparr>)"
  by (subst drain.simps) (auto simp: sbind_apply split: prod.splits result.splits)

end
