(* ===== verification/Fix_Ledger.thy ===== *)
theory Fix_Ledger
  imports Fix_Actor Fix_Port
begin

text \<open>
  The session against its journal. \<open>session_store\<close> extends the contract \<open>store_port\<close> to the
  environment of a session; inside it every method of the actor is shown to keep \<open>live\<close>: the
  counters of the actor are those of the journal, no rival holds a request ID the actor will
  generate, and every frame it ever handed to the socket is in the journal. A method that fails
  keeps \<open>based\<close>, the part about the frames; only a submission can also end \<open>strayed\<close>, after it wrote a
  command of an earlier numbering again. A \<open>rival\<close> is a fingerprint under which a command may take such an ID away
  from the actor: with all fingerprints as rivals the actor's IDs are unused, with those of the
  actor's own form only, a client's command under one of them is refused as a conflict. The
  interpretations on a redb journal behind a worker are in \<open>Fix_Reach\<close>.
\<close>

section \<open>Admin request IDs\<close>

lemma dec_no_colon: "CHR '':'' \<notin> set (dec n)"
proof
  assume "CHR '':'' \<in> set (dec n)"
  then have "of_char (CHR '':'') \<in> set (as_bytes (dec n))"
    unfolding as_bytes_def set_map by (rule imageI)
  then have "is_digit (of_char (CHR '':''))" by (rule dec_digits)
  then show False by (simp add: is_digit_def)
qed

lemma last_separator:
  "xs @ c # ys = xs' @ c # ys' \<Longrightarrow> c \<notin> set ys \<Longrightarrow> c \<notin> set ys' \<Longrightarrow> xs = xs' \<and> ys = ys'"
proof (induction xs arbitrary: xs')
  case Nil
  then show ?case by (cases xs') auto
next
  case (Cons x xs)
  then show ?case by (cases xs') auto
qed

lemma admin_id_inject:
  assumes "admin_id k n e = admin_id k' n' e'"
  shows "k = k' \<and> n = n' \<and> e = e'"
proof -
  have c: "CHR '':'' \<notin> set (dec64 w)" for w by (simp add: dec64_def dec_no_colon)
  have "(k @ '':'' @ dec64 n) @ CHR '':'' # dec64 e = (k' @ '':'' @ dec64 n') @ CHR '':'' # dec64 e'"
    using assms by (simp add: admin_id_def)
  from last_separator [OF this c c] have "k @ CHR '':'' # dec64 n = k' @ CHR '':'' # dec64 n'" "e = e'" by auto
  from last_separator [OF this(1) c c] this(2) show ?thesis by simp
qed

section \<open>The ledger of a journal\<close>

text \<open>What the invariant needs of the abstract journal.\<close>

record ledger =
  out_wires :: "bytes list"
  tx_wires :: "bytes list"
  at_in :: u64
  at_event :: u64
  ids :: "(string \<times> string) set"

text \<open>The request IDs in the journal with the fingerprints of their commands.\<close>

definition prints :: "(string \<rightharpoonup> command_record) \<Rightarrow> (string \<times> string) set" where
  "prints cmds = {(r, fp). map_option cr_fingerprint (cmds r) = Some fp}"

lemma prints_update:
  "cmds r = Some c \<Longrightarrow> cr_fingerprint c' = cr_fingerprint c \<Longrightarrow> prints (cmds(r \<mapsto> c')) = prints cmds"
  "cmds r = None \<Longrightarrow> prints (cmds(r \<mapsto> c)) = insert (r, cr_fingerprint c) (prints cmds)"
  by (auto simp: prints_def split: if_splits)

definition ledger_of :: "journal_log \<Rightarrow> ledger" where
  "ledger_of l = \<lparr>out_wires = map ob_wire (lg_out l), tx_wires = map tr_wire (lg_tx l),
     at_in = lg_next_in l, at_event = lg_next_event l, ids = prints (lg_cmds l)\<rparr>"

definition at_out :: "ledger \<Rightarrow> u64" where
  "at_out g = of_nat (Suc (length (out_wires g)))"

text \<open>
  The IDs the actor generates carry the two counters. No rival holds one because such an ID in the journal
  has an older event number than the last sequence reset, or an older outbound number.
\<close>

definition admin_fresh :: "(string \<Rightarrow> bool) \<Rightarrow> ledger \<Rightarrow> bool" where
  "admin_fresh rival g \<longleftrightarrow> (\<exists>epoch \<le> unat (at_event g). \<forall>k n e fp. (admin_id k n e, fp) \<in> ids g \<longrightarrow> rival fp \<longrightarrow>
     unat e \<le> unat (at_event g) \<and> (unat e < epoch \<or> unat n < unat (at_out g)))"

lemma admin_fresh_unused:
  "admin_fresh rival g \<Longrightarrow> rival fp \<Longrightarrow> (admin_id k (at_out g) (at_event g), fp) \<notin> ids g"
  unfolding admin_fresh_def by (metis leD less_irrefl)

lemma admin_fresh_admin:
  assumes "admin_fresh rival g" "Suc (Suc (length (out_wires g))) < 2 ^ 64"
  shows "admin_fresh rival (g\<lparr>out_wires := out_wires g @ [w], ids := insert (admin_id k (at_out g) (at_event g), fp) (ids g)\<rparr>)"
proof -
  let ?g = "g\<lparr>out_wires := out_wires g @ [w], ids := insert (admin_id k (at_out g) (at_event g), fp) (ids g)\<rparr>"
  have out: "unat (at_out ?g) = Suc (unat (at_out g))"
    using assms(2) by (simp add: at_out_def unat_of_nat_u64 del: of_nat_Suc)
  from assms(1) obtain epoch where e: "epoch \<le> unat (at_event g)"
    "\<And>k n e fp. (admin_id k n e, fp) \<in> ids g \<Longrightarrow> rival fp \<Longrightarrow>
      unat e \<le> unat (at_event g) \<and> (unat e < epoch \<or> unat n < unat (at_out g))"
    unfolding admin_fresh_def by blast
  have "unat e' \<le> unat (at_event ?g) \<and> (unat e' < epoch \<or> unat n' < unat (at_out ?g))"
    if "(admin_id k' n' e', fp') \<in> ids ?g" "rival fp'" for k' n' e' fp'
  proof (cases "admin_id k' n' e' = admin_id k (at_out g) (at_event g)")
    case True
    then show ?thesis using out by (auto dest: admin_id_inject)
  next
    case False
    then show ?thesis using that e(2) [of k' n' e' fp'] out by auto
  qed
  then show ?thesis using e(1) unfolding admin_fresh_def by (intro exI [of _ epoch]) auto
qed

lemma admin_fresh_user:
  assumes "admin_fresh rival g" "Suc (Suc (length (out_wires g))) < 2 ^ 64" "\<not> (rival fp \<and> starts_with r ''session:'')"
  shows "admin_fresh rival (g\<lparr>out_wires := out_wires g @ [w], ids := insert (r, fp) (ids g)\<rparr>)"
proof -
  let ?g = "g\<lparr>out_wires := out_wires g @ [w], ids := insert (r, fp) (ids g)\<rparr>"
  have out: "unat (at_out ?g) = Suc (unat (at_out g))"
    using assms(2) by (simp add: at_out_def unat_of_nat_u64 del: of_nat_Suc)
  have "\<not> (admin_id k n e = r \<and> rival fp)" for k n e
    using assms(3) by (auto simp: admin_id_def)
  then show ?thesis
    using assms(1) out unfolding admin_fresh_def by (fastforce dest: less_SucI)
qed

lemma admin_fresh_event:
  assumes "admin_fresh rival g" "unat e' = Suc (unat (at_event g))"
  shows "admin_fresh rival (g\<lparr>at_in := i, at_event := e'\<rparr>)"
  using assms unfolding admin_fresh_def at_out_def by (fastforce intro: le_SucI)

lemma admin_fresh_reset:
  assumes "admin_fresh rival g" "unat e' = Suc (unat (at_event g))"
  shows "admin_fresh rival \<lparr>out_wires = [], tx_wires = [], at_in = 1, at_event = e', ids = ids g\<rparr>"
  using assms unfolding admin_fresh_def by (fastforce intro!: exI [of _ "unat e'"] simp: less_Suc_eq_le intro: le_SucI)

lemma admin_fresh_same:
  "admin_fresh rival g \<Longrightarrow> out_wires g' = out_wires g \<Longrightarrow> at_event g' = at_event g \<Longrightarrow> ids g' = ids g \<Longrightarrow> admin_fresh rival g'"
  unfolding admin_fresh_def at_out_def by simp

section \<open>Frames in the journal\<close>

text \<open>
  A Logon is journaled with its sensitive values replaced; every other frame is journaled as it is,
  as an outbound record or as a replay transmission.
\<close>

definition redacted_logon :: "session_config \<Rightarrow> field list \<Rightarrow> bytes \<Rightarrow> bytes \<Rightarrow> bool" where
  "redacted_logon cfg logon_fields journal_wire wire \<longleftrightarrow>
     (\<exists>fs. let bs = as_bytes (sc_begin_string cfg) in
        encode_message bs (Field 35 (as_bytes ''A'') # fs) = Ok wire
        \<and> encode_message bs (map (redact_field logon_fields) (Field 35 (as_bytes ''A'') # fs)) = Ok journal_wire)"

definition covered :: "ledger \<Rightarrow> session_config \<Rightarrow> field list \<Rightarrow> bytes \<Rightarrow> bool" where
  "covered g cfg logon_fields wire \<longleftrightarrow> wire \<in> set (out_wires g) \<or> wire \<in> set (tx_wires g)
     \<or> (\<exists>journal_wire \<in> set (out_wires g). redacted_logon cfg logon_fields journal_wire wire)"

lemma covered_mono:
  "covered g cfg lf w \<Longrightarrow> set (out_wires g) \<subseteq> set (out_wires g') \<Longrightarrow> set (tx_wires g) \<subseteq> set (tx_wires g') \<Longrightarrow>
   covered g' cfg lf w"
  unfolding covered_def by blast

section \<open>The contract of the session's store\<close>

lemma map_nth_update: "(map f xs)[i := f (xs ! i)] = map f xs"
  by (metis list_update_id map_update)

definition wires_covered :: "ledger \<Rightarrow> 'st session \<Rightarrow> bool" where
  "wires_covered g s \<longleftrightarrow> (\<forall>w \<in> set (s_wire s). covered g (s_config s) (s_logon_fields s) w)"

definition in_step :: "ledger \<Rightarrow> 'st session \<Rightarrow> bool" where
  "in_step g s \<longleftrightarrow> s_next_in s = at_in g \<and> s_next_event s = at_event g"

locale session_store = store_port "e_apply E" inv view
  for E :: "'st env" and inv and view +
  fixes rival :: "string \<Rightarrow> bool"
  assumes rival_admin: "starts_with fp ''admin:'' \<Longrightarrow> rival fp"
    and recovered: "inv st \<Longrightarrow> e_recover E st = Ok recovery \<Longrightarrow>
    rs_next_out recovery = lg_next_out (view st) \<and> rs_next_in recovery = lg_next_in (view st)
    \<and> rs_next_event recovery = lg_next_event (view st)"
begin

definition books :: "'st session \<Rightarrow> ledger" where
  "books s = ledger_of (view (s_store s))"

definition based :: "'st session \<Rightarrow> bool" where
  "based s \<longleftrightarrow> inv (s_store s) \<and> wires_covered (books s) s \<and> admin_fresh rival (books s)"

definition live :: "'st session \<Rightarrow> bool" where
  "live s \<longleftrightarrow> based s \<and> in_step (books s) s \<and> s_next_out s = at_out (books s)"

text \<open>
  Between the commit of a message and the update of \<open>next_out\<close>: the record with the number
  \<open>seq\<close> and the bytes \<open>w\<close> is in the journal, and the actor's counter is still \<open>seq\<close>.
\<close>

definition committed :: "u64 \<Rightarrow> bytes \<Rightarrow> 'st session \<Rightarrow> bool" where
  "committed seq w s \<longleftrightarrow> based s \<and> in_step (books s) s \<and> s_next_out s = seq
     \<and> at_out (books s) = seq + 1 \<and> w \<in> set (out_wires (books s))"

definition fails :: "session_error option \<Rightarrow> 'st session \<Rightarrow> bool" where
  "fails e s \<longleftrightarrow> based s \<and> (case e of Some e' \<Rightarrow> is_fatal e' \<or> live s | None \<Rightarrow> True)"

lemma fails_fatal: "based s \<Longrightarrow> is_fatal e \<Longrightarrow> fails (Some e) s"
  by (simp add: fails_def)

lemma fails_live: "live s \<Longrightarrow> fails e s"
  by (simp add: fails_def live_def split: option.splits)

lemma fails_panic: "based s \<Longrightarrow> fails None s"
  by (simp add: fails_def)

text \<open>What each store operation does to the ledger.\<close>

lemma ledger_commit_transmission:
  assumes "inv st" "e_apply E n st (CommitTransmission c) = (st', Ok reply)"
  shows "ledger_of (view st') = (ledger_of (view st))\<lparr>tx_wires := tx_wires (ledger_of (view st)) @ [tc_wire c]\<rparr>"
  using commit_transmission [OF assms] by (auto simp: ledger_of_def)

lemma ledger_mark:
  assumes "inv st" "e_apply E n st operation = (st', Ok reply)"
    and "(\<exists>m. operation = MarkOutboundWritten m) \<or> (\<exists>k. operation = MarkTransmissionWritten k)"
  shows "ledger_of (view st') = ledger_of (view st)"
  using assms(3) refines [OF assms(1,2)]
  by (auto simp: ledger_of_def Let_def map_update map_nth_update insert_absorb prints_update
      dest!: sym [of _ "view st'"] split: option.splits if_splits)

lemma ledger_load:
  assumes "inv st" "e_apply E n st operation = (st', Ok reply)"
    and "\<exists>r b e s k. operation \<in> {LoadCommand r, LoadOutboundRange b e, LoadInbound s, LoadTransmission k}"
  shows "ledger_of (view st') = ledger_of (view st)"
  using load [OF assms] by simp

lemma ledger_commit_inbound:
  assumes "inv st" "e_apply E n st (CommitInbound c) = (st', Ok reply)"
  shows "at_in (ledger_of (view st')) = ic_next_in_after c"
    and "add64 (at_event (ledger_of (view st))) 1 = (Ok (at_event (ledger_of (view st'))) :: (store_error, u64) result)"
    and "ledger_of (view st') = (ledger_of (view st))\<lparr>at_in := at_in (ledger_of (view st')),
           at_event := at_event (ledger_of (view st'))\<rparr>"
  using commit_inbound [OF assms] by (simp_all add: ledger_of_def)

lemma ledger_resync:
  assumes "inv st" "e_apply E n st (ResyncInbound c) = (st', Ok reply)"
  shows "at_in (ledger_of (view st')) = ri_next_in_after c"
    and "add64 (at_event (ledger_of (view st))) 1 = (Ok (at_event (ledger_of (view st'))) :: (store_error, u64) result)"
    and "ledger_of (view st') = (ledger_of (view st))\<lparr>at_in := at_in (ledger_of (view st')),
           at_event := at_event (ledger_of (view st'))\<rparr>"
  using refines [OF assms]
  by (auto simp: ledger_of_def log_event_def bindR_eqs dest!: sym [of _ "view st'"] split: if_splits)

lemma ledger_reset:
  assumes "inv st" "e_apply E n st ResetSequences = (st', Ok reply)"
  shows "\<exists>e. add64 (at_event (ledger_of (view st))) 1 = (Ok e :: (store_error, u64) result) \<and> reply = SequencesReset e
    \<and> ledger_of (view st') = \<lparr>out_wires = [], tx_wires = [], at_in = 1, at_event = e, ids = ids (ledger_of (view st))\<rparr>"
  using refines [OF assms] by (auto simp: ledger_of_def bindR_eqs dest!: sym [of _ "view st'"])

text \<open>The rule for a call of the store: a failed one changes nothing the invariant sees.\<close>

lemma store_apply_triple:
  assumes "\<And>s. P s \<Longrightarrow> based s"
    and "\<And>s st reply. P s \<Longrightarrow> inv (s_store s) \<Longrightarrow> e_apply E (s_tick s) (s_store s) operation = (st, Ok reply) \<Longrightarrow>
      inv st \<Longrightarrow> Q reply (s\<lparr>s_store := st, s_tick := Suc (s_tick s)\<rparr>)"
  shows "triple P (store_apply E operation) Q fails"
proof (rule tripleI)
  fix s s' x assume s: "P s" "store_apply E operation s = (s', Ok x)"
  then obtain st where st: "e_apply E (s_tick s) (s_store s) operation = (st, Ok x)"
      "s' = s\<lparr>s_store := st, s_tick := Suc (s_tick s)\<rparr>"
    by (auto simp: store_apply_def split: prod.splits)
  have i: "inv (s_store s)" using assms(1) [OF s(1)] by (simp add: based_def)
  show "Q x s'"
    unfolding st(2) by (rule assms(2) [OF s(1) i st(1) keeps_inv [OF i st(1)]])
next
  fix s s' e assume s: "P s" "store_apply E operation s = (s', Err e)"
  then obtain st e' where st: "e_apply E (s_tick s) (s_store s) operation = (st, Err e')" "e = Store (store_error_string e')"
      "s' = s\<lparr>s_store := st, s_tick := Suc (s_tick s)\<rparr>"
    by (auto simp: store_apply_def split: prod.splits)
  have "based s" using assms(1) s(1) .
  then have "view st = view (s_store s)" "inv st"
    using failed [OF _ st(1)] keeps_inv [OF _ st(1)] by (auto simp: based_def)
  then show "fails (Some e) s'"
    using \<open>based s\<close> st by (simp add: fails_def based_def books_def wires_covered_def)
next
  fix s s' assume s: "P s" "store_apply E operation s = (s', Panic)"
  then obtain st where st: "e_apply E (s_tick s) (s_store s) operation = (st, Panic)"
      "s' = s\<lparr>s_store := st, s_tick := Suc (s_tick s)\<rparr>"
    by (auto simp: store_apply_def split: prod.splits)
  have "based s" using assms(1) s(1) .
  then have "view st = view (s_store s)" "inv st"
    using failed [OF _ st(1)] keeps_inv [OF _ st(1)] by (auto simp: based_def)
  then show "fails None s'"
    using \<open>based s\<close> st by (simp add: fails_def based_def books_def wires_covered_def)
qed

text \<open>Actions that change nothing the invariant sees.\<close>

definition neutral :: "('st session \<Rightarrow> 'st session) \<Rightarrow> bool" where
  "neutral f \<longleftrightarrow> (\<forall>s. s_store (f s) = s_store s \<and> s_wire (f s) = s_wire s \<and> s_config (f s) = s_config s
     \<and> s_logon_fields (f s) = s_logon_fields s \<and> s_next_in (f s) = s_next_in s
     \<and> s_next_out (f s) = s_next_out s \<and> s_next_event (f s) = s_next_event s)"

definition stable :: "('st session \<Rightarrow> bool) \<Rightarrow> bool" where
  "stable P \<longleftrightarrow> (\<forall>f s. neutral f \<longrightarrow> P s \<longrightarrow> P (f s)) \<and> (\<forall>s. P s \<longrightarrow> based s)"

lemma stable_states: "stable based" "stable live" "stable (committed seq w)"
  unfolding stable_def neutral_def
  by (simp_all add: based_def live_def committed_def books_def wires_covered_def in_step_def)

lemma neutral_modify: "stable P \<Longrightarrow> neutral f \<Longrightarrow> triple P (smodify f) (\<lambda>_. P) fails"
  by (rule triple_modify) (simp add: stable_def)

lemma neutral_tick: "stable P \<Longrightarrow> triple P tick (\<lambda>_. P) fails"
proof -
  assume P: "stable P"
  have "neutral (\<lambda>s. s\<lparr>s_tick := Suc (s_tick s)\<rparr>)" by (simp add: neutral_def)
  then show ?thesis using P by (auto simp: triple_def tick_def stable_def)
qed

lemma stable_bind:
  "stable P \<Longrightarrow> triple P m (\<lambda>_. P) fails \<Longrightarrow> (\<And>x. triple P (f x) Q fails) \<Longrightarrow> triple P (sbind m f) Q fails"
  by (rule triple_bind)

lemma neutral_get: "stable P \<Longrightarrow> triple P (sget f) (\<lambda>_. P) fails"
  by (rule triple_get)

lemma neutral_return: "stable P \<Longrightarrow> triple P (sreturn x) (\<lambda>_. P) fails"
  by (rule triple_return)

lemma neutral_fail: "stable P \<Longrightarrow> is_fatal e \<Longrightarrow> triple P (sfail e) Q fails"
  by (rule triple_fail) (simp add: stable_def fails_fatal)

lemma neutral_encode: "stable P \<Longrightarrow> triple P (encode_outbound fs) (\<lambda>_. P) fails"
  by (auto simp: triple_def encode_outbound_def stable_def fails_def split: result.splits)

lemma neutral_lift:
  "stable P \<Longrightarrow> (\<And>e. r = Err e \<Longrightarrow> is_fatal e) \<Longrightarrow> triple P (slift r) (\<lambda>_. P) fails"
  by (cases r) (auto simp: triple_def stable_def fails_def)

lemma neutral_ensure:
  "stable P \<Longrightarrow> is_fatal e \<Longrightarrow> triple P (sensure b e) (\<lambda>_. P) fails"
  by (auto simp: triple_def sensure_def stable_def fails_def)

lemma neutral_log: "stable P \<Longrightarrow> triple P (log_out l) (\<lambda>_. P) fails"
  unfolding log_out_def by (rule neutral_modify) (auto simp: neutral_def)

lemma neutral_set_phase: "stable P \<Longrightarrow> triple P (set_phase p) (\<lambda>_. P) fails"
  unfolding set_phase_def send_event_def
  by (intro stable_bind neutral_modify) (auto simp: neutral_def)

lemma neutral_time: "stable P \<Longrightarrow> triple P (sending_time E') (\<lambda>_. P) fails"
  unfolding sending_time_def by (intro stable_bind neutral_tick neutral_return)

lemma neutral_now: "stable P \<Longrightarrow> triple P (instant_now E') (\<lambda>_. P) fails"
  unfolding instant_now_def by (intro stable_bind neutral_tick neutral_return)

lemma neutral_header: "stable P \<Longrightarrow> triple P (standard_header E' t) (\<lambda>_. P) fails"
  unfolding standard_header_def by (intro stable_bind neutral_get neutral_time neutral_return)

lemma neutral_write_call: "stable P \<Longrightarrow> triple P (write_call E') (\<lambda>_. P) fails"
  unfolding write_call_def
  by (intro stable_bind neutral_tick triple_option neutral_return neutral_fail) simp_all

lemmas neutrals = neutral_set_phase neutral_log neutral_time neutral_now neutral_get neutral_return
  neutral_fail neutral_header neutral_encode neutral_write_call

section \<open>Sending\<close>

definition holds :: "bytes \<Rightarrow> 'st session \<Rightarrow> bool" where
  "holds w s \<longleftrightarrow> covered (books s) (s_config s) (s_logon_fields s) w"

lemma stable_and: "stable P \<Longrightarrow> (\<And>f s. neutral f \<Longrightarrow> C s \<Longrightarrow> C (f s)) \<Longrightarrow> stable (\<lambda>s. P s \<and> C s)"
  unfolding stable_def by blast

lemma stable_holds: "stable P \<Longrightarrow> stable (\<lambda>s. P s \<and> holds w s)"
  by (rule stable_and) (simp_all add: neutral_def holds_def books_def)

lemma based_write: "based s \<Longrightarrow> holds w s \<Longrightarrow> based (s\<lparr>s_wire := s_wire s @ [w]\<rparr>)"
  by (auto simp: based_def wires_covered_def holds_def books_def)

lemma writable_states:
  "live s \<Longrightarrow> holds w s \<Longrightarrow> live (s\<lparr>s_wire := s_wire s @ [w]\<rparr>)"
  "committed q v s \<Longrightarrow> holds w s \<Longrightarrow> committed q v (s\<lparr>s_wire := s_wire s @ [w]\<rparr>)"
  "holds w (s\<lparr>s_wire := ws\<rparr>) = holds w s"
  using based_write [of s w] by (auto simp: live_def committed_def holds_def books_def in_step_def)

lemma write_wire_triple:
  assumes P: "stable P" and w: "\<And>s. P s \<Longrightarrow> P (s\<lparr>s_wire := s_wire s @ [w]\<rparr>)"
  shows "triple P (write_wire E' w) (\<lambda>_. P) fails"
  unfolding write_wire_def
  by (intro stable_bind P neutral_log neutral_write_call neutral_now neutral_modify triple_modify w)
    (simp_all add: neutral_def)

lemma write_live: "triple (\<lambda>s. live s \<and> holds w s) (write_wire E' w) (\<lambda>_ s. live s \<and> holds w s) fails"
  by (rule write_wire_triple [OF stable_holds]) (simp_all add: stable_states writable_states)

lemma write_committed:
  "triple (\<lambda>s. committed q v s \<and> holds w s) (write_wire E' w) (\<lambda>_ s. committed q v s \<and> holds w s) fails"
  by (rule write_wire_triple [OF stable_holds]) (simp_all add: stable_states writable_states)

lemma ledger_commit_outbound:
  assumes "inv st" "e_apply E n st (CommitOutbound c) = (st', Ok reply)"
  shows "(\<exists>old. lg_cmds (view st) (oc_request_id c) = Some old \<and> cr_fingerprint old = oc_fingerprint c
      \<and> reply = Command old \<and> view st' = view st) \<or>
    (reply = Command (new_command c)
      \<and> oc_msg_seq_num c = at_out (ledger_of (view st))
      \<and> Suc (Suc (length (out_wires (ledger_of (view st))))) < 2 ^ 64
      \<and> ledger_of (view st') = (ledger_of (view st))\<lparr>out_wires := out_wires (ledger_of (view st)) @ [oc_wire c],
          ids := insert (oc_request_id c, oc_fingerprint c) (ids (ledger_of (view st)))\<rparr>)"
  using commit_outbound [OF assms] room [OF keeps_inv [OF assms]]
  by (auto simp: ledger_of_def at_out_def lg_next_out_def prints_update new_command_def)

lemma at_out_append: "at_out (g\<lparr>out_wires := out_wires g @ [w], ids := r\<rparr>) = at_out g + 1"
  by (simp add: at_out_def)

text \<open>A commit under an unused ID, whether the actor made it or a client.\<close>

lemma committed_new:
  assumes s: "live s" and g: "books s' = (books s)\<lparr>out_wires := out_wires (books s) @ [w], ids := insert (r, fp) (ids (books s))\<rparr>"
    and r: "r = admin_id k (s_next_out s) (s_next_event s) \<or> \<not> (rival fp \<and> starts_with r ''session:'')"
    and len: "Suc (Suc (length (out_wires (books s)))) < 2 ^ 64"
    and s': "inv (s_store s')" "s_wire s' = s_wire s" "s_config s' = s_config s" "s_logon_fields s' = s_logon_fields s"
      "s_next_in s' = s_next_in s" "s_next_out s' = s_next_out s" "s_next_event s' = s_next_event s"
  shows "committed (s_next_out s) w s'"
proof -
  have live: "s_next_out s = at_out (books s)" "s_next_event s = at_event (books s)" "s_next_in s = at_in (books s)"
      "admin_fresh rival (books s)" "wires_covered (books s) s"
    using s by (auto simp: live_def in_step_def based_def)
  have "admin_fresh rival (books s')"
    using r
  proof
    assume "r = admin_id k (s_next_out s) (s_next_event s)"
    then show ?thesis unfolding g live(1,2) using admin_fresh_admin [OF live(4) len] by simp
  next
    assume "\<not> (rival fp \<and> starts_with r ''session:'')"
    then show ?thesis unfolding g using admin_fresh_user [OF live(4) len] by simp
  qed
  moreover have "wires_covered (books s') s'"
    using live(5) s' unfolding wires_covered_def g by (auto intro: covered_mono)
  ultimately show ?thesis
    using s' live by (simp add: committed_def based_def in_step_def g at_out_append)
qed

lemma commit_command_triple:
  assumes "\<And>s. P s \<Longrightarrow> live s \<and> (\<exists>k. r = admin_id k (s_next_out s) (s_next_event s))"
    and "starts_with fp ''admin:''"
  shows "triple P (commit_command E r fp cl w wrong) (\<lambda>c. committed (cr_msg_seq_num c) w) fails"
  unfolding commit_command_def
proof (rule triple_bind [where R = "\<lambda>n s. P s \<and> n = s_next_out s"])
  show "triple P (sget s_next_out) (\<lambda>n s. P s \<and> n = s_next_out s) fails" by (rule triple_get) simp
  fix n
  let ?op = "CommitOutbound \<lparr>oc_request_id = r, oc_fingerprint = fp, oc_cl_ord_id = cl, oc_msg_seq_num = n, oc_wire = w\<rparr>"
  let ?Q = "\<lambda>reply s. \<exists>c. reply = Command c \<and> committed (cr_msg_seq_num c) w s"
  show "triple (\<lambda>s. P s \<and> n = s_next_out s)
     (sbind (store_apply E ?op) (\<lambda>reply. case reply of Command command \<Rightarrow> sreturn command | _ \<Rightarrow> sfail (Store wrong)))
     (\<lambda>c. committed (cr_msg_seq_num c) w) fails"
  proof (rule triple_bind [where R = ?Q])
    show "triple (\<lambda>s. P s \<and> n = s_next_out s) (store_apply E ?op) ?Q fails"
    proof (rule store_apply_triple)
      fix s assume "P s \<and> n = s_next_out s"
      then show "based s" using assms(1) by (auto simp: live_def)
    next
      fix s st reply
      assume s: "P s \<and> n = s_next_out s" "inv (s_store s)" "inv st"
        and ok: "e_apply E (s_tick s) (s_store s) ?op = (st, Ok reply)"
      then obtain k where l: "live s" "r = admin_id k (s_next_out s) (s_next_event s)" using assms(1) by blast
      then have "(r, fp) \<notin> ids (books s)"
        using admin_fresh_unused [of rival "books s" fp] rival_admin [OF assms(2)] by (simp add: live_def based_def in_step_def)
      then have "\<nexists>old. lg_cmds (view (s_store s)) r = Some old \<and> cr_fingerprint old = fp"
        by (auto simp: books_def ledger_of_def prints_def)
      then have new: "reply = Command (new_command \<lparr>oc_request_id = r, oc_fingerprint = fp, oc_cl_ord_id = cl,
            oc_msg_seq_num = n, oc_wire = w\<rparr>)"
        "Suc (Suc (length (out_wires (books s)))) < 2 ^ 64"
        "ledger_of (view st) = (books s)\<lparr>out_wires := out_wires (books s) @ [w], ids := insert (r, fp) (ids (books s))\<rparr>"
        using ledger_commit_outbound [OF s(2) ok] by (auto simp: books_def)
      then show "?Q reply (s\<lparr>s_store := st, s_tick := Suc (s_tick s)\<rparr>)"
        using committed_new [OF l(1), where s' = "s\<lparr>s_store := st, s_tick := Suc (s_tick s)\<rparr>" and w = w and r = r and fp = fp and k = k] l s
        by (auto simp: books_def new_command_def)
    qed
  next
    fix reply
    show "triple (?Q reply) (case reply of Command command \<Rightarrow> sreturn command | _ \<Rightarrow> sfail (Store wrong))
      (\<lambda>c. committed (cr_msg_seq_num c) w) fails"
      by (cases reply) (auto simp: triple_def)
  qed
qed

lemma mark_written_triple: "triple (committed q w) (mark_written E r n) (\<lambda>_. committed q w) fails"
  unfolding mark_written_def
  by (rule store_apply_triple)
    (auto simp: committed_def based_def in_step_def wires_covered_def books_def ledger_mark)

lemma advance_triple: "triple (committed q w) (advance_next_out q) (\<lambda>_. live) fails"
proof (rule tripleI)
  fix s s' and u assume s: "committed q w s" "advance_next_out q s = (s', Ok u)"
  then have "s' = s\<lparr>s_next_out := q + 1\<rparr>"
    by (auto simp: advance_next_out_def sbind_apply add64_def split: if_splits)
  then show "live s'"
    using s by (simp add: committed_def live_def based_def in_step_def wires_covered_def books_def)
qed (auto simp: advance_next_out_def sbind_apply add64_def committed_def fails_def split: if_splits)

lemma send_committed_triple:
  assumes P: "\<And>s. P s \<Longrightarrow> live s \<and> (\<exists>k. r = admin_id k (s_next_out s) (s_next_event s))
      \<and> (jw = w \<or> redacted_logon (s_config s) (s_logon_fields s) jw w)"
    and fp: "starts_with fp ''admin:''"
    and sent: "\<And>P. stable P \<Longrightarrow> triple P sent (\<lambda>_. P) fails"
  shows "triple P (send_committed E r fp jw w sent wrong) (\<lambda>_. live) fails"
  unfolding send_committed_def
proof (rule triple_bind)
  let ?R = "\<lambda>c s. committed (cr_msg_seq_num c) jw s \<and> holds w s"
  show "triple P (commit_command E r fp '''' jw wrong) ?R fails"
  proof -
    have "triple P (commit_command E r fp '''' jw wrong) (\<lambda>c. committed (cr_msg_seq_num c) jw) fails"
      using P fp by (intro commit_command_triple) blast+
    moreover have "s_config s' = s_config s \<and> s_logon_fields s' = s_logon_fields s"
      if "commit_command E r fp '''' jw wrong s = (s', x)" for s s' x
      using that by (auto simp: commit_command_def sbind_apply store_apply_def
          split: prod.splits result.splits store_reply.splits)
    ultimately show ?thesis
      using P unfolding triple_def
      by (fastforce simp: holds_def covered_def committed_def split: prod.splits result.splits)
  qed
  fix c
  have stable: "stable (committed q v)" "stable (\<lambda>s. committed q v s \<and> holds w s)" for q v
    by (simp_all add: stable_states stable_holds)
  show "triple (?R c) (sbind (write_wire E w) (\<lambda>_. sbind sent (\<lambda>_. sbind (mark_written E r (cr_msg_seq_num c))
      (\<lambda>_. advance_next_out (cr_msg_seq_num c))))) (\<lambda>_. live) fails"
    by (rule triple_bind [OF write_committed], rule triple_bind [OF sent [OF stable(2)]],
        rule triple_bind [where R = "\<lambda>_. committed (cr_msg_seq_num c) jw"],
        rule triple_weaken [OF mark_written_triple]) (auto intro: advance_triple)
qed

section \<open>The methods\<close>

lemmas live_stable = stable_states(2)

lemma live_bind:
  "triple live m (\<lambda>_. live) fails \<Longrightarrow> (\<And>x. triple live (f x) Q fails) \<Longrightarrow> triple live (sbind m f) Q fails"
  by (rule triple_bind)

lemma live_get_bind:
  "(\<And>x. triple (\<lambda>s. live s \<and> x = g s) (f x) Q fails) \<Longrightarrow> triple live (sbind (sget g) f) Q fails"
  unfolding triple_def by (simp add: sbind_apply)

text \<open>\<open>live_admin\<close> is the shape of the admin messages: header, encode, send.\<close>

lemma live_admin:
  assumes "\<And>P. stable P \<Longrightarrow> triple P sent (\<lambda>_. P) fails" "\<And>s. starts_with (fp s) ''admin:''"
  shows "triple live (sbind (sget (\<lambda>s. s)) (\<lambda>s.
      send_committed E (admin_id k (s_next_out s) (s_next_event s)) (fp s) w w sent wrong)) (\<lambda>_. live) fails"
  using assms by (intro live_get_bind send_committed_triple) auto

lemmas live_neutrals = neutrals [OF live_stable]

lemma live_heartbeat: "triple live (send_heartbeat_response E i) (\<lambda>_. live) fails"
  unfolding send_heartbeat_response_def
  by (intro live_bind live_neutrals live_admin neutral_return) simp_all

lemma live_resend_request: "triple live (send_resend_request E q) (\<lambda>_. live) fails"
  unfolding send_resend_request_def
  by (intro live_bind live_neutrals live_admin neutral_return) simp_all

lemma live_test_request: "triple live (send_test_request E t) (\<lambda>_. live) fails"
proof -
  have send: "triple live (sbind (sget (\<lambda>s. s)) (\<lambda>s.
     sbind (send_committed E (admin_id ''test-request'' (s_next_out s) (s_next_event s))
       (''admin:1:'' @ dec64 (s_next_out s) @ '':'' @ i) w w
       (sreturn ()) ''TestRequest commit returned the wrong record type'') (\<lambda>_.
     sbind (instant_now E) (\<lambda>now.
     smodify (\<lambda>s. s\<lparr>s_test_request := Some \<lparr>to_id = i, to_deadline = now + t\<rparr>\<rparr>))))) (\<lambda>_. live) fails" for i w
    by (rule live_get_bind, rule triple_bind [where R = "\<lambda>_. live"], rule send_committed_triple)
      (auto intro!: live_bind live_neutrals neutral_return neutral_modify live_stable simp: neutral_def)
  show ?thesis
    unfolding send_test_request_def by (intro live_bind live_neutrals send)
qed

lemma live_ensure: "is_fatal e \<or> \<not> is_fatal e \<Longrightarrow> triple live (sensure b e) (\<lambda>_. live) fails"
  by (auto simp: triple_def sensure_def fails_live)

lemma live_logout: "triple live (send_logout E reason) (\<lambda>_. live) fails"
proof -
  have send: "triple live (sbind (sget (\<lambda>s. s)) (\<lambda>s.
     sbind (send_committed E (admin_id ''logout'' (s_next_out s) (s_next_event s))
       (''admin:5:'' @ dec64 (s_next_out s)) w w
       (sreturn ()) ''Logout commit returned the wrong record type'') (\<lambda>_.
     set_phase LogoutSent))) (\<lambda>_. live) fails" for w
    by (rule live_get_bind, rule triple_bind [where R = "\<lambda>_. live"], rule send_committed_triple)
      (auto intro!: live_neutrals neutral_return)
  show ?thesis
    unfolding send_logout_def by (intro live_bind live_neutrals live_ensure send) simp
qed

lemma live_transmission: "triple live (write_replay_transmission E q k w) (\<lambda>_. live) fails"
  unfolding write_replay_transmission_def
proof (rule triple_bind [where R = "\<lambda>reply s. \<exists>t. reply = Transmission t \<and> live s \<and> holds w s"])
  show "triple live (store_apply E (CommitTransmission \<lparr>tc_msg_seq_num = q, tc_kind = k, tc_wire = w\<rparr>))
     (\<lambda>reply s. \<exists>t. reply = Transmission t \<and> live s \<and> holds w s) fails"
  proof (rule store_apply_triple)
    fix s st reply
    assume s: "live s" "inv (s_store s)" "inv st" and ok: "e_apply E (s_tick s) (s_store s)
        (CommitTransmission \<lparr>tc_msg_seq_num = q, tc_kind = k, tc_wire = w\<rparr>) = (st, Ok reply)"
    have "ledger_of (view st) = (books s)\<lparr>tx_wires := tx_wires (books s) @ [w]\<rparr>"
      using ledger_commit_transmission [OF s(2) ok] by (simp add: books_def)
    moreover obtain t where "reply = Transmission t" using commit_transmission [OF s(2) ok] by blast
    ultimately show "\<exists>t. reply = Transmission t \<and> live (s\<lparr>s_store := st, s_tick := Suc (s_tick s)\<rparr>)
        \<and> holds w (s\<lparr>s_store := st, s_tick := Suc (s_tick s)\<rparr>)"
      using s by (auto simp: live_def based_def in_step_def holds_def books_def wires_covered_def at_out_def
          covered_def intro: admin_fresh_same)
  qed (simp add: live_def)
  fix reply
  show "triple (\<lambda>s. \<exists>t. reply = Transmission t \<and> live s \<and> holds w s)
     (case reply of Transmission t \<Rightarrow>
         sbind (write_wire E w) (\<lambda>_.
         sbind (store_apply E (MarkTransmissionWritten (tr_id t))) (\<lambda>_. sreturn ()))
     | _ \<Rightarrow> sfail (Store ''transmission commit returned the wrong record type'')) (\<lambda>_. live) fails"
  proof (cases reply)
    case (Transmission t)
    have "triple (\<lambda>s. live s \<and> holds w s) (store_apply E (MarkTransmissionWritten (tr_id t))) (\<lambda>_. live) fails"
      by (rule store_apply_triple)
        (auto simp: live_def based_def in_step_def wires_covered_def books_def ledger_mark)
    then show ?thesis
      unfolding Transmission by (auto intro!: triple_bind [OF write_live] triple_bind [where R = "\<lambda>_. live"] triple_return)
  qed (auto simp: triple_def)
qed

lemma required_value_fatal: "required_value m t = Err e \<Longrightarrow> is_fatal e"
  by (auto simp: required_value_def split: list.splits)

lemma required_u64_fatal: "required_u64 m t = Err e \<Longrightarrow> is_fatal e"
  by (auto simp: required_u64_def bindR_eqs dest: required_value_fatal)

lemma parse_frame_or_fatal: "parse_frame_or f = Err e \<Longrightarrow> is_fatal e"
  by (auto simp: parse_frame_or_def)

lemmas fatals = required_value_fatal required_u64_fatal parse_frame_or_fatal

lemma live_lift: "(\<And>e. r = Err e \<Longrightarrow> is_fatal e) \<Longrightarrow> triple live (slift r) (\<lambda>_. live) fails"
  using neutral_lift [OF live_stable] .

lemma live_replay_fields: "triple live (replay_fields E' t fs) (\<lambda>_. live) fails"
  by (induction fs) (auto simp del: action_apply intro!: live_bind live_neutrals)

lemma live_application_replay: "triple live (write_application_replay E w) (\<lambda>_. live) fails"
  unfolding write_application_replay_def
  by (intro live_bind live_lift live_replay_fields live_neutrals live_transmission) (auto dest: fatals)

lemma live_gap_fill: "triple live (write_gap_fill E a b) (\<lambda>_. live) fails"
  unfolding write_gap_fill_def by (intro live_bind live_neutrals live_transmission)

lemma live_option:
  "triple P m (\<lambda>_. live) fails \<Longrightarrow> (\<And>y. triple P (f y) (\<lambda>_. live) fails) \<Longrightarrow>
   triple P (case x of None \<Rightarrow> m | Some y \<Rightarrow> f y) (\<lambda>_. live) fails"
  by (cases x) simp_all

lemma live_replay_loop: "triple live (replay_loop E records g ss) (\<lambda>_. live) fails"
proof (induction ss arbitrary: g)
  case (Cons q ss)
  have app: "triple live (sbind (case g of None \<Rightarrow> sreturn () | Some start \<Rightarrow> write_gap_fill E start q) (\<lambda>_.
      sbind (write_application_replay E w) (\<lambda>_. replay_loop E records None ss))) (\<lambda>_. live) fails" for w
    by (intro live_bind live_option live_neutrals live_gap_fill live_application_replay Cons.IH)
  show ?case
    by (cases "records q") (use Cons.IH app in \<open>simp_all del: action_apply\<close>)
qed (simp add: live_neutrals del: action_apply)

lemma live_replay: "triple live (replay_validated_range E b e) (\<lambda>_. live) fails"
  unfolding replay_validated_range_def
proof (rule live_bind)
  show "triple live (store_apply E (LoadOutboundRange b e)) (\<lambda>_. live) fails"
    by (rule store_apply_triple)
      (auto simp: live_def based_def in_step_def wires_covered_def books_def ledger_load)
  fix reply
  have last: "triple live (case g of None \<Rightarrow> sreturn () | Some start \<Rightarrow>
       sbind (slift (add64 e 1)) (\<lambda>after. write_gap_fill E start after)) (\<lambda>_. live) fails" for g
    by (intro live_option live_bind live_neutrals live_gap_fill live_lift) simp
  show "triple live (case reply of
       Outbound records \<Rightarrow>
         sbind (replay_loop E (map_of (rev (map (\<lambda>r. (cr_msg_seq_num (ob_command r), r)) records)))
           None (seq_range b e)) (\<lambda>gap_start.
         case gap_start of None \<Rightarrow> sreturn ()
         | Some start \<Rightarrow> sbind (slift (add64 e 1)) (\<lambda>after. write_gap_fill E start after))
     | _ \<Rightarrow> sfail (Store ''outbound range query returned the wrong record type'')) (\<lambda>_. live) fails"
    by (cases reply) (auto simp del: action_apply intro!: live_bind live_replay_loop last live_neutrals)
qed

section \<open>Inbound messages\<close>

text \<open>Between the commit of an inbound message and the update of the two counters.\<close>

definition event_due :: "u64 \<Rightarrow> 'st session \<Rightarrow> bool" where
  "event_due i s \<longleftrightarrow> based s \<and> s_next_out s = at_out (books s) \<and> at_in (books s) = i
     \<and> add64 (s_next_event s) 1 = (Ok (at_event (books s)) :: (store_error, u64) result)"

definition input_due :: "u64 \<Rightarrow> 'st session \<Rightarrow> bool" where
  "input_due i s \<longleftrightarrow> based s \<and> s_next_out s = at_out (books s) \<and> at_in (books s) = i
     \<and> s_next_event s = at_event (books s)"

lemma event_due_new:
  assumes s: "live s" "inv st" and e: "add64 (at_event (books s)) 1 = (Ok e :: (store_error, u64) result)"
    and st: "ledger_of (view st) = (books s)\<lparr>at_in := i, at_event := e\<rparr>"
  shows "event_due i (s\<lparr>s_store := st, s_tick := n\<rparr>)"
proof -
  have "admin_fresh rival (ledger_of (view st))"
    unfolding st using s(1) add64_Ok [OF e] by (intro admin_fresh_event) (auto simp: live_def based_def)
  then show ?thesis
    using s e st by (auto simp: event_due_def live_def based_def in_step_def books_def wires_covered_def
        at_out_def intro: covered_mono)
qed

lemma commit_inbound_triple:
  "triple live (store_apply E (CommitInbound c)) (\<lambda>_. event_due (ic_next_in_after c)) fails"
proof (rule store_apply_triple)
  fix s st reply
  assume s: "live s" "inv (s_store s)" "inv st"
    and ok: "e_apply E (s_tick s) (s_store s) (CommitInbound c) = (st, Ok reply)"
  show "event_due (ic_next_in_after c) (s\<lparr>s_store := st, s_tick := Suc (s_tick s)\<rparr>)"
    using event_due_new [OF s(1,3)] ledger_commit_inbound [OF s(2) ok] by (metis books_def)
qed (simp add: live_def)

lemma resync_triple:
  "triple live (store_apply E (ResyncInbound c)) (\<lambda>_. event_due (ri_next_in_after c)) fails"
proof (rule store_apply_triple)
  fix s st reply
  assume s: "live s" "inv (s_store s)" "inv st"
    and ok: "e_apply E (s_tick s) (s_store s) (ResyncInbound c) = (st, Ok reply)"
  show "event_due (ri_next_in_after c) (s\<lparr>s_store := st, s_tick := Suc (s_tick s)\<rparr>)"
    using event_due_new [OF s(1,3)] ledger_resync [OF s(2) ok] by (metis books_def)
qed (simp add: live_def)

lemma advance_event_triple:
  "triple (\<lambda>s. event_due i s \<and> s_next_in s = j) advance_next_event
     (\<lambda>_ s. input_due i s \<and> s_next_in s = j) fails"
proof (rule tripleI)
  fix s s' and u assume s: "event_due i s \<and> s_next_in s = j" "advance_next_event s = (s', Ok u)"
  then have "s' = s\<lparr>s_next_event := at_event (books s)\<rparr>"
    by (auto simp: advance_next_event_def sbind_apply event_due_def add64_def split: if_splits)
  then show "input_due i s' \<and> s_next_in s' = j"
    using s by (simp add: input_due_def event_due_def based_def books_def wires_covered_def)
qed (auto simp: advance_next_event_def sbind_apply event_due_def add64_def fails_def split: if_splits)

lemma input_due_live: "input_due i s \<Longrightarrow> live (s\<lparr>s_next_in := i\<rparr>)"
  "input_due i s \<Longrightarrow> s_next_in s = i \<Longrightarrow> live s"
  by (auto simp: input_due_def live_def in_step_def based_def books_def wires_covered_def)

lemma event_live: "triple (\<lambda>s. event_due i s \<and> s_next_in s = i) advance_next_event (\<lambda>_. live) fails"
  by (rule triple_weaken [OF advance_event_triple [of i i]]) (auto intro: input_due_live)

lemma event_due_next: "event_due i s \<Longrightarrow> event_due i (s\<lparr>s_next_in := j\<rparr>)"
  by (simp add: event_due_def based_def books_def wires_covered_def)

lemma heartbeat_matches_fatal: "heartbeat_matches cfg mt m = Err e \<Longrightarrow> is_fatal e"
  by (auto simp: heartbeat_matches_def bindR_eqs dest: fatals split: if_splits)

lemma next_in_after_fatal: "next_in_after mt m q b = Err e \<Longrightarrow> is_fatal e"
  by (auto simp: next_in_after_def bindR_eqs dest: fatals split: if_splits)

lemma requested_resend_fatal: "requested_resend mt m n = Err e \<Longrightarrow> is_fatal e"
proof -
  have "validate_replay_range n b q = Err e' \<Longrightarrow> is_fatal e'" for b q e'
    by (simp add: validate_replay_range_def Let_def split: if_splits) (drule sym, simp)+
  then show "requested_resend mt m n = Err e \<Longrightarrow> is_fatal e"
    by (simp add: requested_resend_def bindR_eqs split: if_splits) (metis required_u64_fatal)
qed

lemma heartbeat_response_fatal: "heartbeat_response mt m = Err e \<Longrightarrow> is_fatal e"
  by (auto simp: heartbeat_response_def bindR_eqs dest: fatals split: if_splits)

lemma parse_inbound_fatal: "parse_inbound cfg lf f = Err e \<Longrightarrow> is_fatal e"
  by (auto simp: parse_inbound_def bindR_eqs dest: fatals split: if_splits option.splits)

lemmas inbound_fatals = fatals heartbeat_matches_fatal next_in_after_fatal requested_resend_fatal
  heartbeat_response_fatal parse_inbound_fatal

lemma live_modify: "neutral f \<Longrightarrow> triple live (smodify f) (\<lambda>_. live) fails"
  by (rule neutral_modify [OF live_stable])

lemma live_after_commit: "triple live (after_commit E mt m resend response) (\<lambda>_. live) fails"
proof -
  have logon: "triple live (if b then sbind (log_out l) (\<lambda>_. set_phase p) else sreturn ()) (\<lambda>_. live) fails" for b l p
    by (intro triple_if live_bind live_neutrals)
  have logout: "triple live (if b then sbind (log_out l) (\<lambda>_. sbind (sget s_phase) (\<lambda>phase.
      sbind (if phase \<noteq> LogoutSent then send_logout E None else sreturn ()) (\<lambda>_. set_phase p)))
      else sreturn ()) (\<lambda>_. live) fails" for b l p
    by (intro triple_if live_bind live_neutrals live_logout)
  have test: "neutral (\<lambda>s. case (s_test_request s, values_of m 112) of
       (Some outstanding, test_req_id # _) \<Rightarrow>
         if mt = ''0'' \<and> as_bytes (to_id outstanding) = test_req_id then s\<lparr>s_test_request := None\<rparr> else s
     | _ \<Rightarrow> s)"
    by (auto simp: neutral_def split: option.splits list.splits)
  have replay: "triple live (case resend of None \<Rightarrow> sreturn () | Some (b, e) \<Rightarrow> replay_validated_range E b e) (\<lambda>_. live) fails"
    by (cases resend) (auto simp del: action_apply intro: live_neutrals live_replay)
  show ?thesis
    unfolding after_commit_def
    by (intro live_bind live_neutrals logon live_modify test logout replay live_option live_heartbeat)
qed

lemma live_commit_expected: "triple live (commit_expected E m f) (\<lambda>_. live) fails"
proof -
  have commit: "triple live (sbind (store_apply E (CommitInbound \<lparr>ic_msg_seq_num = seq, ic_next_in_after = i,
       ic_msg_type = mt, ic_wire = f, ic_event = ev\<rparr>)) (\<lambda>_.
     sbind (smodify (\<lambda>s. s\<lparr>s_next_in := i\<rparr>)) (\<lambda>_.
     sbind advance_next_event (\<lambda>_.
     after_commit E mt m resend response)))) (\<lambda>_. live) fails" for seq i mt ev resend response
  proof (rule triple_bind [OF commit_inbound_triple])
    show "triple (event_due (ic_next_in_after \<lparr>ic_msg_seq_num = seq, ic_next_in_after = i,
       ic_msg_type = mt, ic_wire = f, ic_event = ev\<rparr>)) (sbind (smodify (\<lambda>s. s\<lparr>s_next_in := i\<rparr>)) (\<lambda>_.
     sbind advance_next_event (\<lambda>_. after_commit E mt m resend response))) (\<lambda>_. live) fails"
      by (rule triple_bind [where R = "\<lambda>_ s. event_due i s \<and> s_next_in s = i"],
          rule triple_modify, simp add: event_due_next,
          rule triple_bind [OF event_live]) (rule live_after_commit)
  qed
  have guard: "triple live (if b then sbind (sensure b' e) (\<lambda>_. log_out l) else sreturn ()) (\<lambda>_. live) fails"
    if "is_fatal e" for b b' e l
    using that by (intro triple_if live_bind live_neutrals neutral_ensure live_stable)
  show ?thesis
    unfolding commit_expected_def
    by (intro live_bind live_lift live_neutrals guard commit)
      (auto dest: inbound_fatals simp: unexpected_seq_def)
qed

lemma neutral_gap: "neutral (\<lambda>s. s\<lparr>s_gap_buffer := f s\<rparr>)"
  by (simp add: neutral_def)

lemma live_gap: "live s \<Longrightarrow> live (s\<lparr>s_gap_buffer := b\<rparr>)"
  using live_stable neutral_gap [of "\<lambda>_. b"] by (auto simp: stable_def)

lemma live_drain: "triple live (drain E) (\<lambda>_. live) fails"
proof -
  have "case drain E s of (s', r) \<Rightarrow>
     (case r of Ok _ \<Rightarrow> live s' | Err e \<Rightarrow> fails (Some e) s' | Panic \<Rightarrow> fails None s')" if "live s" for s
    using that
  proof (induction "length (s_gap_buffer s)" arbitrary: s rule: less_induct)
    case less
    let ?p = "retain_pending (s_next_in s) (s_gap_buffer s)"
    let ?s = "s\<lparr>s_gap_buffer := remove_entry (s_next_in s) ?p\<rparr>"
    have l: "live ?s" by (rule live_gap [OF less.prems])
    show ?case
    proof (cases "map_of ?p (s_next_in s)")
      case None
      then show ?thesis using live_gap [OF less.prems] by (subst drain.simps) simp
    next
      case (Some f)
      show ?thesis
      proof (cases "parse_inbound (s_config s) (s_logon_fields s) f")
        case (Ok m)
        obtain s' r where c: "commit_expected E m f ?s = (s', r)" by fastforce
        note step = live_commit_expected [of m f, unfolded triple_def, rule_format, OF l, unfolded c]
        show ?thesis
        proof (cases r)
          case r: (Ok u)
          have "length (s_gap_buffer s') < length (s_gap_buffer s)"
            using remove_entry_shorter [OF Some] length_retain_pending [of "s_next_in s" "s_gap_buffer s"]
              commit_expected_frame(1) [OF c] by simp
          then show ?thesis
            using less.hyps step r Some Ok c by (subst drain.simps) simp
        qed (use step Some Ok c in \<open>subst drain.simps, simp\<close>)+
      next
        case (Err e)
        then show ?thesis
          using Some l by (subst drain.simps) (simp add: fails_live)
      next
        case Panic
        then show ?thesis
          using Some l by (subst drain.simps) (simp add: fails_live)
      qed
    qed
  qed
  then show ?thesis by (simp add: triple_def)
qed

lemma live_commit_and_drain: "triple live (commit_and_drain E m f) (\<lambda>_. live) fails"
  unfolding commit_and_drain_def
  by (intro live_bind live_commit_expected live_drain live_neutrals triple_if)

lemma live_buffer_ahead: "triple live (buffer_ahead E q f) (\<lambda>_. live) fails"
  unfolding buffer_ahead_def
  by (intro live_bind live_neutrals live_ensure live_modify neutral_gap triple_if live_resend_request) simp

lemma live_realign: "triple live (realign E q) (\<lambda>_. live) fails"
proof -
  have tail: "triple (event_due q) (sbind advance_next_event (\<lambda>_. smodify (\<lambda>s. s\<lparr>s_next_in := q\<rparr>))) (\<lambda>_. live) fails"
    unfolding triple_def
  proof (intro allI impI)
    fix s assume s: "event_due q s"
    have "triple (\<lambda>t. event_due q t \<and> s_next_in t = s_next_in s)
        (sbind advance_next_event (\<lambda>_. smodify (\<lambda>s. s\<lparr>s_next_in := q\<rparr>))) (\<lambda>_. live) fails"
      by (rule triple_bind [OF advance_event_triple]) (auto intro!: triple_modify input_due_live)
    with s show "case sbind advance_next_event (\<lambda>_. smodify (\<lambda>s. s\<lparr>s_next_in := q\<rparr>)) s of (s', r) \<Rightarrow>
       (case r of Ok x \<Rightarrow> live s' | Err e \<Rightarrow> fails (Some e) s' | Panic \<Rightarrow> fails None s')"
      by (simp add: triple_def)
  qed
  have resync: "triple live (sbind (store_apply E (ResyncInbound \<lparr>ri_next_in_after = q, ri_event = ev\<rparr>)) (\<lambda>_.
     sbind advance_next_event (\<lambda>_. smodify (\<lambda>s. s\<lparr>s_next_in := q\<rparr>)))) (\<lambda>_. live) fails" for ev
    by (rule triple_bind [OF resync_triple]) (simp add: tail)
  show ?thesis
    unfolding realign_def by (intro live_bind live_neutrals resync)
qed

lemma live_load: "\<exists>r b e q k. operation \<in> {LoadCommand r, LoadOutboundRange b e, LoadInbound q, LoadTransmission k} \<Longrightarrow>
  triple live (store_apply E operation) (\<lambda>_. live) fails"
  by (rule store_apply_triple)
    (simp_all add: live_def based_def in_step_def wires_covered_def books_def ledger_load)

lemma live_verify_possdup: "triple live (verify_possdup E m q) (\<lambda>_. live) fails"
proof -
  have reply: "triple live (case reply of
       StoredInbound (Some stored) \<Rightarrow>
         sbind (slift (parse_frame_or (ib_wire stored))) (\<lambda>original.
         sbind (slift (required_value original 52)) (\<lambda>original_sending_time.
         sensure (original_sending_time = t
             \<and> pm_begin_string original = pm_begin_string m \<and> same_replay_payload original m) (Protocol x)))
     | _ \<Rightarrow> sfail (Protocol y)) (\<lambda>_. live) fails" for reply t x y
    by (auto simp del: action_apply intro!: live_bind live_lift live_neutrals live_ensure
        dest: fatals split: store_reply.splits option.splits)
  show ?thesis
    unfolding verify_possdup_def
    by (intro live_bind live_lift live_ensure live_load reply) (auto dest: fatals)
qed

lemma live_parse_inbound: "triple live (parse_inbound_act f) (\<lambda>_. live) fails"
  by (auto simp: triple_def parse_inbound_act_def fails_live split: result.splits)

lemma live_handle_inbound: "triple live (handle_inbound E f) (\<lambda>_. live) fails"
  unfolding handle_inbound_def
  by (intro live_bind live_parse_inbound live_neutrals live_modify live_lift triple_if live_buffer_ahead
      live_verify_possdup live_realign live_commit_and_drain)
    (auto simp: neutral_def unexpected_seq_def dest: fatals)

section \<open>Submissions\<close>

text \<open>
  A client must not submit under a request ID of the actor's form with a rival fingerprint. The rest
  is the code's own affair: a command that is journaled already is only answered, unless it is one of
  an earlier numbering whose number is the next one of the current numbering: then it is handed to
  the socket although the journal has no record of that number. The store refuses the mark that
  follows, so the session ends \<open>strayed\<close>, with that one frame, its last, not in the journal.
\<close>

definition proper_request :: "application_request \<Rightarrow> bool" where
  "proper_request r \<longleftrightarrow> \<not> (rival (ar_fingerprint r) \<and> starts_with (ar_request_id r) ''session:'')"

definition stale :: "'st session \<Rightarrow> bool" where
  "stale s \<longleftrightarrow> (\<exists>r c. lg_cmds (view (s_store s)) r = Some c \<and> cr_msg_seq_num c = at_out (books s))"

definition strayed :: "'st session \<Rightarrow> bool" where
  "strayed s \<longleftrightarrow> inv (s_store s) \<and> admin_fresh rival (books s) \<and> stale s
     \<and> (\<exists>ws w. s_wire s = ws @ [w] \<and> (\<forall>v \<in> set ws. covered (books s) (s_config s) (s_logon_fields s) v))"

definition breaks :: "session_error option \<Rightarrow> 'st session \<Rightarrow> bool" where
  "breaks e s \<longleftrightarrow> fails e s \<or> strayed s \<and> (case e of Some e' \<Rightarrow> is_fatal e' | None \<Rightarrow> True)"

lemma triple_breaks: "triple P m Q fails \<Longrightarrow> triple P m Q breaks"
  by (erule triple_weaken) (simp_all add: breaks_def)

lemma live_push_body: "triple live (push_body E' q out added body) (\<lambda>_. live) fails"
  by (induction body arbitrary: out added)
    (auto simp del: action_apply intro!: live_bind live_neutrals)

lemma live_get: "triple live (sget g) (\<lambda>_. live) fails"
  by (rule live_neutrals)

lemma live_ensured: "triple live (sensure b e) (\<lambda>_. live) fails"
  by (rule live_ensure) simp

lemma live_any_lift: "triple live (slift x) (\<lambda>_. live) fails"
  by (cases x) (auto simp: triple_def fails_live)

lemma live_fields: "triple live (application_fields E' q) (\<lambda>_. live) fails"
  unfolding application_fields_def split_def
  by (intro live_bind live_any_lift live_ensure live_push_body live_neutrals) simp

definition accepted :: "bytes \<Rightarrow> command_record \<Rightarrow> 'st session \<Rightarrow> bool" where
  "accepted w c s \<longleftrightarrow> live s \<and> (\<exists>r. lg_cmds (view (s_store s)) r = Some c) \<or> committed (cr_msg_seq_num c) w s"

lemma commit_cases:
  assumes "inv st" "e_apply E n st (CommitOutbound \<lparr>oc_request_id = r, oc_fingerprint = fp, oc_cl_ord_id = cl,
      oc_msg_seq_num = q, oc_wire = w\<rparr>) = (st', Ok reply)"
  obtains (known) old where "lg_cmds (view st) r = Some old" "reply = Command old" "view st' = view st"
  | (fresh) c where "reply = Command c" "cr_msg_seq_num c = q"
      "Suc (Suc (length (out_wires (ledger_of (view st))))) < 2 ^ 64"
      "ledger_of (view st') = (ledger_of (view st))\<lparr>out_wires := out_wires (ledger_of (view st)) @ [w],
          ids := insert (r, fp) (ids (ledger_of (view st)))\<rparr>"
  using ledger_commit_outbound [OF assms] by (auto simp: new_command_def)

lemma request_commit:
  assumes "\<not> (rival fp \<and> starts_with r ''session:'')"
  shows "triple live (commit_command E r fp cl w wrong) (accepted w) fails"
  unfolding commit_command_def
proof (rule triple_bind [where R = "\<lambda>n s. live s \<and> n = s_next_out s"])
  show "triple live (sget s_next_out) (\<lambda>n s. live s \<and> n = s_next_out s) fails" by (rule triple_get) simp
  fix n
  let ?op = "CommitOutbound \<lparr>oc_request_id = r, oc_fingerprint = fp, oc_cl_ord_id = cl,
      oc_msg_seq_num = n, oc_wire = w\<rparr>"
  let ?Q = "\<lambda>reply s. \<exists>c. reply = Command c \<and> accepted w c s"
  show "triple (\<lambda>s. live s \<and> n = s_next_out s)
     (sbind (store_apply E ?op) (\<lambda>reply. case reply of Command command \<Rightarrow> sreturn command | _ \<Rightarrow> sfail (Store wrong)))
     (accepted w) fails"
  proof (rule triple_bind [where R = ?Q])
    show "triple (\<lambda>s. live s \<and> n = s_next_out s) (store_apply E ?op) ?Q fails"
    proof (rule store_apply_triple)
      fix s :: "'st session" and st reply
      let ?s = "s\<lparr>s_store := st, s_tick := Suc (s_tick s)\<rparr>"
      assume s: "live s \<and> n = s_next_out s" "inv (s_store s)" "inv st"
        and ok: "e_apply E (s_tick s) (s_store s) ?op = (st, Ok reply)"
      from s(2) ok show "?Q reply ?s"
      proof (cases rule: commit_cases)
        case (known old)
        then show ?thesis
          using s by (auto simp: accepted_def live_def based_def in_step_def books_def wires_covered_def)
      next
        case (fresh c)
        have "committed (s_next_out s) w ?s"
          using committed_new [OF conjunct1 [OF s(1)], where s' = ?s and w = w and r = r and fp = fp] fresh s assms
          by (simp add: books_def)
        then show ?thesis using fresh s by (auto simp: accepted_def)
      qed
    qed (simp add: live_def)
  next
    fix reply
    show "triple (?Q reply) (case reply of Command command \<Rightarrow> sreturn command | _ \<Rightarrow> sfail (Store wrong)) (accepted w) fails"
      by (cases reply) (auto simp: triple_def)
  qed
qed

lemma mark_request_triple:
  "triple (committed q w) (mark_written E r n) (\<lambda>reply s. committed q w s \<and> (\<exists>c. reply = Command c \<and> cr_msg_seq_num c = n)) fails"
  unfolding mark_written_def
proof (rule store_apply_triple)
  fix s st reply
  assume s: "committed q w s" "inv (s_store s)" "inv st"
    and ok: "e_apply E (s_tick s) (s_store s) (MarkOutboundWritten \<lparr>mo_request_id = r, mo_msg_seq_num = n\<rparr>) = (st, Ok reply)"
  have "\<exists>c. reply = Command c \<and> cr_msg_seq_num c = n"
    using refines [OF s(2) ok] by (auto simp: Let_def split: option.splits if_splits)
  moreover have "ledger_of (view st) = books s"
    using ledger_mark [OF s(2) ok] by (simp add: books_def)
  ultimately show "committed q w (s\<lparr>s_store := st, s_tick := Suc (s_tick s)\<rparr>) \<and> (\<exists>c. reply = Command c \<and> cr_msg_seq_num c = n)"
    using s by (simp add: committed_def based_def in_step_def wires_covered_def books_def)
qed (simp add: committed_def)

lemma request_finish:
  "triple (committed q w) (sbind (write_wire E w) (\<lambda>_. sbind (mark_written E r q) (\<lambda>reply.
     case reply of
       Command written \<Rightarrow> sbind (advance_next_out (cr_msg_seq_num written)) (\<lambda>_. sreturn written)
     | _ \<Rightarrow> sfail (Store x)))) (\<lambda>_. live) fails"
proof (rule triple_bind [where R = "\<lambda>_. committed q w"])
  show "triple (committed q w) (write_wire E w) (\<lambda>_. committed q w) fails"
    by (rule triple_weaken [OF write_committed [of q w w]]) (auto simp: committed_def holds_def covered_def)
  show "triple (committed q w) (sbind (mark_written E r q) (\<lambda>reply. case reply of
       Command written \<Rightarrow> sbind (advance_next_out (cr_msg_seq_num written)) (\<lambda>_. sreturn written)
     | _ \<Rightarrow> sfail (Store x))) (\<lambda>_. live) fails" for u :: unit
  proof (rule triple_bind [OF mark_request_triple])
    fix reply
    have "triple (committed q w) (sbind (advance_next_out q) (\<lambda>_. sreturn c)) (\<lambda>_. live) fails" for c :: command_record
      by (rule triple_bind [OF advance_triple]) (rule live_neutrals)
    then show "triple (\<lambda>s. committed q w s \<and> (\<exists>c. reply = Command c \<and> cr_msg_seq_num c = q)) (case reply of
       Command written \<Rightarrow> sbind (advance_next_out (cr_msg_seq_num written)) (\<lambda>_. sreturn written)
     | _ \<Rightarrow> sfail (Store x)) (\<lambda>_. live) fails"
      by (cases reply) (auto simp: triple_def)
  qed
qed

text \<open>The second writing of a stale command, and the mark that is refused.\<close>

lemma strayed_same:
  "strayed s \<Longrightarrow> inv (s_store s') \<Longrightarrow> view (s_store s') = view (s_store s) \<Longrightarrow> s_wire s' = s_wire s \<Longrightarrow>
   s_config s' = s_config s \<Longrightarrow> s_logon_fields s' = s_logon_fields s \<Longrightarrow> strayed s'"
  unfolding strayed_def stale_def books_def by simp

lemma stale_write:
  "triple (\<lambda>s. live s \<and> stale s \<and> s_next_out s = q) (write_wire E w) (\<lambda>_ s. strayed s \<and> q = at_out (books s)) breaks"
proof -
  have wrote: "strayed s' \<and> at_out (books s') = s_next_out s"
    if "live s" "stale s" "s_wire s' = s_wire s @ [w]" "s_store s' = s_store s"
      "s_config s' = s_config s" "s_logon_fields s' = s_logon_fields s" for s s' :: "'st session"
    using that by (auto simp: strayed_def stale_def books_def live_def based_def wires_covered_def)
  have written: "strayed (s\<lparr>s_log := l, s_wire := s_wire s @ [w], s_tick := n\<rparr>)"
      "strayed (s\<lparr>s_log := l, s_wire := s_wire s @ [w], s_tick := n, s_last_outbound := t\<rparr>)"
      "at_out (books (s\<lparr>s_log := l, s_wire := s_wire s @ [w], s_tick := n, s_last_outbound := t\<rparr>)) = s_next_out s"
    if "live s" "stale s" for s :: "'st session" and l n t
    using wrote [OF that] by simp_all
  show ?thesis
    unfolding triple_def
    by (auto simp: write_wire_def write_call_def log_out_def instant_now_def tick_def sbind_apply breaks_def
        written split: option.split)
qed

lemma stale_mark: "triple (\<lambda>s. strayed s \<and> q = at_out (books s)) (mark_written E r q) (\<lambda>_ _. False) breaks"
proof (rule tripleI)
  let ?op = "MarkOutboundWritten \<lparr>mo_request_id = r, mo_msg_seq_num = q\<rparr>"
  have refused: "\<not> is_Ok x \<and> strayed (s\<lparr>s_store := st, s_tick := n\<rparr>)"
    if "strayed s" "q = at_out (books s)" "e_apply E (s_tick s) (s_store s) ?op = (st, x)" for s st x n
  proof -
    have i: "inv (s_store s)" using that(1) by (simp add: strayed_def)
    have "unat q = Suc (length (lg_out (view (s_store s))))"
      using room [OF i] that(2) by (simp add: at_out_def books_def ledger_of_def unat_of_nat_u64 del: of_nat_Suc)
    then have "\<not> is_Ok x"
      using refines [OF i, of "s_tick s" ?op st] that(3)
      by (cases x) (auto split: option.splits if_splits)
    with failed [OF i that(3)] keeps_inv [OF i that(3)] show ?thesis
      using strayed_same [OF that(1), of "s\<lparr>s_store := st, s_tick := n\<rparr>"] by simp
  qed
  fix s s' :: "'st session"
  assume s: "strayed s \<and> q = at_out (books s)"
  note refused = refused [OF conjunct1 [OF s] conjunct2 [OF s]]
  show "mark_written E r q s = (s', Ok x) \<Longrightarrow> False" for x
    using refused by (fastforce simp: mark_written_def store_apply_def split: prod.splits)
  show "mark_written E r q s = (s', Err e) \<Longrightarrow> breaks (Some e) s'" for e
    using refused by (fastforce simp: mark_written_def store_apply_def breaks_def split: prod.splits)
  show "mark_written E r q s = (s', Panic) \<Longrightarrow> breaks None s'"
    using refused by (fastforce simp: mark_written_def store_apply_def breaks_def split: prod.splits)
qed

lemma stale_finish:
  "triple (\<lambda>s. live s \<and> stale s \<and> s_next_out s = q) (sbind (write_wire E w) (\<lambda>_. sbind (mark_written E r q) f)) (\<lambda>_. live) breaks"
  by (rule triple_bind [OF stale_write], rule triple_bind [OF stale_mark]) (simp add: triple_def)

lemma live_submit:
  assumes "proper_request r"
  shows "triple live (submit_application E r) (\<lambda>_. live) breaks"
proof -
  have finish: "triple (accepted w c) (sbind (sget s_next_out) (\<lambda>next_out.
     if cr_msg_seq_num c < next_out then sreturn c
     else if cr_msg_seq_num c \<noteq> next_out
     then sfail (Store (''store returned future outbound sequence '' @ dec64 (cr_msg_seq_num c)))
     else
       sbind (write_wire E w) (\<lambda>_.
       sbind (mark_written E (ar_request_id r) (cr_msg_seq_num c)) (\<lambda>reply.
       case reply of
         Command written \<Rightarrow> sbind (advance_next_out (cr_msg_seq_num written)) (\<lambda>_. sreturn written)
       | _ \<Rightarrow> sfail (Store ''mark written returned an inbound record''))))) (\<lambda>_. live) breaks" (is "triple _ ?m _ _") for w c
    unfolding triple_def
  proof (intro allI impI)
    fix s assume "accepted w c s"
    then consider (known) r' where "live s" "lg_cmds (view (s_store s)) r' = Some c" | (new) "committed (cr_msg_seq_num c) w s"
      unfolding accepted_def by blast
    then show "case ?m s of (s', x) \<Rightarrow> (case x of Ok _ \<Rightarrow> live s' | Err e \<Rightarrow> breaks (Some e) s' | Panic \<Rightarrow> breaks None s')"
    proof cases
      case known
      then have stale: "stale s" if "cr_msg_seq_num c = s_next_out s"
        using that unfolding stale_def live_def by metis
      show ?thesis
      proof (cases "cr_msg_seq_num c = s_next_out s")
        case True
        then have due: "live s \<and> stale s \<and> s_next_out s = cr_msg_seq_num c" using known(1) stale by simp
        have "sbind (sget g) f s = f (g s) s" for g :: "'st session \<Rightarrow> u64" and f :: "u64 \<Rightarrow> ('st, command_record) act"
          by (simp add: sbind_apply)
        with True show ?thesis
          using stale_finish [of "cr_msg_seq_num c" w "ar_request_id r", unfolded triple_def, rule_format, OF due]
          by (simp del: action_apply)
      next
        case False
        with known(1) show ?thesis
          by (auto simp: triple_def sbind_apply [of "sget _"] breaks_def fails_live)
      qed
    next
      case new
      with request_finish [of "cr_msg_seq_num c" w "ar_request_id r" "''mark written returned an inbound record''", THEN triple_breaks]
      show ?thesis by (simp add: triple_def sbind_apply [of "sget _"] committed_def)
    qed
  qed
  show ?thesis
    unfolding submit_application_def
    by (intro triple_bind [OF triple_breaks [OF live_get]] triple_bind [OF triple_breaks [OF live_ensured]]
        triple_bind [OF triple_breaks [OF live_fields]] triple_bind [OF triple_breaks [OF neutral_encode [OF live_stable]]]
        triple_bind [OF triple_breaks [OF request_commit]] finish)
      (use assms in \<open>simp add: proper_request_def\<close>)
qed

end

end
