(* ===== verification/Fix_Reach.thy ===== *)
theory Fix_Reach
  imports Fix_Ledger
begin

text \<open>
  From the methods to the running session: the Logon that opens it, every turn of the loop, and by
  rule induction every reachable state. The last section interprets the contract on a redb journal
  behind a worker and states what follows for it.
\<close>

context session_store
begin

section \<open>Opening the session\<close>

definition logon_open :: "'st session \<Rightarrow> 'st session \<Rightarrow> bool" where
  "logon_open s0 s \<longleftrightarrow> live s \<and> s_config s = s_config s0 \<and> s_logon_fields s = s_logon_fields s0"

lemma opening_stable: "stable (logon_open s0)"
  unfolding logon_open_def by (rule stable_and [OF live_stable]) (simp add: neutral_def)

definition opening_silent :: "'st session \<Rightarrow> 'st session \<Rightarrow> bool" where
  "opening_silent s0 s \<longleftrightarrow> logon_open s0 s \<and> s_wire s = []"

lemma opening_silent_stable: "stable (opening_silent s0)"
  unfolding opening_silent_def by (rule stable_and [OF opening_stable]) (simp add: neutral_def)

text \<open>After the store has reset its numbering, before the actor has.\<close>

definition reset_due :: "u64 \<Rightarrow> 'st session \<Rightarrow> 'st session \<Rightarrow> bool" where
  "reset_due e s0 s \<longleftrightarrow> based s \<and> s_config s = s_config s0 \<and> s_logon_fields s = s_logon_fields s0
     \<and> at_out (books s) = 1 \<and> at_in (books s) = 1 \<and> at_event (books s) = e"

lemma opening_reset: "triple (opening_silent s0) (reset_for_logon E) (\<lambda>_. logon_open s0) fails"
  unfolding reset_for_logon_def
proof (rule triple_bind [where R = "\<lambda>reply s. \<exists>e. reply = SequencesReset e \<and> reset_due e s0 s"])
  show "triple (opening_silent s0) (store_apply E ResetSequences)
     (\<lambda>reply s. \<exists>e. reply = SequencesReset e \<and> reset_due e s0 s) fails"
  proof (rule store_apply_triple)
    fix s :: "'st session" and st reply
    assume s: "opening_silent s0 s" "inv (s_store s)" "inv st"
      and ok: "e_apply E (s_tick s) (s_store s) ResetSequences = (st, Ok reply)"
    from ledger_reset [OF s(2) ok] obtain e where
      e: "add64 (at_event (books s)) 1 = (Ok e :: (store_error, u64) result)" "reply = SequencesReset e"
        "ledger_of (view st) = \<lparr>out_wires = [], tx_wires = [], at_in = 1, at_event = e, ids = ids (books s)\<rparr>"
      unfolding books_def by blast
    have "admin_fresh rival (ledger_of (view st))"
      unfolding e(3) using s(1) add64_Ok [OF e(1)]
      by (intro admin_fresh_reset) (auto simp: opening_silent_def logon_open_def live_def based_def)
    then have "reset_due e s0 (s\<lparr>s_store := st, s_tick := Suc (s_tick s)\<rparr>)"
      using s e by (simp add: reset_due_def opening_silent_def logon_open_def based_def books_def wires_covered_def at_out_def)
    then show "\<exists>e. reply = SequencesReset e \<and> reset_due e s0 (s\<lparr>s_store := st, s_tick := Suc (s_tick s)\<rparr>)"
      using e(2) by blast
  qed (simp add: opening_silent_def logon_open_def live_def)
  fix reply
  have set: "triple (reset_due e s0) (sbind (smodify (\<lambda>s. s\<lparr>s_next_out := 1, s_next_in := 1, s_next_event := e\<rparr>)) (\<lambda>_.
         log_out l)) (\<lambda>_. logon_open s0) fails" for e l
    by (rule triple_bind [where R = "\<lambda>_. logon_open s0"], rule triple_modify)
      (auto simp: reset_due_def logon_open_def live_def based_def in_step_def books_def wires_covered_def
        intro: neutral_log opening_stable)
  show "triple (\<lambda>s. \<exists>e. reply = SequencesReset e \<and> reset_due e s0 s)
     (case reply of
       SequencesReset next_event \<Rightarrow>
         sbind (smodify (\<lambda>s. s\<lparr>s_next_out := 1, s_next_in := 1, s_next_event := next_event\<rparr>)) (\<lambda>_.
         log_out (Info ''Resetting sequence numbers to 1 (ResetSeqNumFlag=Y)''))
     | _ \<Rightarrow> sfail (Store ''sequence reset returned the wrong record type'')) (\<lambda>_. logon_open s0) fails"
    using set by (cases reply) (auto simp: triple_def)
qed

lemma header_shape:
  "stable P \<Longrightarrow> triple P (standard_header E' t) (\<lambda>h s. P s \<and> (\<exists>rest. h = Field 35 (as_bytes t) # rest)) fails"
proof -
  assume P: "stable P"
  have "\<exists>rest. h = Field 35 (as_bytes t) # rest" if "standard_header E' t s = (s', Ok h)" for s s' h
    using that by (auto simp: standard_header_def sbind_apply sending_time_def tick_def)
  with neutral_header [OF P, of E' t] show ?thesis
    unfolding triple_def by (fastforce split: prod.splits result.splits)
qed

lemma encode_result:
  "stable P \<Longrightarrow> (\<And>s. P s \<Longrightarrow> s_config s = cfg) \<Longrightarrow>
   triple P (encode_outbound fs) (\<lambda>w s. P s \<and> encode_message (as_bytes (sc_begin_string cfg)) fs = Ok w) fails"
  by (auto simp: triple_def encode_outbound_def stable_def fails_def split: result.splits)

lemma opening_bind:
  "triple (logon_open s0) m (\<lambda>_. logon_open s0) fails \<Longrightarrow> (\<And>x. triple (logon_open s0) (f x) Q fails) \<Longrightarrow>
   triple (logon_open s0) (sbind m f) Q fails"
  by (rule triple_bind)

lemma triple_fact: "(C \<Longrightarrow> triple P m Q F) \<Longrightarrow> triple (\<lambda>s. P s \<and> C) m Q F"
  by (auto simp: triple_def)

lemma logon_send:
  assumes "redacted_logon (s_config s0) (s_logon_fields s0) jw w"
  shows "triple (logon_open s0) (sbind (sget (\<lambda>s. s)) (\<lambda>s.
     send_committed E (admin_id ''logon'' (s_next_out s) (s_next_event s))
       (''admin:A:'' @ dec64 (s_next_out s)) jw w
       (log_out (Info ''Sent logon request'')) outbound_wrong)) (\<lambda>_. live) fails"
proof (rule triple_bind [where R = "\<lambda>x s. logon_open s0 s \<and> x = s"])
  fix x
  show "triple (\<lambda>s. logon_open s0 s \<and> x = s) (send_committed E (admin_id ''logon'' (s_next_out x) (s_next_event x))
       (''admin:A:'' @ dec64 (s_next_out x)) jw w (log_out (Info ''Sent logon request'')) outbound_wrong) (\<lambda>_. live) fails"
    using assms by (intro send_committed_triple neutral_log) (auto simp: logon_open_def)
qed (rule triple_get, simp)

lemma logon_encoded:
  assumes "\<exists>rest. h = Field 35 (as_bytes ''A'') # rest"
  shows "triple (logon_open s0)
    (sbind (encode_outbound (h @ b)) (\<lambda>wire.
     sbind (encode_outbound (map (redact_field (s_logon_fields s0)) (h @ b))) (\<lambda>journal_wire.
     sbind (sget (\<lambda>s. s)) (\<lambda>s.
     send_committed E (admin_id ''logon'' (s_next_out s) (s_next_event s))
       (''admin:A:'' @ dec64 (s_next_out s)) journal_wire wire
       (log_out (Info ''Sent logon request'')) outbound_wrong)))) (\<lambda>_. live) fails"
proof -
  from assms obtain rest where "h @ b = Field 35 (as_bytes ''A'') # rest @ b" by auto
  then have redacted: "redacted_logon (s_config s0) (s_logon_fields s0) jw w"
    if "encode_message (as_bytes (sc_begin_string (s_config s0))) (h @ b) = Ok w"
      "encode_message (as_bytes (sc_begin_string (s_config s0))) (map (redact_field (s_logon_fields s0)) (h @ b)) = Ok jw" for w jw
    using that unfolding redacted_logon_def Let_def by metis
  have config: "s_config s = s_config s0" if "logon_open s0 s" for s using that by (simp add: logon_open_def)
  show ?thesis
    by (rule triple_bind [OF encode_result [OF opening_stable config]], assumption, rule triple_fact,
        rule triple_bind [OF encode_result [OF opening_stable config]], assumption, rule triple_fact,
        rule logon_send, rule redacted)
qed

lemma validate_logon_fatal: "validate_logon_from seen fs = Err e \<Longrightarrow> is_fatal e"
  by (induction seen fs rule: validate_logon_from.induct) (auto split: if_splits)

lemma logon_live: "triple (\<lambda>s. live s \<and> s_wire s = []) (send_logon E) (\<lambda>_. live) fails"
  unfolding send_logon_def
proof (rule triple_bind [where R = "\<lambda>x s. opening_silent x s"])
  show "triple (\<lambda>s. live s \<and> s_wire s = []) (sget (\<lambda>s. s)) opening_silent fails"
    by (rule triple_get) (simp add: opening_silent_def logon_open_def)
  fix s0 :: "'st session"
  have reset: "triple (opening_silent s0) (if b then reset_for_logon E else sreturn ()) (\<lambda>_. logon_open s0) fails" for b
    by (rule triple_if [OF opening_reset], rule triple_return) (simp add: opening_silent_def)
  have send: "triple (logon_open s0) (sbind (standard_header E ''A'') (\<lambda>header.
     let fields = header @ logon_body (s_config s0) (s_logon_fields s0) in
     sbind (encode_outbound fields) (\<lambda>wire.
     sbind (encode_outbound (map (redact_field (s_logon_fields s0)) fields)) (\<lambda>journal_wire.
     sbind (sget (\<lambda>s. s)) (\<lambda>s.
     send_committed E (admin_id ''logon'' (s_next_out s) (s_next_event s))
       (''admin:A:'' @ dec64 (s_next_out s)) journal_wire wire
       (log_out (Info ''Sent logon request'')) outbound_wrong))))) (\<lambda>_. live) fails"
    by (rule triple_bind [OF header_shape [OF opening_stable]], rule triple_fact, unfold Let_def)
      (rule logon_encoded)
  show "triple (opening_silent s0) (sbind (slift (validate_custom_logon_fields (s_logon_fields s0))) (\<lambda>_.
     sbind (if sc_reset_on_logon (s_config s0) then reset_for_logon E else sreturn ()) (\<lambda>_.
     sbind (standard_header E ''A'') (\<lambda>header.
     let fields = header @ logon_body (s_config s0) (s_logon_fields s0) in
     sbind (encode_outbound fields) (\<lambda>wire.
     sbind (encode_outbound (map (redact_field (s_logon_fields s0)) fields)) (\<lambda>journal_wire.
     sbind (sget (\<lambda>s. s)) (\<lambda>s.
     send_committed E (admin_id ''logon'' (s_next_out s) (s_next_event s))
       (''admin:A:'' @ dec64 (s_next_out s)) journal_wire wire
       (log_out (Info ''Sent logon request'')) outbound_wrong))))))) (\<lambda>_. live) fails"
    by (rule stable_bind [OF opening_silent_stable neutral_lift [OF opening_silent_stable]],
        simp add: validate_custom_logon_fields_def validate_logon_fatal,
        rule triple_bind [OF reset send])
qed

section \<open>The loop\<close>

lemma live_load_stored: "triple live (load_stored_command E r) (\<lambda>_. live) fails"
proof -
  have "triple live (case reply of StoredCommand c \<Rightarrow> sreturn c | _ \<Rightarrow> sfail (Store x)) (\<lambda>_. live) fails" for reply x
    by (cases reply) (auto simp del: action_apply intro: live_neutrals)
  then show ?thesis unfolding load_stored_command_def by (intro live_bind live_load) simp_all
qed

lemma triple_smap: "triple P m (\<lambda>_. Q) F \<Longrightarrow> triple P (smap f m) (\<lambda>_. Q) F"
  unfolding smap_def by (rule triple_bind) (auto intro: triple_return)

definition command_ok :: "actor_command \<Rightarrow> bool" where
  "command_ok c \<longleftrightarrow> (case c of Submit r \<Rightarrow> proper_request r | _ \<Rightarrow> True)"

lemma live_run_command:
  assumes "command_ok c"
  shows "triple live (run_command E c) (\<lambda>_. live) breaks"
proof (cases c)
  case (Submit r)
  with assms show ?thesis by (auto simp: command_ok_def simp del: action_apply intro!: triple_smap live_submit)
next
  case Status
  then show ?thesis by (auto simp: triple_def)
next
  case (LookupCommand r)
  then show ?thesis by (auto simp del: action_apply intro!: triple_smap triple_breaks [OF live_load_stored])
next
  case (Logout m)
  then show ?thesis by (auto simp del: action_apply intro!: triple_smap triple_breaks [OF live_logout])
qed

lemma live_handle_command:
  assumes "command_ok c"
  shows "triple live (handle_command E c) (\<lambda>_. live) breaks"
  unfolding triple_def
proof (intro allI impI)
  fix s assume s: "live s"
  obtain s' r where run: "run_command E c s = (s', r)" by fastforce
  have replied: "live (t\<lparr>s_replies := rs\<rparr>) = live t" "based (t\<lparr>s_replies := rs\<rparr>) = based t"
      "strayed (t\<lparr>s_replies := rs\<rparr>) = strayed t" for t :: "'st session" and rs
    by (simp_all add: live_def based_def in_step_def books_def wires_covered_def strayed_def stale_def)
  from live_run_command [OF assms] s run show "case handle_command E c s of (s', r) \<Rightarrow>
     (case r of Ok x \<Rightarrow> live s' | Err e \<Rightarrow> breaks (Some e) s' | Panic \<Rightarrow> breaks None s')"
    unfolding triple_def handle_command_def
    by (cases r) (fastforce simp: fails_def breaks_def replied)+
qed

lemma live_frames: "triple live (handle_frames E fs) (\<lambda>_. live) fails"
  by (induction fs) (auto simp del: action_apply intro!: live_bind live_neutrals live_handle_inbound)

lemma live_decode: "triple live (decode_input b) (\<lambda>_. live) fails"
proof -
  have "live (s\<lparr>s_decoder := d\<rparr>) = live s" for s :: "'st session" and d
    by (simp add: live_def based_def in_step_def books_def wires_covered_def)
  then show ?thesis
    by (auto simp: triple_def decode_input_def fails_live split: prod.splits result.splits)
qed

lemma live_timer: "triple live (on_timer E) (\<lambda>_. live) fails"
proof -
  have late: "triple live (sbind (instant_now E) (\<lambda>now. if d \<le> now
         then sbind (send_logout E m) (\<lambda>_. sfail (Protocol x)) else sreturn ())) (\<lambda>_. live) fails" for d m x
    by (intro live_bind triple_if live_neutrals live_logout) simp
  have idle: "triple live (if b then sbind (instant_now E) (\<lambda>now.
           let interval = i in
           if interval + interval \<le> now - l then send_test_request E interval else sreturn ()) else sreturn ())
       (\<lambda>_. live) fails" for b i l
    unfolding Let_def by (intro live_bind triple_if live_neutrals live_test_request)
  show ?thesis
    unfolding on_timer_def
    by (intro live_bind live_neutrals triple_if live_heartbeat live_option late idle)
qed

definition input_ok :: "actor_input \<Rightarrow> bool" where
  "input_ok i \<longleftrightarrow> (case i of Request c \<Rightarrow> command_ok c | _ \<Rightarrow> True)"

lemma live_turn:
  assumes "input_ok i"
  shows "triple live (run_turn E i) (\<lambda>_. live) breaks"
proof (cases i)
  case (Request c)
  then show ?thesis
    using assms live_handle_command [of c] by (auto simp: input_ok_def simp del: action_apply intro: triple_smap)
next
  case (ReadFailed m)
  then show ?thesis by (auto simp: triple_def breaks_def fails_live)
next
  case (ReadBytes b)
  have "triple live (run_turn E i) (\<lambda>_. live) fails"
    unfolding ReadBytes by (auto simp del: action_apply intro!: live_bind live_decode triple_smap live_frames)
  then show ?thesis by (rule triple_breaks)
next
  case Timer
  have "triple live (run_turn E i) (\<lambda>_. live) fails"
    unfolding Timer by (auto simp del: action_apply intro!: triple_smap live_timer)
  then show ?thesis by (rule triple_breaks)
next
  case ReadEof
  have event: "triple live (send_event e) (\<lambda>_. live) fails" for e
    unfolding send_event_def by (rule live_modify) (simp add: neutral_def)
  have "triple live (run_turn E i) (\<lambda>_. live) fails"
    unfolding ReadEof by (auto simp del: action_apply intro!: live_bind live_neutrals event)
  then show ?thesis by (rule triple_breaks)
qed (auto simp: triple_def)

lemma neutral_ended:
  "neutral f \<Longrightarrow> based s \<Longrightarrow> based (f s)" "neutral f \<Longrightarrow> live s \<Longrightarrow> live (f s)" "neutral f \<Longrightarrow> strayed s \<Longrightarrow> strayed (f s)"
  using stable_states(1,2) unfolding stable_def by (blast, blast)
    (simp add: neutral_def strayed_def stale_def books_def)


lemma conclude_based:
  assumes "triple P m (\<lambda>_. live) breaks" "P s" "conclude (m s) = (s', r)"
  shows "(based s' \<or> r \<noteq> Running \<and> strayed s') \<and> (r = Running \<longrightarrow> live s')"
proof -
  obtain t x where m: "m s = (t, x)" by fastforce
  have "(based t \<or> \<not> is_Ok x \<and> strayed t) \<and> (is_Ok x \<longrightarrow> live t)"
    using assms(1,2) m unfolding triple_def by (cases x) (fastforce simp: live_def fails_def breaks_def)+
  moreover have "\<exists>f. neutral f \<and> s' = f t \<and> (r = Running \<longrightarrow> is_Ok x)"
  proof (cases x)
    case (Ok b)
    show ?thesis
    proof (cases b)
      case True
      with Ok assms(3) show ?thesis by (auto simp: conclude_def m neutral_def intro: exI [of _ "\<lambda>s. s"])
    next
      case False
      with Ok assms(3) show ?thesis
        by (intro exI [of _ "\<lambda>s. s\<lparr>s_log := s_log s @ [Info ''Disconnecting'']\<rparr>"]) (auto simp: conclude_def m neutral_def)
    qed
  next
    case (Err e)
    then show ?thesis
      using assms(3)
      by (intro exI [of _ "\<lambda>s. blocked (session_error_string e)
          (s\<lparr>s_log := s_log s @ [Info ''Disconnecting'', Error (session_error_string e)]\<rparr>)"])
        (auto simp: conclude_def m neutral_def blocked_def)
  next
    case Panic
    then show ?thesis using assms(3) by (auto simp: conclude_def m neutral_def intro: exI [of _ "\<lambda>s. s"])
  qed
  ultimately show ?thesis using neutral_ended by blast
qed

lemma spawn_based:
  assumes st: "inv st" "admin_fresh rival (ledger_of (view st))" and s: "spawn_initiator E cfg lf st = (s, r)"
  shows "(based s \<or> r \<noteq> Running \<and> strayed s) \<and> (r = Running \<longrightarrow> live s)"
proof -
  have new: "based (new_actor E cfg lf st rec)" for rec
    using st by (simp add: based_def books_def wires_covered_def new_actor_def)
  show ?thesis
  proof (cases "e_recover E st")
    case (Ok rec)
    have "live (new_actor E cfg lf st rec) \<and> s_wire (new_actor E cfg lf st rec) = []"
      using new [of rec] recovered [OF st(1) Ok]
      by (simp add: live_def in_step_def books_def new_actor_def at_out_def ledger_of_def lg_next_out_def)
    moreover have "triple (\<lambda>s. live s \<and> s_wire s = [])
        (sbind (send_logon E) (\<lambda>_. sbind (set_phase LogonSent) (\<lambda>_. sreturn True))) (\<lambda>_. live) fails"
      by (rule triple_bind [OF logon_live]) (intro live_bind live_neutrals)
    note triple_breaks [OF this]
    moreover have "conclude (sbind (send_logon E) (\<lambda>_. sbind (set_phase LogonSent) (\<lambda>_. sreturn True))
        (new_actor E cfg lf st rec)) = (s, r)"
      using s Ok by (simp add: spawn_initiator_def del: action_apply)
    ultimately show ?thesis using conclude_based by blast
  next
    case (Err e)
    then show ?thesis
      using s new [of recovery_default]
      by (auto simp: spawn_initiator_def blocked_def based_def books_def wires_covered_def)
  next
    case Panic
    then show ?thesis using s new [of recovery_default] by (auto simp: spawn_initiator_def)
  qed
qed

theorem reachable_based:
  assumes "reachable E (\<lambda>_. input_ok) cfg lf st s r" "inv st" "admin_fresh rival (ledger_of (view st))"
  shows "(based s \<or> r \<noteq> Running \<and> strayed s) \<and> (r = Running \<longrightarrow> live s)"
  using assms
proof (induction rule: reachable.induct)
  case (reach_start s r)
  then show ?case using spawn_based by blast
next
  case (reach_step s i s' r)
  then have "live s" by simp
  with reach_step.hyps show ?case
    using conclude_based [OF live_turn [of i], of s s' r] by (auto simp add: actor_step_def)
qed

end

section \<open>The configuration is fixed\<close>

definition cfg_of :: "'st session \<Rightarrow> session_config \<times> field list" where
  "cfg_of s = (s_config s, s_logon_fields s)"

interpretation cfg: inbound_projection cfg_of
  by unfold_locales (simp_all add: cfg_of_def)

lemma keeps_cfg_modify: "(\<And>s. s_config (h s) = s_config s \<and> s_logon_fields (h s) = s_logon_fields s) \<Longrightarrow> keeps cfg_of (smodify h)"
  by (rule keeps_modify) (simp add: cfg_of_def)

lemma keeps_cfg_drain: "cfg_of (fst (drain E s)) = cfg_of s"
proof (induction E s rule: drain.induct)
  case (1 E s)
  let ?p = "retain_pending (s_next_in s) (s_gap_buffer s)"
  let ?s = "s\<lparr>s_gap_buffer := remove_entry (s_next_in s) ?p\<rparr>"
  have same: "cfg_of (s\<lparr>s_gap_buffer := b\<rparr>) = cfg_of s" for b by (simp add: cfg_of_def)
  show ?case
  proof (cases "map_of ?p (s_next_in s)")
    case None
    then show ?thesis by (subst drain.simps) (simp add: same)
  next
    case (Some f)
    show ?thesis
    proof (cases "parse_inbound (s_config s) (s_logon_fields s) f")
      case (Ok m)
      obtain s' r where c: "commit_expected E m f ?s = (s', r)" by fastforce
      have "cfg_of s' = cfg_of s"
        using commit_expected_frame(2,3) [OF c] by (simp add: cfg_of_def)
      then show ?thesis
        using 1 [OF refl Some refl Ok c [symmetric]] Some Ok c
        by (subst drain.simps) (cases r, auto)
    qed (use Some in \<open>subst drain.simps, simp add: same\<close>)+
  qed
qed

lemma keeps_cfg_handle_inbound: "keeps cfg_of (handle_inbound E f)"
proof -
  have drain: "keeps cfg_of (drain E)" by (simp add: keeps_def keeps_cfg_drain)
  have ahead: "keeps cfg_of (buffer_ahead E q f)" for q
    unfolding buffer_ahead_def by (intro keeping keeps_cfg_modify) simp
  have commit: "keeps cfg_of (commit_and_drain E m f)" for m
    unfolding commit_and_drain_def by (intro keeping drain)
  show ?thesis
    unfolding handle_inbound_def by (intro keeping ahead commit keeps_cfg_modify) simp
qed

lemma keeps_cfg_turn: "keeps cfg_of (run_turn E i)"
proof -
  have frames: "keeps cfg_of (handle_frames E fs)" for fs
    by (induction fs) (auto simp del: action_apply intro!: keeping keeps_cfg_handle_inbound)
  have command: "keeps cfg_of (handle_command E c)" for c
  proof -
    have "keeps cfg_of (run_command E c)"
      by (cases c) (auto simp: smap_def simp del: action_apply intro!: keeping)
    then have run: "cfg_of s' = cfg_of s" if "run_command E c s = (s', r)" for s s' r
      using that unfolding keeps_def by (metis fst_conv)
    show ?thesis
      unfolding keeps_def
    proof
      fix s
      obtain s' r where "run_command E c s = (s', r)" by fastforce
      with run [OF this] show "cfg_of (fst (handle_command E c s)) = cfg_of s"
        by (cases r) (simp_all add: handle_command_def cfg_of_def)
    qed
  qed
  have timer: "keeps cfg_of (on_timer E)"
    unfolding on_timer_def Let_def by (intro keeping)
  have decode: "keeps cfg_of (decode_input b)" for b
    by (auto simp: keeps_def decode_input_def cfg_of_def split: prod.splits)
  show ?thesis
    by (cases i) (auto simp: smap_def simp del: action_apply intro!: keeping frames command timer decode)
qed

lemma conclude_cfg: "conclude p = (s', r) \<Longrightarrow> cfg_of s' = cfg_of (fst p)"
  by (auto simp: conclude_def blocked_def cfg_of_def split: prod.splits result.splits bool.splits)

lemma reachable_cfg: "reachable E ok cfg lf st s r \<Longrightarrow> cfg_of s = (cfg, lf)"
proof (induction rule: reachable.induct)
  case (reach_start s r)
  have "keeps cfg_of (sbind (send_logon E) (\<lambda>_. sbind (set_phase LogonSent) (\<lambda>_. sreturn True)))"
    by (intro keeping)
  then show ?case
    using reach_start
    by (auto simp: spawn_initiator_def keeps_def blocked_def dest!: conclude_cfg split: result.splits)
      (simp_all add: cfg_of_def new_actor_def)
next
  case (reach_step s i s' r)
  then show ?case
    using keeps_cfg_turn [of E i] by (auto simp: actor_step_def keeps_def dest!: conclude_cfg)
qed

section \<open>The session on a redb journal\<close>

text \<open>
  The environment of a session whose store is a redb journal behind a worker: the faults of the
  n-th store call are \<open>be n\<close>, those of the recovery \<open>rf\<close>.
\<close>

definition redb_env ::
    "(nat \<Rightarrow> faults) \<Rightarrow> faults \<Rightarrow> (nat \<Rightarrow> string) \<Rightarrow> (nat \<Rightarrow> nat) \<Rightarrow> (nat \<Rightarrow> string option) \<Rightarrow> journal worker env" where
  "redb_env be rf time now out = \<lparr>e_apply = redb_handle be, e_recover = handle_recover (recover rf),
     e_time = time, e_now = now, e_write = out\<rparr>"

lemma recover_counters:
  assumes "recover rf db = Ok rec" "db_wf db"
  shows "rs_next_out rec = lg_next_out (log_of db) \<and> rs_next_in rec = lg_next_in (log_of db)
    \<and> rs_next_event rec = lg_next_event (log_of db)"
proof -
  from assms(2) obtain no where no: "db_meta db ''next_out'' = Some no" "1 \<le> no"
    unfolding db_wf_def numbered_def by blast
  have "lg_next_out (log_of db) = no" using no by (simp add: lg_next_out_eq)
  then show ?thesis
    using assms(1) no(1) by (auto simp: recover_def bindR_eqs log_of_def)
qed

text \<open>
  Two readings of the contract. In the first every command in the journal rivals the actor for its
  request IDs, so a client has to stay out of their namespace, \<open>session:\<close>. In the second only a
  command with a fingerprint of the actor's own form does, so a client may use any ID as long
  as it does not forge such a fingerprint.
\<close>

definition anyone :: "string \<Rightarrow> bool" where
  "anyone fp = True"

definition actor_print :: "string \<Rightarrow> bool" where
  "actor_print fp = starts_with fp ''admin:''"

lemma redb_session:
  assumes "\<And>fp. starts_with fp ''admin:'' \<Longrightarrow> rival fp"
  shows "session_store (redb_env be rf time now out) worker_wf worker_log rival"
proof -
  have "store_port (redb_handle be) worker_wf worker_log" by (rule handle.store_port_axioms)
  then show "session_store (redb_env be rf time now out) worker_wf worker_log rival"
    using assms by (auto simp: session_store_def session_store_axioms_def redb_env_def handle_recover_def worker_wf_def
        worker_log_def recover_counters split: if_splits)
qed

interpretation session: session_store "redb_env be rf time now out" worker_wf worker_log anyone
  for be rf time now out
  by (rule redb_session) (simp add: anyone_def)

interpretation shared: session_store "redb_env be rf time now out" worker_wf worker_log actor_print
  for be rf time now out
  by (rule redb_session) (simp add: actor_print_def)

text \<open>A client outside the namespace, and one that forges no fingerprint.\<close>

definition outside_namespace :: "actor_input \<Rightarrow> bool" where
  "outside_namespace i = (case i of Request (Submit r) \<Rightarrow> \<not> starts_with (ar_request_id r) ''session:'' | _ \<Rightarrow> True)"

definition unforged :: "actor_input \<Rightarrow> bool" where
  "unforged i = (case i of
     Request (Submit r) \<Rightarrow> \<not> (starts_with (ar_request_id r) ''session:'' \<and> starts_with (ar_fingerprint r) ''admin:'')
   | _ \<Rightarrow> True)"

lemma inputs_ok: "session.input_ok = outside_namespace" "shared.input_ok = unforged"
  by (intro ext, auto simp: session.input_ok_def session.command_ok_def session.proper_request_def outside_namespace_def
      anyone_def split: actor_input.splits actor_command.splits)
    (intro ext, auto simp: shared.input_ok_def shared.command_ok_def shared.proper_request_def unforged_def
      actor_print_def split: actor_input.splits actor_command.splits)

definition worker_ledger :: "journal worker \<Rightarrow> ledger" where
  "worker_ledger w = ledger_of (worker_log w)"

lemma session_reachable:
  assumes "reachable (redb_env be rf time now out) (\<lambda>_. outside_namespace) cfg lf w s r"
    and "worker_wf w" "admin_fresh anyone (worker_ledger w)"
  shows "session.based s \<or> r \<noteq> Running \<and> session.strayed s" "r = Running \<Longrightarrow> session.live s"
  using session.reachable_based [of be rf time now out cfg lf w s r] assms
  by (simp_all add: inputs_ok worker_ledger_def)

lemma shared_reachable:
  assumes "reachable (redb_env be rf time now out) (\<lambda>_. unforged) cfg lf w s r"
    and "worker_wf w" "admin_fresh actor_print (worker_ledger w)"
  shows "shared.based s \<or> r \<noteq> Running \<and> shared.strayed s" "r = Running \<Longrightarrow> shared.live s"
  using shared.reachable_based [of be rf time now out cfg lf w s r] assms
  by (simp_all add: inputs_ok worker_ledger_def)

text \<open>In a journal whose IDs nobody has taken the actor's own are free in particular.\<close>

lemma admin_fresh_anyone: "admin_fresh anyone g \<Longrightarrow> admin_fresh rival g"
  unfolding admin_fresh_def anyone_def by blast

end
