(* ===== verification/Fix_Safety.thy ===== *)
theory Fix_Safety
  imports Fix_Reach
begin

text \<open>
  The safety properties of the session on a redb journal: every frame is journaled before it is
  sent, and the actor's counters are the journal's.
\<close>

section \<open>A concrete session\<close>

definition demo_config :: session_config where
  "demo_config = \<lparr>sc_begin_string = ''F'', sc_sender_comp_id = ''A'', sc_target_comp_id = ''B'',
     sc_heartbeat_interval_secs = 30, sc_reset_on_logon = False\<rparr>"

definition demo_env :: "journal worker env" where
  "demo_env = redb_env (\<lambda>_. no_faults) no_faults (\<lambda>_. ''t'') (\<lambda>_. 0) (\<lambda>_. None)"

definition demo_logon :: "field list" where
  "demo_logon = [Field 554 (as_bytes ''pw'')]"

definition demo_start :: "journal worker session \<times> run_state" where
  "demo_start = spawn_initiator demo_env demo_config demo_logon (spawn_worker fresh_journal)"

lemmas demo_eval = demo_env_def demo_config_def demo_logon_def redb_env_def redb_handle_def fresh_journal_def

lemma demo_started: "snd demo_start = Running" "length (s_wire (fst demo_start)) = 1"
    "s_phase (fst demo_start) = LogonSent" "s_next_out (fst demo_start) = 2"
  by (simp_all add: demo_start_def demo_eval fix_eval cong: fix_cong)

lemma demo_reachable:
  "reachable demo_env ok demo_config demo_logon (spawn_worker fresh_journal) (fst demo_start) Running"
  using demo_started(1) by (intro reach_start) (simp add: demo_start_def prod_eq_iff)

lemma fresh_worker: "worker_wf (spawn_worker fresh_journal)" "admin_fresh rival (worker_ledger (spawn_worker fresh_journal))"
proof -
  show "worker_wf (spawn_worker fresh_journal)"
    by (simp add: worker_wf_def spawn_worker_def fresh_journal_wf)
  have "db_commands fresh_journal = Map.empty"
    by (simp add: fresh_journal_def fix_eval cong: fix_cong)
  then show "admin_fresh rival (worker_ledger (spawn_worker fresh_journal))"
    by (auto simp: admin_fresh_def worker_ledger_def worker_log_def spawn_worker_def ledger_of_def log_of_def prints_def)
qed

text \<open>A frame of the counterparty, and what the session does with one that is ahead.\<close>

definition demo_frame :: "string \<Rightarrow> u64 \<Rightarrow> field list \<Rightarrow> bytes" where
  "demo_frame t q extra = (case encode_message (as_bytes ''F'') ([Field 35 (as_bytes t), Field 49 (as_bytes ''B''),
     Field 56 (as_bytes ''A''), Field 34 (as_bytes (dec64 q)), Field 52 (as_bytes ''t'')] @ extra) of Ok w \<Rightarrow> w | _ \<Rightarrow> [])"

definition demo_ahead :: "journal worker session \<times> run_state" where
  "demo_ahead = actor_step demo_env (ReadBytes (demo_frame ''0'' 5 [])) (fst demo_start)"

lemma demo_buffered: "length (s_gap_buffer (fst demo_ahead)) = 1 \<and> snd demo_ahead = Running"
  by (simp add: demo_ahead_def demo_frame_def demo_start_def demo_eval fix_eval cong: fix_cong)

lemma demo_ahead_reachable:
  "reachable demo_env (\<lambda>_ _. True) demo_config demo_logon (spawn_worker fresh_journal) (fst demo_ahead) (snd demo_ahead)"
  by (rule reach_step [OF demo_reachable]) (auto simp: demo_ahead_def)

section \<open>Properties\<close>

text \<open>C1: write-ahead. In every state a session can reach, running, finished, failed or crashed in
  the middle of an operation, every frame it ever handed to the socket is in the journal: as an
  outbound record, as a replay transmission, or, for the Logon, as the record of the same message
  with its sensitive values redacted. There is one exception, and the theorem says exactly when: a
  command that was journaled before a sequence reset and whose old number is the next number of the
  current numbering is handed to the socket again without a record of its own. That frame is the
  last one of a session that ends with it; no running session has such a frame. The clients may submit
  anything that does not forge the actor itself, an ID \<open>session:...\<close> together with a fingerprint
  \<open>admin:...\<close> (the planner's fingerprints are hexadecimal, so no request through the control service is one).\<close>

theorem frames_journaled_first:
  assumes "reachable (redb_env be rf time now out) (\<lambda>_. unforged) cfg lf w s r"
    and "worker_wf w" "admin_fresh actor_print (worker_ledger w)"
  shows "list_all (covered (worker_ledger (s_store s)) cfg lf) (s_wire s)
    \<or> r \<noteq> Running \<and> list_all (covered (worker_ledger (s_store s)) cfg lf) (butlast (s_wire s))
      \<and> (\<exists>i c. lg_cmds (worker_log (s_store s)) i = Some c
           \<and> cr_msg_seq_num c = lg_next_out (worker_log (s_store s)))"
proof -
  have "cfg_of s = (cfg, lf)" using assms(1) by (rule reachable_cfg)
  then have cfg: "s_config s = cfg" "s_logon_fields s = lf" by (simp_all add: cfg_of_def)
  from shared_reachable(1) [OF assms] show ?thesis
  proof
    assume "shared.based s"
    then show ?thesis
      using cfg by (simp add: shared.based_def shared.books_def wires_covered_def list_all_iff worker_ledger_def)
  next
    assume "r \<noteq> Running \<and> shared.strayed s"
    then show ?thesis
      using cfg by (auto simp: shared.strayed_def shared.stale_def shared.books_def list_all_iff worker_ledger_def
          at_out_def lg_next_out_def ledger_of_def)
  qed
qed

theorem frames_journaled_first_witness:
  "length (s_wire (fst demo_start)) = 1
    \<and> list_all (covered (worker_ledger (s_store (fst demo_start))) demo_config demo_logon) (s_wire (fst demo_start))"
  using frames_journaled_first [OF demo_reachable [unfolded demo_env_def] fresh_worker] demo_started(2) by blast

text \<open>C2: while a session runs, its three counters are those of the journal: the next outbound
  number follows the last outbound record, and the next inbound and event numbers are the stored ones. This holds
  whatever the clients submit, IDs of the form \<open>session:...\<close> and commands of an earlier numbering included, as
  long as no client forges a fingerprint of the actor's own form under such an ID.\<close>

theorem counters_are_the_journals:
  assumes "reachable (redb_env be rf time now out) (\<lambda>_. unforged) cfg lf w s Running"
    and "worker_wf w" "admin_fresh actor_print (worker_ledger w)"
  shows "s_next_out s = lg_next_out (worker_log (s_store s)) \<and> s_next_in s = lg_next_in (worker_log (s_store s))
    \<and> s_next_event s = lg_next_event (worker_log (s_store s))"
  using shared_reachable(2) [OF assms]
  by (simp add: shared.live_def shared.books_def in_step_def at_out_def lg_next_out_def ledger_of_def)

theorem counters_are_the_journals_witness:
  "lg_next_out (worker_log (s_store (fst demo_start))) = 2"
  using counters_are_the_journals [OF demo_reachable [unfolded demo_env_def] fresh_worker] demo_started(4) by simp

end
