(* ===== verification/Fix_Gap.thy ===== *)
theory Fix_Gap
  imports Fix_Safety
begin

text \<open>
  The gap buffer of the session: it is a map of at most 1024 frames, a running session only holds
  frames ahead of the number it expects, and draining it commits everything that has become
  contiguous. Nothing here depends on the store: \<open>E\<close> is any environment.
\<close>

section \<open>The invariant\<close>

definition gap_of :: "'st session \<Rightarrow> (u64 \<times> bytes) list \<times> u64" where
  "gap_of s = (s_gap_buffer s, s_next_in s)"

interpretation gap: projection gap_of
  by unfold_locales (simp_all add: gap_of_def)

definition gap_ok :: "'st session \<Rightarrow> bool" where
  "gap_ok s \<longleftrightarrow> distinct (map fst (s_gap_buffer s)) \<and> length (s_gap_buffer s) \<le> gap_buffer_limit"

definition gap_ahead :: "'st session \<Rightarrow> bool" where
  "gap_ahead s \<longleftrightarrow> gap_ok s \<and> list_all (\<lambda>p. s_next_in s < fst p) (s_gap_buffer s)"

abbreviation gap_triple :: "('st session \<Rightarrow> bool) \<Rightarrow> ('st, 'a) act \<Rightarrow> ('st session \<Rightarrow> bool) \<Rightarrow> bool" where
  "gap_triple P m Q \<equiv> triple P m (\<lambda>_. Q) (\<lambda>_. gap_ok)"

lemma gap_ahead_ok: "gap_ahead s \<Longrightarrow> gap_ok s"
  by (simp add: gap_ahead_def)

lemma gap_keeps:
  assumes "keeps gap_of m"
  shows "gap_triple gap_ahead m gap_ahead"
proof -
  have "gap_ahead s'" if "m s = (s', r)" "gap_ahead s" for s s' r
    using keeps_result [OF assms that(1)] that(2) by (simp add: gap_of_def gap_ahead_def gap_ok_def)
  then show ?thesis by (intro tripleI) (auto intro: gap_ahead_ok)
qed

lemma gap_bind:
  "gap_triple gap_ahead m gap_ahead \<Longrightarrow> (\<And>x. gap_triple gap_ahead (g x) gap_ahead) \<Longrightarrow>
   gap_triple gap_ahead (sbind m g) gap_ahead"
  by (rule triple_bind)

lemma gap_ok_frame:
  assumes "keeps frame_of m"
  shows "gap_triple gap_ok m gap_ok"
proof -
  have "gap_ok s'" if "m s = (s', r)" "gap_ok s" for s s' r
    using keeps_result [OF assms that(1)] that(2) by (simp add: frame_of_def gap_ok_def)
  then show ?thesis by (intro tripleI) auto
qed

lemma retain_ok: "distinct (map fst b) \<Longrightarrow> distinct (map fst (retain_pending i b))"
  "list_all (\<lambda>p. i \<le> fst p) (retain_pending i b)"
  by (auto simp: retain_pending_def list_all_iff distinct_map inj_on_def split_def)

lemma remove_ok: "distinct (map fst b) \<Longrightarrow> distinct (map fst (remove_entry i b))"
  "length (remove_entry i b) \<le> length b"
  by (auto simp: remove_entry_def distinct_map inj_on_def split_def)

lemma gap_drained:
  assumes "gap_ok s" "map_of (retain_pending (s_next_in s) (s_gap_buffer s)) (s_next_in s) = None"
  shows "gap_ahead (s\<lparr>s_gap_buffer := retain_pending (s_next_in s) (s_gap_buffer s)\<rparr>)"
proof -
  let ?p = "retain_pending (s_next_in s) (s_gap_buffer s)"
  have "s_next_in s < fst x" if "x \<in> set ?p" for x
  proof -
    have "s_next_in s \<le> fst x" using retain_ok(2) that unfolding list_all_iff by blast
    moreover have "fst x \<noteq> s_next_in s"
      using assms(2) that unfolding map_of_eq_None_iff by (metis image_eqI)
    ultimately show ?thesis by simp
  qed
  then show ?thesis
    using assms(1) length_retain_pending [of "s_next_in s" "s_gap_buffer s"]
    by (simp add: gap_ahead_def gap_ok_def retain_ok(1) list_all_iff)
qed

lemma gap_drain: "gap_triple gap_ok (drain E) gap_ahead"
proof -
  have "case drain E s of (s', r) \<Rightarrow>
     (case r of Ok _ \<Rightarrow> gap_ahead s' | Err e \<Rightarrow> gap_ok s' | Panic \<Rightarrow> gap_ok s')" if "gap_ok s" for s
    using that
  proof (induction "length (s_gap_buffer s)" arbitrary: s rule: less_induct)
    case less
    let ?p = "retain_pending (s_next_in s) (s_gap_buffer s)"
    let ?s = "s\<lparr>s_gap_buffer := remove_entry (s_next_in s) ?p\<rparr>"
    have ok: "gap_ok ?s"
      using less.prems retain_ok(1) remove_ok [where b = ?p and i = "s_next_in s"] length_retain_pending [of "s_next_in s" "s_gap_buffer s"]
      by (fastforce simp: gap_ok_def)
    show ?case
    proof (cases "map_of ?p (s_next_in s)")
      case None
      then show ?thesis using gap_drained [OF less.prems] by (subst drain.simps) simp
    next
      case (Some f)
      show ?thesis
      proof (cases "parse_inbound (s_config s) (s_logon_fields s) f")
        case (Ok m)
        obtain s' r where c: "commit_expected E m f ?s = (s', r)" by fastforce
        have buf: "s_gap_buffer s' = remove_entry (s_next_in s) ?p" using commit_expected_frame(1) [OF c] by simp
        then have ok': "gap_ok s'" using ok by (simp add: gap_ok_def)
        show ?thesis
        proof (cases r)
          case r: (Ok u)
          have "length (s_gap_buffer s') < length (s_gap_buffer s)"
            using remove_entry_shorter [OF Some] length_retain_pending [of "s_next_in s" "s_gap_buffer s"] buf by simp
          then show ?thesis
            using less.hyps ok' r Some Ok c by (subst drain.simps) simp
        qed (use ok' Some Ok c in \<open>subst drain.simps, simp\<close>)+
      qed (use ok Some in \<open>subst drain.simps, simp\<close>)+
    qed
  qed
  then show ?thesis by (simp add: triple_def)
qed

section \<open>The methods\<close>

lemma gap_commit_and_drain: "gap_triple gap_ok (commit_and_drain E m f) gap_ahead"
  unfolding commit_and_drain_def
  by (rule triple_bind [OF gap_ok_frame [OF frame.keeps_commit_expected]], rule triple_bind [OF gap_drain])
    (intro gap_keeps keeping)

lemma or_insert_ok:
  "gap_ahead s \<Longrightarrow> s_next_in s < q \<Longrightarrow> length (s_gap_buffer s) < gap_buffer_limit \<Longrightarrow>
   gap_ahead (s\<lparr>s_gap_buffer := or_insert q f (s_gap_buffer s)\<rparr>)"
  by (auto simp: gap_ahead_def gap_ok_def or_insert_def map_of_eq_None_iff)

lemma gap_buffer_ahead: "gap_triple (\<lambda>s. gap_ahead s \<and> s_next_in s < q) (buffer_ahead E q f) gap_ahead"
proof -
  have rest: "gap_triple gap_ahead (if b then sbind (send_resend_request E i) (\<lambda>_. set_phase p) else sreturn ()) gap_ahead"
    for b i p
    by (intro gap_keeps keeping)
  show ?thesis
    using rest unfolding buffer_ahead_def triple_def
    by (auto simp: sbind_apply sensure_def or_insert_ok gap_ahead_ok)
qed

lemma gap_handle_inbound: "gap_triple gap_ahead (handle_inbound E f) gap_ahead"
proof -
  have realign: "gap_triple gap_ok (sbind (realign E q) (\<lambda>_. commit_and_drain E m f)) gap_ahead" for q m
    by (rule triple_bind [OF gap_ok_frame [OF frame.keeps_realign] gap_commit_and_drain])
  have prefix: "gap_triple gap_ahead (parse_inbound_act f) gap_ahead" "gap_triple gap_ahead (instant_now E) gap_ahead"
      "gap_triple gap_ahead (slift (r :: (session_error, u64) result)) gap_ahead" for r
    by (intro gap_keeps keeping)+
  have stamp: "gap_triple gap_ahead (smodify (\<lambda>s. s\<lparr>s_last_inbound := n\<rparr>)) gap_ahead" for n
    by (rule triple_modify) (simp add: gap_ahead_def gap_ok_def)
  have possdup: "gap_triple gap_ahead (verify_possdup E m q) gap_ahead" for m q
    by (intro gap_keeps keeping)
  have "gap_triple (\<lambda>s. gap_ahead s \<and> x = s) (if s_next_in x < q then buffer_ahead E q f
     else if q < s_next_in x then
       (if c then verify_possdup E m q
        else if s_phase x = LogonSent
        then sbind (realign E q) (\<lambda>_. commit_and_drain E m f)
        else sfail (unexpected_seq (s_next_in x) q))
     else commit_and_drain E m f) gap_ahead" for x q c m
    by (intro triple_if)
      (auto intro: triple_weaken [OF gap_buffer_ahead] triple_weaken [OF possdup] triple_weaken [OF realign]
        triple_weaken [OF gap_commit_and_drain] triple_fail gap_ahead_ok)
  then have rest: "gap_triple gap_ahead (sbind (sget (\<lambda>s. s)) (\<lambda>s. if s_next_in s < q then buffer_ahead E q f
     else if q < s_next_in s then
       (if (case values_of m 43 of v # _ \<Rightarrow> v = as_bytes ''Y'' | [] \<Rightarrow> False) then verify_possdup E m q
        else if s_phase s = LogonSent
        then sbind (realign E q) (\<lambda>_. commit_and_drain E m f)
        else sfail (unexpected_seq (s_next_in s) q))
     else commit_and_drain E m f)) gap_ahead" for q m
    unfolding triple_def by (simp add: sbind_apply)
  show ?thesis
    unfolding handle_inbound_def
    by (rule gap_bind [OF prefix(1)], rule gap_bind [OF prefix(2)], rule gap_bind [OF stamp],
        rule gap_bind [OF prefix(3)], rule rest)
qed

section \<open>The loop\<close>

lemma gap_frames: "gap_triple gap_ahead (handle_frames E fs) gap_ahead"
proof (induction fs)
  case (Cons f fs)
  have "gap_triple gap_ahead (log_out (Incoming f)) gap_ahead" by (intro gap_keeps keeping)
  then show ?case
    using Cons gap_handle_inbound by (auto simp del: action_apply intro!: gap_bind)
qed (simp add: triple_def)

lemma gap_command: "gap_triple gap_ahead (handle_command E c) gap_ahead"
proof -
  have "keeps gap_of (run_command E c)"
    by (cases c) (auto simp: smap_def simp del: action_apply intro!: keeping)
  then have run: "s_gap_buffer s' = s_gap_buffer s \<and> s_next_in s' = s_next_in s" if "run_command E c s = (s', r)" for s s' r
    using that unfolding keeps_def gap_of_def by (metis fst_conv prod.inject)
  have "keeps gap_of (handle_command E c)"
    unfolding keeps_def
  proof
    fix s
    obtain s' r where "run_command E c s = (s', r)" by fastforce
    with run [OF this] show "gap_of (fst (handle_command E c s)) = gap_of s"
      by (cases r) (simp_all add: handle_command_def gap_of_def)
  qed
  then show ?thesis by (rule gap_keeps)
qed

lemma gap_turn: "gap_triple gap_ahead (run_turn E i) gap_ahead"
proof -
  have timer: "gap_triple gap_ahead (on_timer E) gap_ahead"
    unfolding on_timer_def Let_def by (intro gap_keeps keeping)
  have decode: "gap_triple gap_ahead (decode_input b) gap_ahead" for b
    by (rule gap_keeps) (auto simp: keeps_def decode_input_def gap_of_def split: prod.splits)
  have map: "gap_triple gap_ahead m gap_ahead \<Longrightarrow> gap_triple gap_ahead (smap g m) gap_ahead" for m :: "('a, unit) act" and g :: "unit \<Rightarrow> bool"
    unfolding smap_def by (erule gap_bind) (intro gap_keeps keeping)
  have base: "gap_triple gap_ahead (sreturn x) gap_ahead" "gap_triple gap_ahead (sfail e) gap_ahead"
    for x :: bool and e by (intro gap_keeps keeping)+
  have eof: "gap_triple gap_ahead (run_turn E ReadEof) gap_ahead"
    by (simp del: action_apply) (intro gap_keeps keeping)
  show ?thesis
    by (cases i) (auto simp del: action_apply run_turn.simps(4) simp: eof
        intro!: gap_bind map decode gap_frames gap_command timer base)
qed

lemma gap_conclude:
  assumes "gap_triple P m gap_ahead" "P s" "conclude (m s) = (s', r)"
  shows "gap_ok s' \<and> (r = Running \<longrightarrow> gap_ahead s')"
proof -
  obtain t x where m: "m s = (t, x)" by fastforce
  have "gap_ok t \<and> (is_Ok x \<longrightarrow> gap_ahead t)"
    using assms(1,2) m unfolding triple_def by (cases x) (fastforce simp: gap_ahead_ok)+
  then show ?thesis
    using assms(3) by (cases x) (auto simp: conclude_def m blocked_def gap_ok_def gap_ahead_def split: bool.splits)
qed

lemma gap_send_logon: "gap_triple (\<lambda>s. s_gap_buffer s = []) (send_logon E) gap_ahead"
proof -
  have "gap_ahead s'" if "send_logon E s = (s', r)" "s_gap_buffer s = []" for s s' r
    using keeps_result [OF frame.keeps_send_logon that(1)] that(2) by (simp add: frame_of_def gap_ahead_def gap_ok_def)
  then show ?thesis by (intro tripleI) (auto intro: gap_ahead_ok)
qed

lemma gap_reachable:
  "reachable E ok cfg lf st s r \<Longrightarrow> gap_ok s \<and> (r = Running \<longrightarrow> gap_ahead s)"
proof (induction rule: reachable.induct)
  case (reach_start s r)
  have new: "s_gap_buffer (new_actor E cfg lf st rec) = []" for rec by (simp add: new_actor_def)
  have run: "gap_triple (\<lambda>s. s_gap_buffer s = []) (sbind (send_logon E) (\<lambda>_. sbind (set_phase LogonSent) (\<lambda>_. sreturn True))) gap_ahead"
    by (rule triple_bind [OF gap_send_logon]) (intro gap_keeps keeping)
  show ?case
    using reach_start gap_conclude [OF run new] new
    by (auto simp: spawn_initiator_def blocked_def gap_ok_def simp del: action_apply split: result.splits)
next
  case (reach_step s i s' r)
  then show ?case
    using gap_conclude [OF gap_turn, of s E i s' r] by (simp add: actor_step_def)
qed

section \<open>Properties\<close>

text \<open>C3: in every state a session can reach, with any store and whatever the peer sends, the gap buffer
  holds at most one frame per sequence number and at most 1024 frames, and while the session runs
  every buffered frame is ahead of the number it expects: nothing that could be committed is left
  waiting.\<close>

theorem gap_buffer_bounded:
  assumes "reachable E ok cfg lf st s r"
  shows "distinct (map fst (s_gap_buffer s)) \<and> length (s_gap_buffer s) \<le> 1024
    \<and> (r = Running \<longrightarrow> list_all (\<lambda>p. s_next_in s < fst p) (s_gap_buffer s))"
  using gap_reachable [OF assms] by (auto simp: gap_ok_def gap_ahead_def gap_buffer_limit_def)

theorem gap_buffer_bounded_witness:
  "length (s_gap_buffer (fst demo_ahead)) = 1
    \<and> list_all (\<lambda>p. s_next_in (fst demo_ahead) < fst p) (s_gap_buffer (fst demo_ahead))"
  using gap_buffer_bounded [OF demo_ahead_reachable] demo_buffered by blast

end
