(* ===== verification/Fix_Replay.thy ===== *)
theory Fix_Replay
  imports Fix_Safety
begin

text \<open>
  What the answer to a ResendRequest is. \<open>replay_plan\<close> is the reference: application messages are
  replayed, every maximal run of other numbers is one gap fill. The loop of
  \<open>replay_validated_range\<close> carries out exactly this plan, and the plan accounts for every requested
  number once, in order.
\<close>

section \<open>The plan\<close>

datatype replay_item = Replay u64 bytes | GapFill u64 u64

definition application_wire :: "(u64 \<rightharpoonup> outbound_record) \<Rightarrow> u64 \<Rightarrow> bytes option" where
  "application_wire records q = (case records q of
     Some r \<Rightarrow> if cr_cl_ord_id (ob_command r) \<noteq> [] then Some (ob_wire r) else None
   | None \<Rightarrow> None)"

fun widen :: "u64 \<Rightarrow> replay_item list \<Rightarrow> replay_item list" where
  "widen q (GapFill a b # items) = GapFill q b # items"
| "widen q items = GapFill q (q + 1) # items"

fun replay_plan :: "(u64 \<rightharpoonup> outbound_record) \<Rightarrow> u64 list \<Rightarrow> replay_item list" where
  "replay_plan records [] = []"
| "replay_plan records (q # qs) = (case application_wire records q of
     Some w \<Rightarrow> Replay q w # replay_plan records qs
   | None \<Rightarrow> widen q (replay_plan records qs))"

text \<open>The numbers an item accounts for: a gap fill says that the next number is \<open>b\<close>.\<close>

fun accounts_for :: "replay_item \<Rightarrow> u64 list" where
  "accounts_for (Replay q w) = [q]"
| "accounts_for (GapFill a b) = seq_range a (b - 1)"

fun run_item :: "'st env \<Rightarrow> replay_item \<Rightarrow> ('st, unit) act" where
  "run_item E (Replay q w) = write_application_replay E w"
| "run_item E (GapFill a b) = write_gap_fill E a b"

fun run_items :: "'st env \<Rightarrow> replay_item list \<Rightarrow> ('st, unit) act" where
  "run_items E [] = sreturn ()"
| "run_items E (i # items) = sbind (run_item E i) (\<lambda>_. run_items E items)"

section \<open>The loop carries out the plan\<close>

definition close_gap :: "'st env \<Rightarrow> u64 \<Rightarrow> u64 option \<Rightarrow> ('st, unit) act" where
  "close_gap E e g = (case g of None \<Rightarrow> sreturn ()
     | Some a \<Rightarrow> sbind (slift (add64 e 1)) (\<lambda>after. write_gap_fill E a after))"

text \<open>A gap that is open before the loop goes into the first item.\<close>

definition with_gap :: "u64 option \<Rightarrow> u64 \<Rightarrow> replay_item list \<Rightarrow> replay_item list" where
  "with_gap g q items = (case g of None \<Rightarrow> items
     | Some a \<Rightarrow> (case items of GapFill b c # rest \<Rightarrow> GapFill a c # rest | _ \<Rightarrow> GapFill a q # items))"

lemma sbind_assoc: "sbind (sbind m f) g = sbind m (\<lambda>x. sbind (f x) g)"
  by (rule ext) (auto simp: sbind_def split: prod.splits result.splits)

lemma sbind_return [simp]: "sbind (sreturn x) f = f x"
  by (rule ext) (simp add: sbind_apply)

lemma sbind_sreturn [simp]: "sbind m sreturn = m"
  by (rule ext) (auto simp: sbind_apply split: prod.splits result.splits)

lemma with_gap_replay:
  "run_items E (with_gap g q (Replay q w # items)) =
     sbind (case g of None \<Rightarrow> sreturn () | Some a \<Rightarrow> write_gap_fill E a q) (\<lambda>_.
     sbind (write_application_replay E w) (\<lambda>_. run_items E items))"
  by (cases g) (simp_all add: with_gap_def del: action_apply)

lemma with_gap_widen:
  assumes "\<And>a b r. items = GapFill a b # r \<Longrightarrow> a = q + 1"
  shows "with_gap g q (widen q items) = with_gap (Some (case g of None \<Rightarrow> q | Some a \<Rightarrow> a)) (q + 1) items"
proof (cases items)
  case Nil
  then show ?thesis by (cases g) (simp_all add: with_gap_def)
next
  case (Cons i r)
  then show ?thesis by (cases i; cases g) (simp_all add: with_gap_def)
qed

lemma replay_loop_step:
  "replay_loop E records g (q # qs) = (case application_wire records q of
     Some w \<Rightarrow> sbind (case g of None \<Rightarrow> sreturn () | Some a \<Rightarrow> write_gap_fill E a q) (\<lambda>_.
       sbind (write_application_replay E w) (\<lambda>_. replay_loop E records None qs))
   | None \<Rightarrow> replay_loop E records (Some (case g of None \<Rightarrow> q | Some a \<Rightarrow> a)) qs)"
  by (cases "records q") (simp_all add: application_wire_def)

declare replay_loop.simps(2) [simp del]

text \<open>The numbers from \<open>m\<close> up to \<open>n\<close>, and what the plan is on them.\<close>

definition numbers :: "nat \<Rightarrow> nat \<Rightarrow> u64 list" where
  "numbers m n = map of_nat [m..<Suc n]"

lemma numbers_step: "m \<le> n \<Longrightarrow> numbers m n = of_nat m # numbers (Suc m) n"
  by (simp add: numbers_def upt_conv_Cons del: upt_Suc)

lemma numbers_done [simp]: "numbers (Suc n) n = []"
  by (simp add: numbers_def)

lemma seq_range_numbers: "seq_range a b = numbers (unat a) (unat b)"
  by (simp add: seq_range_def numbers_def)

lemma gap_numbers:
  assumes "m < unat b"
  shows "accounts_for (GapFill (of_nat m) b) = of_nat m # numbers (Suc m) (unat b - 1)"
proof -
  have m: "unat (of_nat m :: u64) = m" using assms unat_u64_less [of b] by (intro unat_of_nat_u64) simp
  have "b \<noteq> 0" using assms by auto
  then have "unat (b - 1) = unat b - 1" by (rule unat_minus_one)
  then show ?thesis using assms m numbers_step [of m "unat b - 1"] by (simp add: seq_range_numbers)
qed

lemma plan_numbers:
  assumes "m \<le> Suc n" "Suc n < 2 ^ 64"
  shows "concat (map accounts_for (replay_plan records (numbers m n))) = numbers m n
    \<and> (\<forall>a b r. replay_plan records (numbers m n) = GapFill a b # r \<longrightarrow> a = of_nat m \<and> m < unat b)"
  using assms(1)
proof (induction m rule: inc_induct)
  case base
  then show ?case by simp
next
  case (step m)
  then have m: "m \<le> n" by simp
  let ?items = "replay_plan records (numbers (Suc m) n)"
  have m1: "unat (of_nat m + 1 :: u64) = Suc m"
    using m assms(2) unat_of_nat_u64 [of "Suc m"] by (simp add: add.commute)
  show ?case
  proof (cases "application_wire records (of_nat m)")
    case (Some w)
    then show ?thesis using step.IH by (simp add: numbers_step [OF m])
  next
    case None
    show ?thesis
    proof (cases "\<exists>a b r. ?items = GapFill a b # r")
      case True
      then obtain a b r where items: "?items = GapFill a b # r" by blast
      with step.IH have a: "a = of_nat (Suc m)" "Suc m < unat b" by blast+
      have "accounts_for (GapFill (of_nat m) b) = of_nat m # accounts_for (GapFill a b)"
        using gap_numbers [of m b] gap_numbers [OF a(2)] a numbers_step [of "Suc m" "unat b - 1"]
        by (simp del: accounts_for.simps of_nat_Suc)
      then show ?thesis
        using None items a step.IH by (simp add: numbers_step [OF m] del: accounts_for.simps)
    next
      case False
      then have "widen (of_nat m) ?items = GapFill (of_nat m) (of_nat m + 1) # ?items"
        by (cases "(of_nat m :: u64, ?items)" rule: widen.cases) auto
      moreover have "accounts_for (GapFill (of_nat m) (of_nat m + 1)) = [of_nat m]"
        using gap_numbers [of m "of_nat m + 1"] m1 by (simp del: accounts_for.simps)
      ultimately show ?thesis
        using None m1 step.IH by (simp add: numbers_step [OF m] del: accounts_for.simps)
    qed
  qed
qed

lemma loop_plan:
  assumes "m \<le> Suc n" "Suc n < 2 ^ 64"
  shows "sbind (replay_loop E records g (numbers m n)) (close_gap E (of_nat n)) =
    run_items E (with_gap g (of_nat m) (replay_plan records (numbers m n)))"
  using assms(1)
proof (induction m arbitrary: g rule: inc_induct)
  case base
  have "(add64 (of_nat n) 1 :: (session_error, u64) result) = Ok (of_nat n + 1)"
    using assms(2) by (simp add: add64_def unat_of_nat_u64)
  then have "close_gap E (of_nat n) (Some a) = write_gap_fill E a (of_nat n + 1)" for a
    by (simp add: close_gap_def slift_def sbind_def)
  then show ?case
    by (cases g) (simp_all add: close_gap_def with_gap_def add.commute del: action_apply)
next
  case (step m)
  then have m: "m \<le> n" by simp
  show ?case
  proof (cases "application_wire records (of_nat m)")
    case (Some w)
    have "replay_plan records (numbers (Suc m) n) = with_gap None (of_nat (Suc m)) (replay_plan records (numbers (Suc m) n))"
      by (simp add: with_gap_def)
    then show ?thesis
      using Some step.IH [of None]
      by (simp add: numbers_step [OF m] replay_loop_step sbind_assoc with_gap_replay del: action_apply of_nat_Suc)
  next
    case None
    have "a = of_nat m + 1" if "replay_plan records (numbers (Suc m) n) = GapFill a b # r" for a b r
      using plan_numbers [OF _ assms(2), of "Suc m" records] that m by simp
    then show ?thesis
      using None step.IH [of "Some (case g of None \<Rightarrow> of_nat m | Some a \<Rightarrow> a)"]
      by (simp add: numbers_step [OF m] replay_loop_step with_gap_widen add.commute del: action_apply)
  qed
qed

text \<open>The plan from the numbers the counterparty asked for.\<close>

lemma loop_runs_plan:
  assumes "unat b \<le> Suc (unat e)" "Suc (unat e) < 2 ^ 64"
  shows "sbind (replay_loop E records None (seq_range b e)) (close_gap E e) = run_items E (replay_plan records (seq_range b e))"
  using loop_plan [OF assms, of E records None] by (simp add: seq_range_numbers with_gap_def)

lemma replay_in_plan: "Replay q w \<in> set (replay_plan records qs) \<longleftrightarrow> q \<in> set qs \<and> application_wire records q = Some w"
proof -
  have widen: "Replay q w \<in> set (widen p items) \<longleftrightarrow> Replay q w \<in> set items" for p items
    by (cases "(p, items)" rule: widen.cases) auto
  show ?thesis by (induction qs) (auto simp: widen split: option.splits)
qed

section \<open>Properties\<close>

definition loaded :: "outbound_record list \<Rightarrow> u64 \<rightharpoonup> outbound_record" where
  "loaded records = map_of (rev (map (\<lambda>r. (cr_msg_seq_num (ob_command r), r)) records))"

text \<open>C4: the answer to a ResendRequest is the plan: the loop with its open gap writes, in order,
  exactly the items of \<open>replay_plan\<close> on the loaded records.\<close>

theorem replay_follows_plan:
  assumes "unat b \<le> Suc (unat e)" "Suc (unat e) < 2 ^ 64"
  shows "replay_validated_range E b e =
    sbind (store_apply E (LoadOutboundRange b e)) (\<lambda>reply.
      case reply of
        Outbound records \<Rightarrow> run_items E (replay_plan (loaded records) (seq_range b e))
      | _ \<Rightarrow> sfail (Store ''outbound range query returned the wrong record type''))"
proof -
  have "sbind (replay_loop E records None (seq_range b e)) (close_gap E e) = run_items E (replay_plan records (seq_range b e))" for records
    by (rule loop_runs_plan [OF assms])
  then show ?thesis
    unfolding replay_validated_range_def close_gap_def loaded_def by (intro arg_cong [where f = "sbind _"] ext) simp
qed

theorem replay_follows_plan_witness:
  "replay_validated_range demo_env 1 2 = sbind (store_apply demo_env (LoadOutboundRange 1 2)) (\<lambda>reply.
      case reply of
        Outbound records \<Rightarrow> run_items demo_env (replay_plan (loaded records) (seq_range 1 2))
      | _ \<Rightarrow> sfail (Store ''outbound range query returned the wrong record type''))"
  by (rule replay_follows_plan) simp_all

text \<open>C5: the answer to a ResendRequest is complete. When the store returns the records of the range,
  \<open>replay_validated_range\<close> does what a sequence of replays and gap fills does, in which every requested
  number is accounted for exactly once and in order, a replay for its own number and a gap fill for all
  numbers before its NewSeqNo; and the numbers replayed are exactly those of the application messages
  among the records, each with its journaled bytes, so no application message is filled over and no
  administrative one is replayed.\<close>

theorem replay_plan_complete:
  assumes "unat b \<le> Suc (unat e)" "Suc (unat e) < 2 ^ 64"
    and "store_apply E (LoadOutboundRange b e) s = (s1, Ok (Outbound records))"
  shows "\<exists>items. replay_validated_range E b e s = run_items E items s1
    \<and> concat (map accounts_for items) = seq_range b e
    \<and> (\<forall>q w. Replay q w \<in> set items \<longleftrightarrow> q \<in> set (seq_range b e) \<and> application_wire (loaded records) q = Some w)"
proof (intro exI conjI allI)
  let ?items = "replay_plan (loaded records) (seq_range b e)"
  have "replay_validated_range E b e s
      = sbind (replay_loop E (loaded records) None (seq_range b e)) (close_gap E e) s1"
    unfolding replay_validated_range_def close_gap_def loaded_def
    by (subst sbind_apply) (simp add: assms(3) del: action_apply)
  then show "replay_validated_range E b e s = run_items E ?items s1"
    by (simp only: loop_runs_plan [OF assms(1,2)])
  show "concat (map accounts_for ?items) = seq_range b e"
    using plan_numbers [OF assms(1,2), of "loaded records"] by (simp add: seq_range_numbers)
qed (rule replay_in_plan)

text \<open>A Logon as number 1 and an order as number 2: a gap fill, then the order.\<close>

definition demo_records :: "outbound_record list" where
  "demo_records = [
     \<lparr>ob_command = \<lparr>cr_request_id = ''session:1'', cr_fingerprint = [], cr_cl_ord_id = [], cr_msg_seq_num = 1, cr_phase = Written\<rparr>,
       ob_wire = as_bytes ''logon''\<rparr>,
     \<lparr>ob_command = \<lparr>cr_request_id = ''order'', cr_fingerprint = ''f'', cr_cl_ord_id = ''c'', cr_msg_seq_num = 2, cr_phase = Written\<rparr>,
       ob_wire = as_bytes ''order''\<rparr>]"

definition demo_replay_env :: "journal worker env" where
  "demo_replay_env = demo_env\<lparr>e_apply := \<lambda>_ st _. (st, Ok (Outbound demo_records))\<rparr>"

theorem replay_plan_complete_witness:
  "\<exists>items s1. replay_validated_range demo_replay_env 1 2 (fst demo_start) = run_items demo_replay_env items s1
    \<and> concat (map accounts_for items) = seq_range 1 2 \<and> Replay 2 (as_bytes ''order'') \<in> set items
    \<and> (\<forall>w. Replay 1 w \<notin> set items)"
proof -
  have load: "store_apply demo_replay_env (LoadOutboundRange 1 2) (fst demo_start)
      = ((fst demo_start)\<lparr>s_tick := Suc (s_tick (fst demo_start))\<rparr>, Ok (Outbound demo_records))"
    by (simp add: store_apply_def demo_replay_env_def)
  have "2 \<in> set (seq_range 1 2 :: u64 list)" by (auto simp: seq_range_def image_iff intro: bexI [of _ 2])
  moreover have "application_wire (loaded demo_records) 2 = Some (as_bytes ''order'')"
      "application_wire (loaded demo_records) 1 = None"
    by (simp_all add: application_wire_def demo_records_def loaded_def)
  moreover obtain items where "replay_validated_range demo_replay_env 1 2 (fst demo_start)
        = run_items demo_replay_env items ((fst demo_start)\<lparr>s_tick := Suc (s_tick (fst demo_start))\<rparr>)"
      "concat (map accounts_for items) = seq_range 1 2"
      "\<And>q w. Replay q w \<in> set items \<longleftrightarrow> q \<in> set (seq_range 1 2) \<and> application_wire (loaded demo_records) q = Some w"
    using replay_plan_complete [OF _ _ load] by auto
  ultimately show ?thesis by (metis option.distinct(1))
qed

end
