(* ===== verification/Fix_Bytes.thy ===== *)
theory Fix_Bytes
  imports Fix_Prelude
begin

text \<open>
  The byte encodings of integers that the control plane and the IPC layer use: \<open>to_be_bytes\<close>,
  \<open>from_be_bytes\<close> and lower-case hexadecimal text.
\<close>

section \<open>Big-endian bytes\<close>

text \<open>\<open>be_bytes k n\<close> is \<open>n.to_be_bytes()\<close> for an unsigned type of \<open>k\<close> bytes.\<close>

fun be_bytes :: "nat \<Rightarrow> nat \<Rightarrow> bytes" where
  "be_bytes 0 n = []"
| "be_bytes (Suc k) n = be_bytes k (n div 256) @ [of_nat (n mod 256)]"

definition be_value :: "bytes \<Rightarrow> nat" where
  "be_value bs = foldl (\<lambda>v b. v * 256 + unat b) 0 bs"

lemma length_be_bytes [simp]: "length (be_bytes k n) = k"
  by (induction k arbitrary: n) simp_all

lemma be_value_simps [simp]: "be_value [] = 0" "be_value (bs @ [b]) = be_value bs * 256 + unat b"
  by (simp_all add: be_value_def)

lemma be_value_be_bytes: "be_value (be_bytes k n) = n mod 256 ^ k"
proof (induction k arbitrary: n)
  case (Suc k)
  have "unat (of_nat (n mod 256) :: u8) = n mod 256" by (rule unat_of_nat_u8) simp
  then show ?case
    by (simp add: Suc mod_mult2_eq [of n 256 "256 ^ k"] add.commute mult.commute)
qed simp

lemma be_value_round_trip [simp]: "n < 256 ^ k \<Longrightarrow> be_value (be_bytes k n) = n"
  by (simp add: be_value_be_bytes)

lemma be_bytes_inject: "m < 256 ^ k \<Longrightarrow> n < 256 ^ k \<Longrightarrow> be_bytes k m = be_bytes k n \<longleftrightarrow> m = n"
  by (metis be_value_round_trip)

section \<open>Hexadecimal text\<close>

definition hex_digit :: "nat \<Rightarrow> char" where
  "hex_digit n = ''0123456789abcdef'' ! n"

definition hex :: "bytes \<Rightarrow> string" where
  "hex input = concat (map (\<lambda>b. [hex_digit (unat (drop_bit 4 b)), hex_digit (unat (take_bit 4 b))]) input)"

lemma length_hex [simp]: "length (hex bs) = 2 * length bs"
  by (induction bs) (simp_all add: hex_def)

lemma hex_digit_inject: "m < 16 \<Longrightarrow> n < 16 \<Longrightarrow> hex_digit m = hex_digit n \<longleftrightarrow> m = n"
  unfolding hex_digit_def by (subst nth_eq_iff_index_eq) simp_all

lemma nibbles: "unat (drop_bit 4 b) < 16" "unat (take_bit 4 b) < 16" for b :: u8
proof -
  have "unat b div 16 < 16" using unat_u8_less [of b] by simp
  then show "unat (drop_bit 4 b) < 16" by (simp add: drop_bit_eq_div unat_div)
  show "unat (take_bit 4 b) < 16" by (simp add: take_bit_eq_mod unat_mod)
qed

lemma hex_inject [simp]: "hex xs = hex ys \<longleftrightarrow> xs = ys"
proof (induction xs arbitrary: ys)
  case Nil
  then show ?case by (cases ys) (simp_all add: hex_def)
next
  case (Cons x xs)
  show ?case
  proof (cases ys)
    case (Cons y zs)
    have "x = y" if "drop_bit 4 x = drop_bit 4 y" "take_bit 4 x = take_bit 4 y"
      using that by (metis bits_ident)
    with Cons.IH [of zs] Cons show ?thesis
      by (auto simp: hex_def hex_digit_inject nibbles word_unat_eq_iff [symmetric])
  qed (simp add: hex_def)
qed

lemma hex_digit_in: "n < 16 \<Longrightarrow> hex_digit n \<in> set ''0123456789abcdef''"
  unfolding hex_digit_def by (rule nth_mem) simp

lemma hex_chars: "c \<in> set (hex bs) \<Longrightarrow> c \<in> set ''0123456789abcdef''"
  using hex_digit_in nibbles unfolding hex_def by (induction bs) (auto simp del: set_simps simp: list.set)

end
