(* ===== verification/Fix_Control.thy ===== *)
theory Fix_Control
  imports Fix_Actor Fix_Bytes
begin

text \<open>
  The command planner of \<open>crates/fix-control/src/lib.rs\<close>: the control request, the envelope and
  risk checks, and the application message a command becomes.

  Two libraries are parameters of the model, collected in \<open>externals\<close>: \<open>rust_decimal\<close> (parsing, the
  checked product and the normalized text; the numbers themselves are any linearly ordered type
  with a zero) and \<open>sha2\<close>.
\<close>

section \<open>Data\<close>

datatype execution_mode = Inspect | DryRun | Certification | Live

datatype runtime_mode = RuntimeCertification | RuntimeLive

record live_auth =
  la_key_id :: string
  la_unix_ms :: u64
  la_nonce :: string
  la_mac_hex :: string

datatype side = Buy | Sell

datatype order_type = Market | Limit

datatype time_in_force = Day | Gtc | Ioc | Fok

record new_order_single =
  no_symbol :: string
  no_account :: string
  no_security_exchange :: string
  no_security_group :: string
  no_side :: side
  no_quantity :: string
  no_order_type :: order_type
  no_price :: "string option"
  no_time_in_force :: time_in_force
  no_maturity_month_year :: "string option"
  no_extra_tags :: "(u32 \<times> string) list"

record cancel_order =
  co_original_request_id :: "string option"
  co_cl_ord_id :: "string option"
  co_account :: string
  co_security_group :: string

record replace_order =
  ro_original_request_id :: string
  ro_symbol :: string
  ro_account :: "string option"
  ro_security_exchange :: "string option"
  ro_security_group :: "string option"
  ro_side :: side
  ro_quantity :: string
  ro_order_type :: order_type
  ro_price :: "string option"
  ro_time_in_force :: time_in_force

datatype control_command =
    SessionStatus
  | SessionLogout
  | NewOrderSingle new_order_single
  | CancelOrder cancel_order
  | ReplaceOrder replace_order

record control_request =
  rq_version :: u32
  rq_request_id :: string
  rq_profile :: string
  rq_execution_mode :: execution_mode
  rq_command :: control_command
  rq_auth :: "live_auth option"

record 'd policy =
  po_max_quantity :: 'd
  po_max_notional :: 'd
  po_allow_market_orders :: bool
  po_max_messages_per_second :: u32

datatype planned_command = PlannedStatus | PlannedLogout | Application application_request

record 'd planner =
  pl_profile :: string
  pl_runtime_mode :: runtime_mode
  pl_policy :: "'d policy"

record control_error =
  ce_code :: string
  ce_retryable :: bool
  ce_message :: string

record 'd externals =
  x_parse_decimal :: "string \<Rightarrow> 'd option"
  x_checked_mul :: "'d \<Rightarrow> 'd \<Rightarrow> 'd option"
  x_decimal_text :: "'d \<Rightarrow> string"
  x_sha256 :: "bytes \<Rightarrow> bytes"

definition invalid :: "string \<Rightarrow> control_error" where
  "invalid m = \<lparr>ce_code = ''INVALID_REQUEST'', ce_retryable = False, ce_message = m\<rparr>"

definition policy_denied :: "string \<Rightarrow> control_error" where
  "policy_denied m = \<lparr>ce_code = ''POLICY_DENIED'', ce_retryable = False, ce_message = m\<rparr>"

definition deny_all :: "'d::zero policy" where
  "deny_all = \<lparr>po_max_quantity = 0, po_max_notional = 0, po_allow_market_orders = False,
     po_max_messages_per_second = 0\<rparr>"

section \<open>The checks\<close>

definition is_ascii_alphanumeric :: "u8 \<Rightarrow> bool" where
  "is_ascii_alphanumeric b \<longleftrightarrow> is_digit b \<or> (65 \<le> b \<and> b \<le> 90) \<or> (97 \<le> b \<and> b \<le> 122)"

definition is_ascii_graphic :: "u8 \<Rightarrow> bool" where
  "is_ascii_graphic b \<longleftrightarrow> 33 \<le> b \<and> b \<le> 126"

definition valid_request_id :: "string \<Rightarrow> bool" where
  "valid_request_id i \<longleftrightarrow> i \<noteq> [] \<and> length i \<le> 128
     \<and> (\<forall>b \<in> set (as_bytes i). is_ascii_alphanumeric b \<or> b \<in> set (as_bytes ''._:-''))"

definition validate_envelope :: "'d planner \<Rightarrow> control_request \<Rightarrow> (control_error, unit) result" where
  "validate_envelope P r =
     (if rq_version r \<noteq> 1 then Err \<lparr>ce_code = ''SCHEMA_VERSION_UNSUPPORTED'', ce_retryable = False,
        ce_message = ''only control protocol version 1 is supported''\<rparr>
      else if rq_profile r \<noteq> pl_profile P then Err \<lparr>ce_code = ''PROFILE_NOT_FOUND'', ce_retryable = False,
        ce_message = ''request profile does not match this daemon''\<rparr>
      else if \<not> valid_request_id (rq_request_id r) then Err (invalid ''request_id contains unsupported characters'')
      else if rq_execution_mode r = Live then Err \<lparr>ce_code = ''LIVE_GUARD_NOT_ARMED'', ce_retryable = False,
        ce_message = ''live execution is disabled until capability proofs and pure-Rust TLS are approved''\<rparr>
      else if rq_execution_mode r = Certification \<and> pl_runtime_mode P \<noteq> RuntimeCertification
      then Err (policy_denied ''certification execution is disabled in a live daemon'')
      else Ok ())"

definition positive_decimal ::
    "('d::{linorder, zero}) externals \<Rightarrow> string \<Rightarrow> string \<Rightarrow> (control_error, 'd) result" where
  "positive_decimal X v name =
     bindR (ok_or (invalid (name @ '' is not a decimal string'')) (x_parse_decimal X v)) (\<lambda>d.
     if d \<le> 0 then Err (invalid (name @ '' must be positive'')) else Ok d)"

definition validate_price ::
    "('d::{linorder, zero}) externals \<Rightarrow> string option \<Rightarrow> (control_error, 'd option) result" where
  "validate_price X price = (case price of None \<Rightarrow> Ok None
     | Some p \<Rightarrow> bindR (positive_decimal X p ''price'') (\<lambda>d. Ok (Some d)))"

text \<open>\<open>validate_order\<close> returns the normalized quantity and price.\<close>

definition validate_order ::
    "('d::{linorder, zero}) externals \<Rightarrow> 'd planner \<Rightarrow> string \<Rightarrow> order_type \<Rightarrow> string option
      \<Rightarrow> (control_error, string \<times> string option) result" where
  "validate_order X P quantity ty price =
     bindR (positive_decimal X quantity ''quantity'') (\<lambda>q.
     if po_max_quantity (pl_policy P) < q
     then Err (policy_denied ''quantity exceeds the configured maximum'')
     else
       bindR (validate_price X price) (\<lambda>p.
       if ty = Limit \<and> p = None then Err (invalid ''limit order requires price'')
       else
         bindR (case p of None \<Rightarrow> Ok ()
           | Some d \<Rightarrow>
               bindR (ok_or (invalid ''notional overflow'') (x_checked_mul X q d)) (\<lambda>notional.
               if po_max_notional (pl_policy P) < notional
               then Err (policy_denied ''order notional exceeds the configured maximum'') else Ok ())) (\<lambda>_.
         Ok (x_decimal_text X q, map_option (x_decimal_text X) p))))"

fun side_code :: "side \<Rightarrow> string" where
  "side_code Buy = ''1''"
| "side_code Sell = ''2''"

fun order_type_code :: "order_type \<Rightarrow> string" where
  "order_type_code Market = ''1''"
| "order_type_code Limit = ''2''"

fun time_in_force_code :: "time_in_force \<Rightarrow> string" where
  "time_in_force_code Day = ''DAY''"
| "time_in_force_code Gtc = ''1''"
| "time_in_force_code Ioc = ''3''"
| "time_in_force_code Fok = ''4''"

definition schema_tags :: "u32 set" where
  "schema_tags = {1, 8, 9, 10, 11, 21, 34, 35, 38, 40, 41, 44, 49, 52, 54, 55, 56, 58, 59, 60, 1151, 200}"

definition validate_tag_value :: "u32 \<Rightarrow> string \<Rightarrow> (control_error, unit) result" where
  "validate_tag_value t v =
     (if t = 0 \<or> v = [] \<or> 64 < length v
         \<or> (\<exists>b \<in> set (as_bytes v). \<not> (is_ascii_graphic b \<and> b \<noteq> of_char (CHR ''='')))
      then Err (invalid (''tag '' @ dec (unat t) @ '' value is empty, too long, or not safe ASCII''))
      else Ok ())"

definition validate_extra_tag :: "u32 \<Rightarrow> string \<Rightarrow> (control_error, unit) result" where
  "validate_extra_tag t v =
     (if t \<in> schema_tags
      then Err (invalid (''extra tag '' @ dec (unat t) @ '' is managed by the order schema''))
      else validate_tag_value t v)"

section \<open>Identifiers\<close>

definition cl_ord_id :: "'d externals \<Rightarrow> string \<Rightarrow> string \<Rightarrow> string" where
  "cl_ord_id X profile request_id =
     ''FC-'' @ hex (take 12 (x_sha256 X
       (as_bytes ''fix-cli-clordid-v1'' @ [0] @ as_bytes profile @ [0] @ as_bytes request_id)))"

fun mode_text :: "execution_mode \<Rightarrow> string" where
  "mode_text Inspect = ''inspect''"
| "mode_text DryRun = ''dry_run''"
| "mode_text Certification = ''certification''"
| "mode_text Live = ''live''"

definition field_digest :: "field \<Rightarrow> bytes" where
  "field_digest f = be_bytes 4 (unat (field_tag f)) @ be_bytes 8 (length (field_value f)) @ field_value f"

text \<open>What is hashed, and the hash.\<close>

definition fingerprint_input :: "control_request \<Rightarrow> string \<Rightarrow> field list \<Rightarrow> bytes" where
  "fingerprint_input r mt fs =
     as_bytes ''fix-cli-command-v1'' @ [0] @ as_bytes (rq_profile r) @ [0]
     @ as_bytes (mode_text (rq_execution_mode r)) @ [0] @ as_bytes mt @ concat (map field_digest fs)"

definition fingerprint :: "'d externals \<Rightarrow> control_request \<Rightarrow> string \<Rightarrow> field list \<Rightarrow> string" where
  "fingerprint X r mt fs = hex (x_sha256 X (fingerprint_input r mt fs))"

section \<open>Planning\<close>

definition application ::
    "'d externals \<Rightarrow> 'd planner \<Rightarrow> control_request \<Rightarrow> string \<Rightarrow> field list \<Rightarrow> planned_command" where
  "application X P r mt fs = Application \<lparr>ar_request_id = rq_request_id r, ar_fingerprint = fingerprint X r mt fs,
     ar_cl_ord_id = cl_ord_id X (pl_profile P) (rq_request_id r), ar_msg_type = mt, ar_fields = fs\<rparr>"

definition text_field :: "u32 \<Rightarrow> string \<Rightarrow> field" where
  "text_field t v = Field t (as_bytes v)"

definition optional_field :: "u32 \<Rightarrow> string option \<Rightarrow> field list" where
  "optional_field t v = (case v of None \<Rightarrow> [] | Some x \<Rightarrow> [text_field t x])"

definition append_tif_then_price :: "field list \<Rightarrow> string option \<Rightarrow> time_in_force \<Rightarrow> field list" where
  "append_tif_then_price fs price tif =
     fs @ [text_field 59 (time_in_force_code tif)] @ optional_field 44 price"

fun extra_fields :: "(u32 \<times> string) list \<Rightarrow> (control_error, field list) result" where
  "extra_fields [] = Ok []"
| "extra_fields ((t, v) # rest) =
     bindR (validate_extra_tag t v) (\<lambda>_. bindR (extra_fields rest) (\<lambda>fs. Ok (text_field t v # fs)))"

definition new_order_base :: "new_order_single \<Rightarrow> string \<Rightarrow> field list" where
  "new_order_base order quantity =
     [text_field 1 (no_account order), text_field 21 ''1'', text_field 207 (no_security_exchange order),
      text_field 1151 (no_security_group order), text_field 55 (no_symbol order),
      text_field 54 (side_code (no_side order)), text_field 38 quantity,
      text_field 40 (order_type_code (no_order_type order))]"

definition plan_new_order ::
    "('d::{linorder, zero}) externals \<Rightarrow> 'd planner \<Rightarrow> new_order_single \<Rightarrow> (control_error, field list) result" where
  "plan_new_order X P order =
     bindR (validate_order X P (no_quantity order) (no_order_type order) (no_price order)) (\<lambda>(quantity, price).
     bindR (case no_maturity_month_year order of None \<Rightarrow> Ok [] | Some maturity \<Rightarrow>
         bindR (validate_tag_value 200 maturity) (\<lambda>_. Ok [text_field 200 maturity])) (\<lambda>maturity_fields.
     let fields = append_tif_then_price (new_order_base order quantity @ maturity_fields) price (no_time_in_force order)
     in bindR (extra_fields (no_extra_tags order)) (\<lambda>extra. Ok (fields @ extra))))"

definition orig_cl_ord_id :: "'d externals \<Rightarrow> 'd planner \<Rightarrow> cancel_order \<Rightarrow> (control_error, string) result" where
  "orig_cl_ord_id X P cancel =
     (case (co_original_request_id cancel, co_cl_ord_id cancel) of
        (Some request_id, None) \<Rightarrow> Ok (cl_ord_id X (pl_profile P) request_id)
      | (None, Some i) \<Rightarrow>
          if i = [] \<or> 64 < length i then Err (invalid ''cl_ord_id is empty or too long'') else Ok i
      | (Some _, Some _) \<Rightarrow> Err (invalid ''provide either original_request_id or cl_ord_id, not both'')
      | (None, None) \<Rightarrow> Err (invalid ''cancel requires original_request_id or cl_ord_id''))"

definition plan_cancel ::
    "'d externals \<Rightarrow> 'd planner \<Rightarrow> cancel_order \<Rightarrow> (control_error, field list) result" where
  "plan_cancel X P cancel =
     bindR (orig_cl_ord_id X P cancel) (\<lambda>orig.
     Ok [text_field 41 orig, text_field 1 (co_account cancel), text_field 1151 (co_security_group cancel)])"

definition plan_replace ::
    "('d::{linorder, zero}) externals \<Rightarrow> 'd planner \<Rightarrow> replace_order \<Rightarrow> (control_error, field list) result" where
  "plan_replace X P order =
     bindR (validate_order X P (ro_quantity order) (ro_order_type order) (ro_price order)) (\<lambda>(quantity, price).
     Ok (append_tif_then_price
       ([text_field 41 (cl_ord_id X (pl_profile P) (ro_original_request_id order))]
        @ optional_field 1 (ro_account order) @ optional_field 207 (ro_security_exchange order)
        @ optional_field 1151 (ro_security_group order)
        @ [text_field 55 (ro_symbol order), text_field 54 (side_code (ro_side order)), text_field 38 quantity,
           text_field 40 (order_type_code (ro_order_type order))])
       price (ro_time_in_force order)))"

definition plan ::
    "('d::{linorder, zero}) externals \<Rightarrow> 'd planner \<Rightarrow> control_request \<Rightarrow> (control_error, planned_command) result" where
  "plan X P r =
     bindR (validate_envelope P r) (\<lambda>_.
     case rq_command r of
       SessionStatus \<Rightarrow> Ok PlannedStatus
     | SessionLogout \<Rightarrow>
         if rq_execution_mode r \<noteq> Certification
         then Err (invalid ''session logout requires certification execution_mode'') else Ok PlannedLogout
     | NewOrderSingle order \<Rightarrow> bindR (plan_new_order X P order) (\<lambda>fs. Ok (application X P r ''D'' fs))
     | CancelOrder cancel \<Rightarrow> bindR (plan_cancel X P cancel) (\<lambda>fs. Ok (application X P r ''F'' fs))
     | ReplaceOrder order \<Rightarrow> bindR (plan_replace X P order) (\<lambda>fs. Ok (application X P r ''G'' fs)))"

lemmas [fix_eval] = invalid_def policy_denied_def is_ascii_alphanumeric_def is_ascii_graphic_def valid_request_id_def
  validate_envelope_def positive_decimal_def validate_price_def validate_order_def schema_tags_def
  validate_tag_value_def validate_extra_tag_def text_field_def optional_field_def append_tif_then_price_def
  new_order_base_def plan_new_order_def orig_cl_ord_id_def plan_cancel_def plan_replace_def plan_def application_def

end
