(* ===== verification/Fix_Limiter.thy ===== *)
theory Fix_Limiter
  imports Fix_Prelude
begin

text \<open>
  The \<open>SlidingWindowRateLimiter\<close> of \<open>crates/fix-control/src/lib.rs\<close>. An \<open>Instant\<close> is a number of
  nanoseconds; the clock never goes back, as the documentation of \<open>Instant\<close> promises.
\<close>

section \<open>The limiter\<close>

record rate_limit_state =
  rl_accepted :: "(nat \<times> string) list"
  rl_request_ids :: "string set"

definition second :: nat where
  "second = 1000000000"

definition new_limiter :: rate_limit_state where
  "new_limiter = \<lparr>rl_accepted = [], rl_request_ids = {}\<rparr>"

text \<open>The loop that pops the entries that are a second old; \<open>duration_since\<close> saturates at zero.\<close>

fun expire :: "nat \<Rightarrow> (nat \<times> string) list \<Rightarrow> string set \<Rightarrow> (nat \<times> string) list \<times> string set" where
  "expire now [] ids = ([], ids)"
| "expire now ((accepted_at, i) # rest) ids =
     (if second \<le> now - accepted_at then expire now rest (ids - {i}) else ((accepted_at, i) # rest, ids))"

definition try_acquire :: "nat \<Rightarrow> nat \<Rightarrow> string \<Rightarrow> rate_limit_state \<Rightarrow> rate_limit_state \<times> bool" where
  "try_acquire maximum now request_id l =
     (case expire now (rl_accepted l) (rl_request_ids l) of (accepted, ids) \<Rightarrow>
        let l' = \<lparr>rl_accepted = accepted, rl_request_ids = ids\<rparr> in
        if request_id \<in> ids then (l', True)
        else if maximum \<le> length accepted then (l', False)
        else (\<lparr>rl_accepted = accepted @ [(now, request_id)], rl_request_ids = insert request_id ids\<rparr>, True))"

definition release :: "string \<Rightarrow> rate_limit_state \<Rightarrow> rate_limit_state" where
  "release request_id l = \<lparr>rl_accepted = filter (\<lambda>(_, i). i \<noteq> request_id) (rl_accepted l),
     rl_request_ids = rl_request_ids l - {request_id}\<rparr>"

lemmas [fix_eval] = second_def new_limiter_def try_acquire_def release_def

section \<open>What its callers see\<close>

text \<open>
  A caller sees the answers. \<open>answers\<close> runs the limiter over a sequence of calls and records each with
  the boolean it returned; \<open>places\<close> reads the places that are taken off such a record and nothing else.
\<close>

datatype limiter_call = Acquire nat string | Release string

fun answers :: "nat \<Rightarrow> rate_limit_state \<Rightarrow> limiter_call list \<Rightarrow> (limiter_call \<times> bool) list" where
  "answers maximum l [] = []"
| "answers maximum l (Acquire now i # calls) =
     (case try_acquire maximum now i l of (l', granted) \<Rightarrow> (Acquire now i, granted) # answers maximum l' calls)"
| "answers maximum l (Release i # calls) = (Release i, True) # answers maximum (release i l) calls"

text \<open>The times of the calls, in order.\<close>

fun call_times :: "limiter_call list \<Rightarrow> nat list" where
  "call_times [] = []"
| "call_times (Acquire now i # calls) = now # call_times calls"
| "call_times (Release i # calls) = call_times calls"

definition recent :: "nat \<Rightarrow> nat \<times> string \<Rightarrow> bool" where
  "recent now p \<longleftrightarrow> now < fst p + second"

text \<open>The places taken so far and the time of the last call. An answer \<open>True\<close> takes a new place unless the
  request took one within the last second; taking a request back gives up the place it took within
  the last second.\<close>

fun place :: "nat \<times> (nat \<times> string) list \<Rightarrow> limiter_call \<times> bool \<Rightarrow> nat \<times> (nat \<times> string) list" where
  "place (_, ps) (Acquire now i, granted) =
     (now, if granted \<and> i \<notin> snd ` set (filter (recent now) ps) then ps @ [(now, i)] else ps)"
| "place (last_call, ps) (Release i, _) = (last_call, filter (\<lambda>p. \<not> (snd p = i \<and> recent last_call p)) ps)"

definition places :: "(limiter_call \<times> bool) list \<Rightarrow> (nat \<times> string) list" where
  "places trace = snd (foldl place (0, []) trace)"

text \<open>The answers a limiter should give: \<open>True\<close> to a request that took a place within the last second, and
  to any other exactly while fewer than \<open>maximum\<close> places were taken within it.\<close>

fun due_answers :: "nat \<Rightarrow> nat \<times> (nat \<times> string) list \<Rightarrow> limiter_call list \<Rightarrow> (limiter_call \<times> bool) list" where
  "due_answers maximum st [] = []"
| "due_answers maximum st (Acquire now i # calls) =
     (let granted = (i \<in> snd ` set (filter (recent now) (snd st)) \<or> length (filter (recent now) (snd st)) < maximum)
      in (Acquire now i, granted) # due_answers maximum (place st (Acquire now i, granted)) calls)"
| "due_answers maximum st (Release i # calls) =
     (Release i, True) # due_answers maximum (place st (Release i, True)) calls"

section \<open>The queue and the places\<close>

definition in_window :: "nat \<Rightarrow> nat \<times> string \<Rightarrow> bool" where
  "in_window a p \<longleftrightarrow> a \<le> fst p \<and> fst p < a + second"

text \<open>The queue holds the recent places, the set is its index, no request is in it twice, and the
  bound holds in every window.\<close>

definition tracks :: "nat \<Rightarrow> nat \<times> (nat \<times> string) list \<Rightarrow> rate_limit_state \<Rightarrow> bool" where
  "tracks maximum st l \<longleftrightarrow> rl_accepted l = filter (recent (fst st)) (snd st)
     \<and> rl_request_ids l = snd ` set (rl_accepted l) \<and> distinct (map snd (rl_accepted l))
     \<and> sorted (map fst (snd st)) \<and> (\<forall>p \<in> set (snd st). fst p \<le> fst st)
     \<and> (\<forall>a. length (filter (in_window a) (snd st)) \<le> maximum)"

lemma tracks_new: "tracks maximum (0, []) new_limiter"
  by (simp add: tracks_def new_limiter_def)

lemma expire_index:
  "distinct (map snd xs) \<Longrightarrow> snd (expire now xs (snd ` set xs)) = snd ` set (fst (expire now xs (snd ` set xs)))"
proof (induction xs)
  case (Cons p xs)
  obtain t i where p: "p = (t, i)" by (cases p)
  have "snd ` set (p # xs) - {i} = snd ` set xs"
    using Cons.prems p by auto
  with Cons p show ?case by auto
qed simp

lemma expire_recent:
  "sorted (map fst xs) \<Longrightarrow> fst (expire now xs ids) = filter (recent now) xs"
proof (induction now xs ids rule: expire.induct)
  case (2 now t i rest ids)
  have "second \<le> now - t \<longleftrightarrow> \<not> now < t + second" by (auto simp: second_def)
  moreover have "now < t + second \<Longrightarrow> \<forall>p \<in> set rest. now < fst p + second" using "2.prems" by fastforce
  ultimately show ?case using 2 by (auto simp: filter_id_conv recent_def)
qed simp

lemma tracks_expire:
  assumes "tracks maximum (before, ps) l" "before \<le> now"
  shows "expire now (rl_accepted l) (rl_request_ids l) = (filter (recent now) ps, snd ` set (filter (recent now) ps))"
proof -
  have inv: "rl_accepted l = filter (recent before) ps" "rl_request_ids l = snd ` set (rl_accepted l)"
      "distinct (map snd (rl_accepted l))" "sorted (map fst ps)"
    using assms(1) unfolding tracks_def fst_conv snd_conv by blast+
  have "sorted (map fst (rl_accepted l))" using inv(1,4) by (simp add: sorted_filter)
  moreover have "filter (recent now) (rl_accepted l) = filter (recent now) ps"
    using assms(2) unfolding inv(1) filter_filter by (intro filter_cong) (auto simp: recent_def)
  ultimately have fst: "fst (expire now (rl_accepted l) (rl_request_ids l)) = filter (recent now) ps"
    using expire_recent by simp
  with expire_index [OF inv(3), of now] show ?thesis
    unfolding inv(2) by (intro prod_eqI) simp_all
qed

lemma tracks_acquire:
  fixes i :: string
  assumes "tracks maximum (before, ps) l" "before \<le> now"
  defines "granted \<equiv> i \<in> snd ` set (filter (recent now) ps) \<or> length (filter (recent now) ps) < maximum"
  shows "snd (try_acquire maximum now i l) = granted"
    and "tracks maximum (place (before, ps) (Acquire now i, granted)) (fst (try_acquire maximum now i l))"
proof -
  let ?xs = "filter (recent now) ps"
  note e = tracks_expire [OF assms(1,2)]
  show "snd (try_acquire maximum now i l) = granted"
    by (auto simp: try_acquire_def e granted_def Let_def)
  have inv: "sorted (map fst ps)" "\<forall>p \<in> set ps. fst p \<le> now" "\<forall>a. length (filter (in_window a) ps) \<le> maximum"
    using assms(1,2) by (auto simp: tracks_def)
  have "distinct (map snd ?xs)"
  proof -
    have "?xs = filter (recent now) (rl_accepted l)"
      using assms(1,2) by (auto simp: tracks_def recent_def intro!: filter_cong)
    moreover have "distinct (map snd (rl_accepted l))" using assms(1) unfolding tracks_def by blast
    ultimately show ?thesis by (metis distinct_map_filter)
  qed
  moreover have "length (filter (in_window a) (ps @ [(now, i)])) \<le> maximum" if "length ?xs < maximum" for a
  proof (cases "in_window a (now, i)")
    case True
    then have "filter (in_window a) ps = filter (in_window a) ?xs"
      by (auto simp: in_window_def recent_def intro!: filter_cong)
    then have "length (filter (in_window a) ps) \<le> length ?xs" by (metis length_filter_le)
    with that True show ?thesis by simp
  next
    case False
    then show ?thesis using inv(3) by simp
  qed
  moreover have "recent now (now, i)" by (simp add: recent_def second_def)
  ultimately show "tracks maximum (place (before, ps) (Acquire now i, granted)) (fst (try_acquire maximum now i l))"
    using inv by (auto simp: try_acquire_def e granted_def tracks_def Let_def sorted_append)
qed

lemma tracks_release:
  assumes "tracks maximum (before, ps) l"
  shows "tracks maximum (place (before, ps) (Release i, True)) (release i l)"
proof -
  let ?keep = "\<lambda>p. \<not> (snd p = i \<and> recent before p)"
  have inv: "rl_accepted l = filter (recent before) ps" "rl_request_ids l = snd ` set (rl_accepted l)"
      "distinct (map snd (rl_accepted l))" "sorted (map fst ps)" "\<forall>p \<in> set ps. fst p \<le> before"
      "\<forall>a. length (filter (in_window a) ps) \<le> maximum"
    using assms unfolding tracks_def fst_conv snd_conv by blast+
  have queue: "rl_accepted (release i l) = filter (recent before) (filter ?keep ps)"
    unfolding release_def inv(1) by (induction ps) auto
  have "rl_request_ids (release i l) = snd ` set (rl_accepted (release i l))"
    using inv(2) by (auto simp: release_def)
  moreover have "distinct (map snd (rl_accepted (release i l)))"
    using inv(3) by (simp add: release_def distinct_map_filter)
  moreover have "length (filter (in_window a) (filter ?keep ps)) \<le> length (filter (in_window a) ps)" for a
    by (induction ps) auto
  then have "\<forall>a. length (filter (in_window a) (filter ?keep ps)) \<le> maximum"
    using inv(6) le_trans by blast
  moreover have "sorted (map fst (filter ?keep ps))" using inv(4) by (rule sorted_filter)
  moreover have "\<forall>p \<in> set (filter ?keep ps). fst p \<le> before" using inv(5) by simp
  ultimately show ?thesis
    unfolding tracks_def place.simps fst_conv snd_conv using queue by blast
qed

lemma answers_due:
  "tracks maximum st l \<Longrightarrow> sorted (fst st # call_times calls) \<Longrightarrow> answers maximum l calls = due_answers maximum st calls
     \<and> (\<forall>a. length (filter (in_window a) (snd (foldl place st (due_answers maximum st calls)))) \<le> maximum)"
proof (induction calls arbitrary: st l)
  case Nil
  then show ?case by (simp add: tracks_def)
next
  case (Cons c calls)
  obtain before ps where st: "st = (before, ps)" by fastforce
  show ?case
  proof (cases c)
    case (Acquire now i)
    have "before \<le> now" using Cons.prems(2) Acquire st by simp
    note step = tracks_acquire [OF Cons.prems(1) [unfolded st] this, of i]
    let ?granted = "snd (try_acquire maximum now i l)"
    have "fst (place st (Acquire now i, ?granted)) = now" by (simp add: st)
    with Cons.prems(2) Acquire have "sorted (fst (place st (Acquire now i, ?granted)) # call_times calls)" by simp
    from Cons.IH [OF _ this] step show ?thesis
      by (simp add: Acquire st split_beta del: place.simps)
  next
    case (Release i)
    have "fst (place st (Release i, True)) = before" by (simp add: st)
    with Cons.prems(2) Release st have "sorted (fst (place st (Release i, True)) # call_times calls)" by simp
    from Cons.IH [OF tracks_release [OF Cons.prems(1) [unfolded st], of i], folded st, OF this]
    show ?thesis by (simp add: Release)
  qed
qed

section \<open>Properties\<close>

text \<open>C29: the rate limit holds, by the answers the limiter gives. Whatever calls are made, at times that
  never go back, no window of a second, wherever it starts, contains more places than the maximum, where
  every answer \<open>True\<close> is a place taken at that time, except that a request which took one within the
  last second takes no second one, and a release gives the place back. And the limiter refuses no
  more than that asks for: every answer is the one due.\<close>

theorem rate_limit_holds:
  assumes "sorted (call_times calls)"
  shows "length (filter (\<lambda>p. a \<le> fst p \<and> fst p < a + second) (places (answers maximum new_limiter calls))) \<le> maximum
    \<and> answers maximum new_limiter calls = due_answers maximum (0, []) calls"
  using answers_due [OF tracks_new [of maximum], of calls] assms by (simp add: places_def in_window_def [abs_def])

text \<open>A repeated request, a refused one, one that gets in after a release, and one a second later.\<close>

theorem rate_limit_holds_witness:
  "let calls = [Acquire 5 ''a'', Acquire 6 ''a'', Acquire 6 ''b'', Release ''a'', Acquire 7 ''b'', Acquire 8 ''c'',
         Acquire (7 + second) ''c''] in
     map snd (answers 1 new_limiter calls) = [True, True, False, True, True, False, True]
     \<and> places (answers 1 new_limiter calls) = [(7, ''b''), (7 + second, ''c'')]
     \<and> length (filter (\<lambda>p. 7 \<le> fst p \<and> fst p < 7 + second) (places (answers 1 new_limiter calls))) \<le> 1"
proof -
  let ?calls = "[Acquire 5 ''a'', Acquire 6 ''a'', Acquire 6 ''b'', Release ''a'', Acquire 7 ''b'', Acquire 8 ''c'',
         Acquire (7 + second) ''c'']"
  have run: "answers 1 new_limiter ?calls = zip ?calls [True, True, False, True, True, False, True]"
    by (simp add: fix_eval)
  have "places (answers 1 new_limiter ?calls) = [(7, ''b''), (7 + second, ''c'')]"
    unfolding run by (simp add: places_def recent_def second_def)
  moreover have "map snd (answers 1 new_limiter ?calls) = [True, True, False, True, True, False, True]"
    unfolding run by simp
  moreover have "sorted (call_times ?calls)" by (simp add: second_def)
  note rate_limit_holds [OF this, of 7 1, THEN conjunct1]
  ultimately show ?thesis unfolding Let_def by blast
qed

end
