(* ===== verification/Fix_Service.thy ===== *)
theory Fix_Service
  imports Fix_Control Fix_Limiter
begin

text \<open>
  The control service of \<open>crates/fix-control/src/lib.rs\<close> and the \<open>SessionHandle\<close> of
  \<open>crates/fix-session/src/lib.rs\<close> through which it reaches the session actor.

  The world is what the service shares with the rest of the daemon: the session slot, the store
  behind the cloned handles, the rate limiter and the tick of the environment. A call of the
  handle is one step of the actor; the actor may take further steps between the lookup and the
  submission of \<open>execute\<close>, which are an argument of the model. The application gate excludes another
  \<open>execute\<close> from that section.
\<close>

section \<open>JSON values\<close>

datatype json = JNull | JBool bool | JNumber nat | JString string | JArray "json list" | JObject "(string \<times> json) list"

fun phase_text :: "session_phase \<Rightarrow> string" where
  "phase_text Disconnected = ''disconnected''"
| "phase_text Connecting = ''connecting''"
| "phase_text LogonSent = ''logon_sent''"
| "phase_text Synchronizing = ''synchronizing''"
| "phase_text Established = ''established''"
| "phase_text Recovering = ''recovering''"
| "phase_text LogoutSent = ''logout_sent''"
| "phase_text Blocked = ''blocked''"

definition status_json :: "session_status \<Rightarrow> json" where
  "status_json s = JObject [(''phase'', JString (phase_text (ss_phase s))),
     (''next_out'', JNumber (unat (ss_next_out s))), (''next_in'', JNumber (unat (ss_next_in s))),
     (''test_request_outstanding'', case ss_test_request_outstanding s of None \<Rightarrow> JNull | Some i \<Rightarrow> JString i)]"

definition command_result :: "command_record \<Rightarrow> json" where
  "command_result c = JObject
     [(''phase'', JString (case cr_phase c of Journaled \<Rightarrow> ''journaled'' | Written \<Rightarrow> ''written_to_socket'')),
      (''cl_ord_id'', JString (cr_cl_ord_id c)), (''msg_seq_num'', JNumber (unat (cr_msg_seq_num c))),
      (''venue_status'', JString ''pending'')]"

text \<open>The field values of a planned message are the bytes of strings, so the lossy decoding is exact.\<close>

definition validated_json :: "application_request \<Rightarrow> json" where
  "validated_json a = JObject [(''phase'', JString ''validated''), (''would_send'', JBool False),
     (''msg_type'', JString (ar_msg_type a)), (''cl_ord_id'', JString (ar_cl_ord_id a)),
     (''fields'', JArray (map (\<lambda>f. JObject [(''tag'', JNumber (unat (field_tag f))),
        (''value'', JString (str_of_bytes (field_value f)))]) (ar_fields a)))]"

section \<open>Responses\<close>

record control_error_body =
  eb_code :: string
  eb_retryable :: bool
  eb_message :: string

record control_response =
  rp_version :: u32
  rp_request_id :: string
  rp_ok :: bool
  rp_result :: "json option"
  rp_error :: "control_error_body option"

definition error_code_exit :: "string \<Rightarrow> int" where
  "error_code_exit code =
     (if code \<in> {''INVALID_REQUEST'', ''SCHEMA_VERSION_UNSUPPORTED'', ''PROFILE_NOT_FOUND''} then 2
      else if code \<in> {''AUTH_FAILED'', ''POLICY_DENIED'', ''LIVE_GUARD_NOT_ARMED''} then 3
      else if code \<in> {''SESSION_NOT_ESTABLISHED'', ''SESSION_RECOVERING''} then 4
      else if code = ''IDEMPOTENCY_CONFLICT'' then 5
      else if code \<in> {''PROTOCOL_ERROR'', ''TRANSPORT_ERROR''} then 6
      else if code = ''STORE_UNAVAILABLE'' then 7
      else if code \<in> {''TIMEOUT'', ''RATE_LIMITED''} then 8
      else 70)"

definition exit_code :: "control_response \<Rightarrow> int" where
  "exit_code r = (case rp_error r of None \<Rightarrow> 0 | Some e \<Rightarrow> error_code_exit (eb_code e))"

definition success :: "string \<Rightarrow> json \<Rightarrow> control_response" where
  "success i v = \<lparr>rp_version = 1, rp_request_id = i, rp_ok = True, rp_result = Some v, rp_error = None\<rparr>"

definition failure :: "string \<Rightarrow> string \<Rightarrow> bool \<Rightarrow> string \<Rightarrow> control_response" where
  "failure i code retryable m = \<lparr>rp_version = 1, rp_request_id = i, rp_ok = False, rp_result = None,
     rp_error = Some \<lparr>eb_code = code, eb_retryable = retryable, eb_message = m\<rparr>\<rparr>"

definition error_response :: "string \<Rightarrow> control_error \<Rightarrow> control_response" where
  "error_response i e = failure i (ce_code e) (ce_retryable e) (ce_message e)"

fun contains_text :: "string \<Rightarrow> string \<Rightarrow> bool" where
  "contains_text [] p = (p = [])"
| "contains_text (c # s) p = (starts_with (c # s) p \<or> contains_text s p)"

fun session_error_code :: "session_error \<Rightarrow> string \<times> bool" where
  "session_error_code NotEstablished = (''SESSION_NOT_ESTABLISHED'', True)"
| "session_error_code (Store m) =
     (if contains_text m ''different fingerprint'' then (''IDEMPOTENCY_CONFLICT'', False) else (''STORE_UNAVAILABLE'', True))"
| "session_error_code (Transport _) = (''TRANSPORT_ERROR'', True)"
| "session_error_code (Codec _) = (''PROTOCOL_ERROR'', False)"
| "session_error_code (Protocol _) = (''PROTOCOL_ERROR'', False)"
| "session_error_code ActorStopped = (''SESSION_NOT_ESTABLISHED'', True)"
| "session_error_code (InvalidApplication _) = (''INVALID_REQUEST'', False)"

definition session_error_response :: "string \<Rightarrow> session_error \<Rightarrow> control_response" where
  "session_error_response i e =
     (case session_error_code e of (code, retryable) \<Rightarrow> failure i code retryable (session_error_string e))"

section \<open>The session handle\<close>

record 'st world =
  w_slot :: "('st session \<times> run_state) option"
  w_shared :: 'st
  w_limiter :: rate_limit_state
  w_clock :: nat

text \<open>One step of the actor of the slot on the shared store. An actor that has ended takes no step.\<close>

definition step_session :: "'st env \<Rightarrow> actor_input \<Rightarrow> 'st world \<Rightarrow> 'st world" where
  "step_session E i w = (case w_slot w of
     Some (s, Running) \<Rightarrow>
       (case actor_step E i (s\<lparr>s_store := w_shared w, s_tick := w_clock w\<rparr>) of (s', r) \<Rightarrow>
          w\<lparr>w_slot := Some (s', r), w_shared := s_store s', w_clock := s_tick s'\<rparr>)
   | _ \<Rightarrow> w)"

text \<open>
  Sending a command and awaiting its reply: \<open>ActorStopped\<close> when the actor has ended or drops the
  reply channel in a panic.
\<close>

definition call :: "'st env \<Rightarrow> actor_command \<Rightarrow> 'st world \<Rightarrow> 'st world \<times> (session_error, actor_reply) result" where
  "call E command w = (case w_slot w of
     Some (_, Running) \<Rightarrow>
       (let w' = step_session E (Request command) w in
        (w', case w_slot w' of
           Some (_, Panicked) \<Rightarrow> Err ActorStopped
         | Some (s', _) \<Rightarrow> last (s_replies s')
         | None \<Rightarrow> Err ActorStopped))
   | _ \<Rightarrow> (w, Err ActorStopped))"

definition status_reply :: "(session_error, actor_reply) result \<Rightarrow> (session_error, session_status) result" where
  "status_reply r = bindR r (\<lambda>reply. case reply of AStatus s \<Rightarrow> Ok s | _ \<Rightarrow> Err ActorStopped)"

definition ack_reply :: "(session_error, actor_reply) result \<Rightarrow> (session_error, unit) result" where
  "ack_reply r = bindR r (\<lambda>reply. case reply of AAck \<Rightarrow> Ok () | _ \<Rightarrow> Err ActorStopped)"

definition stored_reply :: "(session_error, actor_reply) result \<Rightarrow> (session_error, command_record option) result" where
  "stored_reply r = bindR r (\<lambda>reply. case reply of AStoredCommand c \<Rightarrow> Ok c | _ \<Rightarrow> Err ActorStopped)"

definition command_reply :: "(session_error, actor_reply) result \<Rightarrow> (session_error, command_record) result" where
  "command_reply r = bindR r (\<lambda>reply. case reply of ACommand c \<Rightarrow> Ok c | _ \<Rightarrow> Err ActorStopped)"

type_synonym ('st, 'a) served = "'st world \<times> (session_error, 'a) result"

text \<open>The methods of \<open>SessionHandle\<close>.\<close>

definition handle_status :: "'st env \<Rightarrow> 'st world \<Rightarrow> ('st, session_status) served" where
  "handle_status E w = (case call E Status w of (w', r) \<Rightarrow> (w', status_reply r))"

definition handle_logout :: "'st env \<Rightarrow> string option \<Rightarrow> 'st world \<Rightarrow> ('st, unit) served" where
  "handle_logout E text w = (case call E (Logout text) w of (w', r) \<Rightarrow> (w', ack_reply r))"

definition handle_lookup_command :: "'st env \<Rightarrow> string \<Rightarrow> 'st world \<Rightarrow> ('st, command_record option) served" where
  "handle_lookup_command E request_id w = (case call E (LookupCommand request_id) w of (w', r) \<Rightarrow> (w', stored_reply r))"

definition handle_submit :: "'st env \<Rightarrow> application_request \<Rightarrow> 'st world \<Rightarrow> ('st, command_record) served" where
  "handle_submit E a w = (case call E (Submit a) w of (w', r) \<Rightarrow> (w', command_reply r))"

lemmas handle_methods [simp] = handle_status_def handle_logout_def handle_lookup_command_def handle_submit_def

section \<open>The service\<close>

record 'd service =
  sv_planner :: "'d planner"
  sv_has_store :: bool

definition lookup_persisted_command ::
    "'st env \<Rightarrow> 'd service \<Rightarrow> string \<Rightarrow> 'st world \<Rightarrow> ('st, command_record option) served" where
  "lookup_persisted_command E sv request_id w =
     (if sv_has_store sv then
        (case e_apply E (w_clock w) (w_shared w) (LoadCommand request_id) of (st, r) \<Rightarrow>
           (w\<lparr>w_shared := st, w_clock := Suc (w_clock w)\<rparr>,
            bindR (map_err (\<lambda>e. Store (store_error_string e)) r) (\<lambda>reply.
              case reply of StoredCommand c \<Rightarrow> Ok c
              | _ \<Rightarrow> Err (Store ''command lookup returned the wrong record type''))))
      else case w_slot w of
        None \<Rightarrow> (w, Ok None)
      | Some _ \<Rightarrow> handle_lookup_command E request_id w)"

definition acquire_slot :: "'st env \<Rightarrow> 'd service \<Rightarrow> string \<Rightarrow> 'st world \<Rightarrow> 'st world \<times> bool" where
  "acquire_slot E sv request_id w =
     (case try_acquire (unat (po_max_messages_per_second (pl_policy (sv_planner sv)))) (e_now E (w_clock w)) request_id
        (w_limiter w) of (l, admitted) \<Rightarrow> (w\<lparr>w_limiter := l, w_clock := Suc (w_clock w)\<rparr>, admitted))"

definition submit_admitted :: "'st env \<Rightarrow> application_request \<Rightarrow> 'st world \<Rightarrow> ('st, json) served" where
  "submit_admitted E a w =
     (case handle_submit E a w of (w', submission) \<Rightarrow>
        let w'' = (if submission \<in> {Err ActorStopped, Err NotEstablished}
                   then w'\<lparr>w_limiter := release (ar_request_id a) (w_limiter w')\<rparr> else w')
        in (w'', bindR submission (\<lambda>c. Ok (command_result c))))"

text \<open>
  The single-flight section of an application command: \<open>Inl\<close> is the early return with a complete
  response, \<open>Inr\<close> the result that is turned into one. \<open>between\<close> is what the actor does after the lookup.
\<close>

definition rate_limited :: "string \<Rightarrow> control_response" where
  "rate_limited i = failure i ''RATE_LIMITED'' True ''outbound message rate limit exceeded''"

definition submit_planned ::
    "'st env \<Rightarrow> 'd service \<Rightarrow> actor_input list \<Rightarrow> application_request \<Rightarrow> 'st world
      \<Rightarrow> 'st world \<times> (control_response + (session_error, json) result)" where
  "submit_planned E sv between a w =
     (case lookup_persisted_command E sv (ar_request_id a) w of
        (w1, Err e) \<Rightarrow> (w1, Inl (session_error_response (ar_request_id a) e))
      | (w1, Panic) \<Rightarrow> (w1, Inr Panic)
      | (w1, Ok (Some existing)) \<Rightarrow>
          (w1, Inr (if cr_fingerprint existing \<noteq> ar_fingerprint a
             then Err (Store (''request ID '' @ ar_request_id a @ '' was reused with a different fingerprint''))
             else Ok (command_result existing)))
      | (w1, Ok None) \<Rightarrow>
          (case w_slot w of
             None \<Rightarrow> (w1, Inr (Err ActorStopped))
           | Some _ \<Rightarrow>
               (case acquire_slot E sv (ar_request_id a) (fold (step_session E) between w1) of
                  (w2, False) \<Rightarrow> (w2, Inl (rate_limited (ar_request_id a)))
                | (w2, True) \<Rightarrow>
                    (case submit_admitted E a w2 of (w3, r) \<Rightarrow> (w3, Inr r)))))"

definition execute_planned ::
    "'st env \<Rightarrow> 'd service \<Rightarrow> actor_input list \<Rightarrow> control_request \<Rightarrow> planned_command \<Rightarrow> 'st world
      \<Rightarrow> 'st world \<times> (control_response + (session_error, json) result)" where
  "execute_planned E sv between r planned w = (case planned of
     PlannedStatus \<Rightarrow>
       (case w_slot w of
          Some _ \<Rightarrow> (case handle_status E w of (w', status) \<Rightarrow> (w', Inr (bindR status (\<lambda>s. Ok (status_json s)))))
        | None \<Rightarrow> (w, Inr (Ok (status_json \<lparr>ss_phase = Disconnected, ss_next_out = 0, ss_next_in = 0,
            ss_test_request_outstanding = None\<rparr>))))
   | PlannedLogout \<Rightarrow>
       (case w_slot w of
          Some _ \<Rightarrow> (case handle_logout E (Some (''control request '' @ rq_request_id r)) w of (w', done_) \<Rightarrow>
            (w', Inr (bindR done_ (\<lambda>_. Ok (JObject [(''phase'', JString ''logout_sent'')])))))
        | None \<Rightarrow> (w, Inr (Err ActorStopped)))
   | Application a \<Rightarrow>
       (case rq_execution_mode r of
          DryRun \<Rightarrow> (w, Inr (Ok (validated_json a)))
        | Inspect \<Rightarrow> (w, Inr (Err (InvalidApplication ''application command cannot use inspect mode'')))
        | _ \<Rightarrow> submit_planned E sv between a w))"

text \<open>\<open>None\<close> would be a panic of the task that serves the request.\<close>

definition execute ::
    "('d::{linorder, zero}) externals \<Rightarrow> 'st env \<Rightarrow> 'd service \<Rightarrow> actor_input list \<Rightarrow> control_request \<Rightarrow> 'st world
      \<Rightarrow> 'st world \<times> control_response option" where
  "execute X E sv between r w =
     (case plan X (sv_planner sv) r of
        Err e \<Rightarrow> (w, Some (error_response (rq_request_id r) e))
      | Panic \<Rightarrow> (w, None)
      | Ok planned \<Rightarrow>
          (case execute_planned E sv between r planned w of
             (w', Inl response) \<Rightarrow> (w', Some response)
           | (w', Inr (Ok v)) \<Rightarrow> (w', Some (success (rq_request_id r) v))
           | (w', Inr (Err e)) \<Rightarrow> (w', Some (session_error_response (rq_request_id r) e))
           | (w', Inr Panic) \<Rightarrow> (w', None)))"

lemmas [fix_eval] = status_json_def command_result_def validated_json_def error_code_exit_def exit_code_def success_def
  failure_def error_response_def session_error_response_def step_session_def call_def status_reply_def ack_reply_def
  stored_reply_def command_reply_def lookup_persisted_command_def acquire_slot_def submit_admitted_def
  rate_limited_def submit_planned_def execute_planned_def execute_def

end
