(* ===== verification/Fix_Planner.thy ===== *)
theory Fix_Planner
  imports Fix_Control Fix_Codec Fix_Safety
begin

text \<open>
  What the planner guarantees: an accepted order is inside the risk limits, the session accepts
  every message it plans, and a fingerprint determines the message it was computed from.
\<close>

section \<open>Fingerprints\<close>

lemma field_digest_split:
  assumes "field_digest f @ xs = field_digest g @ ys"
    and "length (field_value f) < 2 ^ 64" "length (field_value g) < 2 ^ 64"
  shows "f = g \<and> xs = ys"
proof -
  have parts: "be_bytes 4 (unat (field_tag f)) = be_bytes 4 (unat (field_tag g))
      \<and> be_bytes 8 (length (field_value f)) = be_bytes 8 (length (field_value g))
      \<and> field_value f @ xs = field_value g @ ys"
    using assms(1) by (simp add: field_digest_def)
  have "unat (field_tag f) < 256 ^ 4" "unat (field_tag g) < 256 ^ 4"
    using unat_u32_less [of "field_tag f"] unat_u32_less [of "field_tag g"] by simp_all
  with parts have "field_tag f = field_tag g" by (simp add: be_bytes_inject word_unat_eq_iff)
  moreover from parts assms have "length (field_value f) = length (field_value g)"
    by (simp add: be_bytes_inject)
  ultimately show ?thesis using parts by (simp add: field.expand)
qed

lemma field_digest_nonempty: "field_digest f \<noteq> []"
  by (metis append_is_Nil_conv field_digest_def length_be_bytes list.size(3) zero_neq_numeral)

lemma field_digests_inject:
  assumes "concat (map field_digest fs) = concat (map field_digest gs)"
    and "\<forall>f \<in> set fs \<union> set gs. length (field_value f) < 2 ^ 64"
  shows "fs = gs"
  using assms
proof (induction fs arbitrary: gs)
  case Nil
  then show ?case by (cases gs) (simp_all add: field_digest_nonempty)
next
  case (Cons f fs)
  show ?case
  proof (cases gs)
    case Nil
    with Cons.prems show ?thesis by (simp add: field_digest_nonempty)
  next
    case (Cons g gs')
    with Cons.prems field_digest_split [of f "concat (map field_digest fs)" g "concat (map field_digest gs')"]
    have "f = g" "concat (map field_digest fs) = concat (map field_digest gs')" by auto
    with Cons Cons.prems Cons.IH [of gs'] show ?thesis by simp
  qed
qed

lemma mode_text_split:
  "as_bytes (mode_text m) @ 0 # xs = as_bytes (mode_text n) @ 0 # ys \<Longrightarrow> m = n \<and> xs = ys"
  by (cases m; cases n) simp_all

lemma split_at_zero:
  "xs @ (0::u8) # as = ys @ 0 # bs \<Longrightarrow> 0 \<notin> set xs \<Longrightarrow> 0 \<notin> set ys \<Longrightarrow> xs = ys \<and> as = bs"
proof (induction xs arbitrary: ys)
  case Nil
  then show ?case by (cases ys) auto
next
  case (Cons x xs)
  then show ?case by (cases ys) auto
qed

lemma fingerprint_input_inject:
  assumes "fingerprint_input r mt fs = fingerprint_input r' mt' fs'"
    and "0 \<notin> set (as_bytes (rq_profile r))" "0 \<notin> set (as_bytes (rq_profile r'))"
    and "mt \<in> {''D'', ''F'', ''G''}" "mt' \<in> {''D'', ''F'', ''G''}"
    and "\<forall>f \<in> set fs \<union> set fs'. length (field_value f) < 2 ^ 64"
  shows "rq_profile r = rq_profile r' \<and> rq_execution_mode r = rq_execution_mode r' \<and> mt = mt' \<and> fs = fs'"
proof -
  have "as_bytes (rq_profile r) @ 0 # (as_bytes (mode_text (rq_execution_mode r)) @ 0 # (as_bytes mt @ concat (map field_digest fs)))
      = as_bytes (rq_profile r') @ 0 # (as_bytes (mode_text (rq_execution_mode r')) @ 0 # (as_bytes mt' @ concat (map field_digest fs')))"
    using assms(1) by (simp add: fingerprint_input_def)
  from split_at_zero [OF this assms(2,3)] have profile: "rq_profile r = rq_profile r'"
    and "as_bytes (mode_text (rq_execution_mode r)) @ 0 # (as_bytes mt @ concat (map field_digest fs))
      = as_bytes (mode_text (rq_execution_mode r')) @ 0 # (as_bytes mt' @ concat (map field_digest fs'))"
    by simp_all
  then have mode: "rq_execution_mode r = rq_execution_mode r'"
    and rest: "as_bytes mt @ concat (map field_digest fs) = as_bytes mt' @ concat (map field_digest fs')"
    using mode_text_split by blast+
  from rest assms(4,5) have "mt = mt' \<and> concat (map field_digest fs) = concat (map field_digest fs')" by auto
  with profile mode field_digests_inject [OF _ assms(6)] show ?thesis by blast
qed

section \<open>Planned messages\<close>

lemma plan_application:
  assumes "plan X P r = Ok (Application a)"
  obtains (order) order fs where "rq_command r = NewOrderSingle order" "plan_new_order X P order = Ok fs"
      "application X P r ''D'' fs = Application a"
    | (cancel) cancel fs where "rq_command r = CancelOrder cancel" "plan_cancel X P cancel = Ok fs"
      "application X P r ''F'' fs = Application a"
    | (replace) order fs where "rq_command r = ReplaceOrder order" "plan_replace X P order = Ok fs"
      "application X P r ''G'' fs = Application a"
  using assms unfolding plan_def by (auto simp: bindR_eqs application_def split: control_command.splits if_splits)

lemma plan_envelope: "plan X P r = Ok c \<Longrightarrow> validate_envelope P r = Ok ()"
  by (auto simp: plan_def bindR_eqs)

lemma plan_msg_type:
  "plan X P r = Ok (Application a) \<Longrightarrow> ar_msg_type a \<in> {''D'', ''F'', ''G''}
    \<and> ar_fingerprint a = fingerprint X r (ar_msg_type a) (ar_fields a) \<and> ar_request_id a = rq_request_id r"
  by (erule plan_application) (auto simp: application_def)

lemma positive_decimal_Ok: "positive_decimal X v n = Ok d \<longleftrightarrow> x_parse_decimal X v = Some d \<and> 0 < d"
  by (cases "x_parse_decimal X v") (auto simp: positive_decimal_def not_le)

lemma validate_order_Ok:
  assumes "validate_order X P quantity ty price = Ok (qt, pt)"
  obtains q where "x_parse_decimal X quantity = Some q" "0 < q" "q \<le> po_max_quantity (pl_policy P)"
    "qt = x_decimal_text X q"
    "price = None \<Longrightarrow> ty = Market \<and> pt = None"
    "\<And>p. price = Some p \<Longrightarrow> \<exists>d n. x_parse_decimal X p = Some d \<and> 0 < d \<and> x_checked_mul X q d = Some n
        \<and> n \<le> po_max_notional (pl_policy P) \<and> pt = Some (x_decimal_text X d)"
proof -
  have "ty = Market" if "ty \<noteq> Limit" using that by (cases ty) auto
  then show thesis using assms that
    by (cases price) (auto simp: validate_order_def validate_price_def bindR_eqs positive_decimal_Ok not_less
        split: if_splits)
qed

lemma field_tag_text [simp]: "field_tag (text_field t v) = t"
  by (simp add: text_field_def)

lemma extra_fields_Ok:
  "extra_fields extra = Ok fs \<Longrightarrow>
     map field_tag fs = map fst extra \<and> (\<forall>f \<in> set fs. field_tag f \<notin> schema_tags \<and> field_tag f \<noteq> 0)"
  by (induction extra arbitrary: fs rule: extra_fields.induct)
    (auto simp: bindR_eqs validate_extra_tag_def validate_tag_value_def split: if_splits)

text \<open>Extra tags that the planner lets through and the session refuses.\<close>

definition plain_tags :: "control_request \<Rightarrow> bool" where
  "plain_tags r = (case rq_command r of
     NewOrderSingle order \<Rightarrow> 43 \<notin> fst ` set (no_extra_tags order) \<and> 122 \<notin> fst ` set (no_extra_tags order)
   | _ \<Rightarrow> True)"

text \<open>What the session checks of a message it is asked to send.\<close>

definition submittable :: "string \<Rightarrow> field list \<Rightarrow> bool" where
  "submittable mt fs \<longleftrightarrow> (\<forall>f \<in> set fs. field_tag f \<notin> daemon_managed_tags \<and> field_tag f \<noteq> 0)
     \<and> (mt \<in> {''D'', ''G''} \<longrightarrow> 54 \<in> field_tag ` set fs)
     \<and> (mt \<in> {''F'', ''G''} \<longrightarrow> first_tag fs = Some 41)"

lemma schema_covers: "t \<notin> schema_tags \<Longrightarrow> t \<noteq> 43 \<Longrightarrow> t \<noteq> 122 \<Longrightarrow> t \<notin> daemon_managed_tags"
  by (auto simp: daemon_managed_tags_def schema_tags_def)

lemma optional_field_tags: "f \<in> set (optional_field t v) \<Longrightarrow> field_tag f = t"
  by (auto simp: optional_field_def split: option.splits)

lemma new_order_submittable:
  assumes "plan_new_order X P order = Ok fs"
    and "43 \<notin> fst ` set (no_extra_tags order)" "122 \<notin> fst ` set (no_extra_tags order)"
  shows "submittable ''D'' fs"
proof -
  from assms(1) obtain q p maturity extra
    where fs: "fs = append_tif_then_price (new_order_base order q @ maturity) p (no_time_in_force order) @ extra"
      and m: "(case no_maturity_month_year order of None \<Rightarrow> Ok [] | Some maturity \<Rightarrow>
         bindR (validate_tag_value 200 maturity) (\<lambda>_. Ok [text_field 200 maturity])) = Ok maturity"
      and extra: "extra_fields (no_extra_tags order) = Ok extra"
    by (auto simp: plan_new_order_def bindR_eq_Ok Let_def)
  from m have maturity: "\<forall>f \<in> set maturity. field_tag f = 200" by (auto simp: bindR_eqs split: option.splits)
  have tags: "field_tag ` set extra = fst ` set (no_extra_tags order)"
    using extra_fields_Ok [OF extra] by (metis list.set_map)
  have "field_tag f \<notin> daemon_managed_tags \<and> field_tag f \<noteq> 0" if "f \<in> set extra" for f
    using extra_fields_Ok [OF extra] that assms(2,3) schema_covers [of "field_tag f"] tags by (metis image_eqI)
  with maturity show ?thesis
    unfolding fs submittable_def append_tif_then_price_def new_order_base_def
    by (auto simp: daemon_managed_tags_def dest!: optional_field_tags)
qed

lemma replace_submittable: "plan_replace X P order = Ok fs \<Longrightarrow> submittable ''G'' fs"
  by (auto simp: plan_replace_def bindR_eqs append_tif_then_price_def daemon_managed_tags_def submittable_def
      first_tag_def dest!: optional_field_tags)

lemma cancel_submittable: "plan_cancel X P cancel = Ok fs \<Longrightarrow> submittable ''F'' fs"
  by (auto simp: plan_cancel_def bindR_eqs daemon_managed_tags_def submittable_def first_tag_def)

lemma planned_submittable:
  assumes "plan X P r = Ok (Application a)" "plain_tags r"
  shows "submittable (ar_msg_type a) (ar_fields a)"
  using assms by (cases rule: plan_application)
    (auto simp: application_def plain_tags_def dest: new_order_submittable replace_submittable cancel_submittable)


text \<open>A planned message with one of the other two tags is refused before anything happens.\<close>

lemma planned_unsubmittable:
  assumes "plan X P r = Ok (Application a)" "\<not> plain_tags r"
  shows "\<exists>f \<in> set (ar_fields a). field_tag f \<in> daemon_managed_tags"
  using assms(1)
proof (cases rule: plan_application)
  case (order order fs)
  from order(2) obtain q p maturity extra
    where fs: "fs = append_tif_then_price (new_order_base order q @ maturity) p (no_time_in_force order) @ extra"
      and extra: "extra_fields (no_extra_tags order) = Ok extra"
    by (auto simp: plan_new_order_def bindR_eq_Ok Let_def)
  have "field_tag ` set extra = fst ` set (no_extra_tags order)"
    using extra_fields_Ok [OF extra] by (metis list.set_map)
  then have "43 \<in> field_tag ` set extra \<or> 122 \<in> field_tag ` set extra"
    using assms(2) order(1) by (simp add: plain_tags_def)
  then obtain f where f: "f \<in> set extra" "field_tag f = 43 \<or> field_tag f = 122" by fastforce
  moreover have "ar_fields a = fs" using order(3) by (auto simp: application_def)
  ultimately show ?thesis
    using fs by (intro bexI [of _ f]) (auto simp: daemon_managed_tags_def)
qed (use assms(2) in \<open>simp_all add: plain_tags_def\<close>)

section \<open>What the session makes of a planned message\<close>

text \<open>\<open>returns m Q\<close>: the action always returns, with a result in \<open>Q\<close>.\<close>

definition returns :: "('s, 'e, 'a) action \<Rightarrow> ('a \<Rightarrow> bool) \<Rightarrow> bool" where
  "returns m Q \<longleftrightarrow> (\<forall>s. \<exists>s' x. m s = (s', Ok x) \<and> Q x)"

lemma returnsI: "(\<And>s. \<exists>s' x. m s = (s', Ok x) \<and> Q x) \<Longrightarrow> returns m Q"
  by (simp add: returns_def)

lemma returns_bind: "returns m R \<Longrightarrow> (\<And>x. R x \<Longrightarrow> returns (f x) Q) \<Longrightarrow> returns (sbind m f) Q"
  unfolding returns_def by (metis sbind_steps(1))

lemma returns_simple: "returns (sreturn x) Q \<longleftrightarrow> Q x" "returns (sensure b e) R \<longleftrightarrow> b \<and> R ()"
  by (simp_all add: returns_def sensure_def)

lemma returns_lift: "r = Ok x \<Longrightarrow> Q x \<Longrightarrow> returns (slift r) Q"
  by (simp add: returns_def)

lemma returns_weaken: "returns m R \<Longrightarrow> (\<And>x. R x \<Longrightarrow> Q x) \<Longrightarrow> returns m Q"
  unfolding returns_def by blast

lemma returns_clock: "returns (sending_time E) (\<lambda>_. True)"
  by (simp add: returns_def sending_time_def tick_def sbind_def)

lemma returns_header: "returns (standard_header E t) (\<lambda>fs. first_tag fs = Some 35 \<and> encodable fs)"
  by (simp add: returns_def standard_header_def sending_time_def tick_def sbind_def first_tag_def encodable_def)

lemma encodable_append [simp]: "encodable (xs @ ys) \<longleftrightarrow> encodable xs \<and> encodable ys"
  by (auto simp: encodable_def)

lemma encodable_Cons [simp]: "encodable (f # fs) \<longleftrightarrow> field_tag f \<noteq> 0 \<and> \<not> (8 \<le> field_tag f \<and> field_tag f \<le> 10) \<and> encodable fs"
  by (auto simp: encodable_def)

lemma encodable_Nil [simp]: "encodable []"
  by (simp add: encodable_def)

lemma first_tag_append [simp]: "first_tag (xs @ ys) = (if xs = [] then first_tag ys else first_tag xs)"
  by (cases xs) (simp_all add: first_tag_def)

lemma returns_push_body:
  assumes "first_tag out = Some t" "encodable out" "encodable body"
  shows "returns (push_body E requires out added body) (\<lambda>(fs, placed).
    first_tag fs = Some t \<and> encodable fs \<and> (placed \<longleftrightarrow> added \<or> requires \<and> 54 \<in> field_tag ` set body))"
  using assms
proof (induction body arbitrary: out added)
  case Nil
  then show ?case by (simp add: returns_def)
next
  case (Cons f body)
  have nonempty: "out \<noteq> []" using Cons.prems(1) by (auto simp: first_tag_def)
  have IH: "returns (push_body E requires (out @ f # xs) b body) (\<lambda>(fs, placed).
      first_tag fs = Some t \<and> encodable fs \<and> (placed \<longleftrightarrow> b \<or> requires \<and> 54 \<in> field_tag ` set body))"
    if "encodable xs" for xs b
    using Cons.IH [of "out @ f # xs" b] Cons.prems nonempty that by simp
  show ?case
  proof (cases "requires \<and> field_tag f = 54")
    case True
    have "returns (push_body E requires (out @ [f, Field 60 v]) True body) (\<lambda>(fs, placed).
        first_tag fs = Some t \<and> encodable fs \<and> (placed \<longleftrightarrow> added \<or> requires \<and> 54 \<in> field_tag ` set (f # body)))" for v
      using IH [of "[Field 60 v]" True] True by simp
    with True show ?thesis by (simp add: returns_bind [OF returns_clock])
  next
    case False
    with IH [of "[]" added] show ?thesis by auto
  qed
qed

lemma submittable_encodable: "submittable mt fs \<Longrightarrow> encodable fs"
  unfolding submittable_def encodable_def daemon_managed_tags_def managed_tag_iff by blast

lemma returns_application_fields:
  assumes "submittable (ar_msg_type a) (ar_fields a)"
  shows "returns (application_fields E a) (\<lambda>fs. first_tag fs = Some 35 \<and> encodable fs)"
proof -
  let ?mt = "ar_msg_type a"
  obtain orig body where split: "split_orig ?mt (ar_fields a) = Ok (orig, body)" "ar_fields a = orig @ body"
      "54 \<notin> field_tag ` set orig"
  proof (cases "?mt \<in> {''F'', ''G''}")
    case True
    with assms obtain f rest where "ar_fields a = f # rest" "field_tag f = 41"
      by (cases "ar_fields a") (auto simp: submittable_def first_tag_def)
    with True that [of "[f]" rest] show ?thesis by (simp add: split_orig_def)
  next
    case False
    with that [of "[]" "ar_fields a"] show ?thesis by (simp add: split_orig_def)
  qed
  have enc: "encodable orig" "encodable body"
    using submittable_encodable [OF assms] split(2) by simp_all
  have side: "?mt \<in> {''D'', ''G''} \<Longrightarrow> 54 \<in> field_tag ` set body"
    using assms split(2,3) by (auto simp: submittable_def)
  show ?thesis
    unfolding application_fields_def
  proof (rule returns_bind [OF returns_header])
    fix header assume header: "first_tag header = Some 35 \<and> encodable header"
    then have start: "first_tag (header @ orig @ [Field 11 (as_bytes (ar_cl_ord_id a))]) = Some 35"
        "encodable (header @ orig @ [Field 11 (as_bytes (ar_cl_ord_id a))])"
      using enc(1) by (auto split: list.splits, auto simp: first_tag_def)
    have "returns (case p of (orig, body) \<Rightarrow>
       sbind (push_body E (?mt \<in> {''D'', ''G''}) (header @ orig @ [Field 11 (as_bytes (ar_cl_ord_id a))]) False body)
       (\<lambda>(fields, transact_time_added).
         sbind (sensure (\<not> (?mt \<in> {''D'', ''G''} \<and> \<not> transact_time_added))
           (InvalidApplication ''order message is missing Side(54)'')) (\<lambda>_. sreturn fields)))
       (\<lambda>fs. first_tag fs = Some 35 \<and> encodable fs)" if "p = (orig, body)" for p
      unfolding that prod.case
      using side by (intro returns_bind [OF returns_push_body [OF start enc(2)]])
        (auto simp: returns_simple intro!: returns_bind [of "sensure _ _" "\<lambda>_. True"] simp del: action_apply)
    then show "returns (sbind (slift (split_orig ?mt (ar_fields a))) (\<lambda>(orig, body).
       sbind (push_body E (?mt \<in> {''D'', ''G''}) (header @ orig @ [Field 11 (as_bytes (ar_cl_ord_id a))]) False body)
       (\<lambda>(fields, transact_time_added).
         sbind (sensure (\<not> (?mt \<in> {''D'', ''G''} \<and> \<not> transact_time_added))
           (InvalidApplication ''order message is missing Side(54)'')) (\<lambda>_. sreturn fields))))
       (\<lambda>fs. first_tag fs = Some 35 \<and> encodable fs)"
      by (rule returns_bind [OF returns_lift [OF split(1)]]) (rule refl)
  qed
qed

text \<open>Which errors the rest of \<open>submit_application\<close> can end in.\<close>

fun outside :: "session_error option \<Rightarrow> bool" where
  "outside None = True"
| "outside (Some (Store _)) = True"
| "outside (Some (Transport _)) = True"
| "outside _ = False"

definition only_outside :: "('st, 'a) act \<Rightarrow> bool" where
  "only_outside m \<longleftrightarrow> triple (\<lambda>_. True) m (\<lambda>_ _. True) (\<lambda>e _. outside e)"

lemma only_outside_bind: "only_outside m \<Longrightarrow> (\<And>x. only_outside (f x)) \<Longrightarrow> only_outside (sbind m f)"
  unfolding only_outside_def by (rule triple_bind [where R = "\<lambda>_ _. True"])

lemma only_outside_simple:
  "only_outside (sreturn x)" "only_outside (sget g)" "only_outside (smodify h)"
  "only_outside (sfail (Store m))" "only_outside (sfail (Transport m))" "only_outside (slift (add64 a b))"
  "only_outside tick" "only_outside (store_apply E op)" "only_outside (log_out l)"
  by (auto simp: only_outside_def triple_def tick_def store_apply_def log_out_def split: prod.splits result.splits)

lemma only_outside_option: "only_outside m \<Longrightarrow> (\<And>y. only_outside (f y)) \<Longrightarrow> only_outside (case x of None \<Rightarrow> m | Some y \<Rightarrow> f y)"
  by (cases x) simp_all

lemma only_outside_if: "only_outside m \<Longrightarrow> only_outside n \<Longrightarrow> only_outside (if b then m else n)"
  by simp

lemmas outside_rules = only_outside_bind only_outside_simple only_outside_option only_outside_if

lemma only_outside_reply:
  assumes "\<And>c. only_outside (f c)"
  shows "only_outside (case reply of Command c \<Rightarrow> f c | _ \<Rightarrow> sfail (Store m))"
  using assms by (cases reply) (simp_all add: only_outside_simple del: action_apply)

lemma only_outside_sending:
  "only_outside (commit_command E i fp cl w wrong)" "only_outside (write_wire E w)" "only_outside (mark_written E i q)"
  "only_outside (advance_next_out q)"
  unfolding commit_command_def write_wire_def write_call_def instant_now_def mark_written_def advance_next_out_def
  by (intro outside_rules only_outside_reply)+

lemma only_outside_Err: "only_outside m \<Longrightarrow> snd (m s) = Err e \<Longrightarrow> outside (Some e)"
  unfolding only_outside_def using triple_Err [of "\<lambda>_. True" m] by (metis prod.collapse)

lemma submit_only_outside:
  assumes "submittable (ar_msg_type a) (ar_fields a)" "valid_msg_type (ar_msg_type a)" "s_phase s = Established"
    and "encode_message (as_bytes (sc_begin_string (s_config s))) [Field 35 []] = Ok w0"
    and "snd (submit_application E a s) = Err e"
  shows "outside (Some e)"
proof -
  obtain s1 fs where fields: "application_fields E a s = (s1, Ok fs)" "first_tag fs = Some 35" "encodable fs"
    using returns_application_fields [OF assms(1)] unfolding returns_def by blast
  have "keeps frame_of (application_fields E a)"
    unfolding application_fields_def by (intro keeping)
  then have "frame_of s1 = frame_of s" using fields(1) by (rule keeps_result)
  then have "s_config s1 = s_config s" by (simp add: frame_of_def)
  moreover obtain wire where wire: "encode_message (as_bytes (sc_begin_string (s_config s))) fs = Ok wire"
    using assms(4) fields(2,3) by (auto simp: encode_message_Ok Let_def)
  ultimately have encode: "encode_outbound fs s1 = (s1, Ok wire)"
    by (simp add: encode_outbound_def)
  have tags: "\<forall>f \<in> set (ar_fields a). field_tag f \<notin> daemon_managed_tags"
    using assms(1) by (simp add: submittable_def)
  show ?thesis
    using assms(5) unfolding submit_application_def
    by (simp add: fields(1) encode assms(2,3) tags sbind_apply [of "application_fields E a"] sbind_apply [of "encode_outbound fs"] sbind_apply [of "sget _"] sbind_apply [of "sensure _ _"])
      (erule only_outside_Err [rotated], intro outside_rules only_outside_sending only_outside_reply)
qed


text \<open>A planned order forges no fingerprint of the session actor: a fingerprint is hexadecimal.\<close>

lemma planned_unforged:
  assumes "plan X P r = Ok (Application a)"
  shows "unforged (Request (Submit a))"
proof -
  have "CHR ''m'' \<notin> set (hex bs)" for bs
    using hex_chars [of "CHR ''m''" bs] by auto
  moreover have "CHR ''m'' \<in> set fp" if "starts_with fp ''admin:''" for fp
    using that by (auto simp: starts_with_split)
  moreover have "\<exists>bs. ar_fingerprint a = hex bs"
    using plan_msg_type [OF assms] by (auto simp: fingerprint_def)
  ultimately have "\<not> starts_with (ar_fingerprint a) ''admin:''" by metis
  then show ?thesis by (simp add: unforged_def)
qed

section \<open>A concrete planner\<close>

text \<open>Whole numbers as the decimals, and a digest that pads the input.\<close>

definition demo_externals :: "int externals" where
  "demo_externals = \<lparr>x_parse_decimal = (\<lambda>s. map_option int (parse_uint 1000000 s)),
     x_checked_mul = (\<lambda>a b. if a * b \<le> 1000000 then Some (a * b) else None),
     x_decimal_text = (\<lambda>d. dec (nat d)), x_sha256 = (\<lambda>bs. take 32 (bs @ replicate 32 0))\<rparr>"

definition demo_planner :: "int planner" where
  "demo_planner = \<lparr>pl_profile = ''p'', pl_runtime_mode = RuntimeCertification,
     pl_policy = \<lparr>po_max_quantity = 10, po_max_notional = 50, po_allow_market_orders = False,
       po_max_messages_per_second = 2\<rparr>\<rparr>"

definition demo_order :: "order_type \<Rightarrow> string option \<Rightarrow> new_order_single" where
  "demo_order ty price = \<lparr>no_symbol = ''S'', no_account = ''a'', no_security_exchange = ''E'', no_security_group = ''G'',
     no_side = Buy, no_quantity = ''7'', no_order_type = ty, no_price = price, no_time_in_force = Day,
     no_maturity_month_year = None, no_extra_tags = []\<rparr>"

definition demo_request :: "string \<Rightarrow> execution_mode \<Rightarrow> order_type \<Rightarrow> string option \<Rightarrow> control_request" where
  "demo_request i mode ty price = \<lparr>rq_version = 1, rq_request_id = i, rq_profile = ''p'', rq_execution_mode = mode,
     rq_command = NewOrderSingle (demo_order ty price), rq_auth = None\<rparr>"

definition demo_application :: "string \<Rightarrow> execution_mode \<Rightarrow> order_type \<Rightarrow> string option \<Rightarrow> application_request" where
  "demo_application i mode ty price = (case plan demo_externals demo_planner (demo_request i mode ty price) of
     Ok (Application a) \<Rightarrow> a | _ \<Rightarrow> undefined)"

lemmas demo_plan_eval = demo_externals_def demo_planner_def demo_order_def demo_request_def

lemma demo_plan:
  "plan demo_externals demo_planner (demo_request ''r1'' Certification Limit (Some ''7'')) =
     Ok (Application (demo_application ''r1'' Certification Limit (Some ''7'')))"
  by (simp add: demo_application_def demo_plan_eval fix_eval cong: fix_cong)

section \<open>Properties\<close>

text \<open>The quantity, order type and price of an order or a replacement.\<close>

definition order_terms :: "control_command \<Rightarrow> (string \<times> order_type \<times> string option) option" where
  "order_terms c = (case c of
     NewOrderSingle order \<Rightarrow> Some (no_quantity order, no_order_type order, no_price order)
   | ReplaceOrder order \<Rightarrow> Some (ro_quantity order, ro_order_type order, ro_price order)
   | _ \<Rightarrow> None)"

lemma planned_order:
  assumes "plan X P r = Ok (Application a)" "order_terms (rq_command r) = Some (quantity, ty, price)"
  shows "\<exists>qt pt. validate_order X P quantity ty price = Ok (qt, pt) \<and> text_field 38 qt \<in> set (ar_fields a)
    \<and> (\<forall>t. pt = Some t \<longrightarrow> text_field 44 t \<in> set (ar_fields a))"
  using assms(1)
proof (cases rule: plan_application)
  case (order order fs)
  then show ?thesis using assms(2)
    by (auto simp: order_terms_def plan_new_order_def bindR_eq_Ok Let_def append_tif_then_price_def
        new_order_base_def application_def optional_field_def)
next
  case (replace order fs)
  then show ?thesis using assms(2)
    by (auto simp: order_terms_def plan_replace_def bindR_eq_Ok append_tif_then_price_def application_def
        optional_field_def)
qed (use assms(2) in \<open>simp add: order_terms_def\<close>)

text \<open>Market orders escape two policy settings. A market order without a price is planned whatever
  \<open>allow_market_orders\<close> and \<open>max_notional\<close> are: the flag is never consulted, and no price means no
  notional check.\<close>

lemma market_orders_escape_policy:
  assumes "order_terms (rq_command r) = Some (quantity, Market, None)"
  shows "plan X (P\<lparr>pl_policy := (pl_policy P)\<lparr>po_max_notional := notional, po_allow_market_orders := allowed\<rparr>\<rparr>) r
    = plan X P r"
proof -
  let ?P = "P\<lparr>pl_policy := (pl_policy P)\<lparr>po_max_notional := notional, po_allow_market_orders := allowed\<rparr>\<rparr>"
  have "validate_order X ?P q Market None = validate_order X P q Market None" for q
    by (simp add: validate_order_def validate_price_def cong: if_cong)
  then show ?thesis
    using assms by (cases "rq_command r")
      (simp_all add: plan_def validate_envelope_def order_terms_def plan_new_order_def plan_replace_def application_def)
qed

text \<open>C26: risk limits. An order or replacement the planner accepts is never live, its quantity is a
  positive decimal up to the configured maximum, and a limit order has a price. An order with a price has a
  positive one and a notional up to the maximum; quantity and price on the wire are the checked numbers. The
  notional is bounded for priced orders only: an order without a price is a market order, and to
  that the planner gives the same answer whatever \<open>max_notional\<close> and \<open>allow_market_orders\<close> say, although the
  README has market orders always rejected.\<close>

theorem planned_orders_within_policy:
  assumes "plan X P r = Ok (Application a)" "order_terms (rq_command r) = Some (quantity, ty, price)"
  shows "rq_execution_mode r \<noteq> Live \<and> (\<exists>q. x_parse_decimal X quantity = Some q \<and> 0 < q
    \<and> q \<le> po_max_quantity (pl_policy P) \<and> text_field 38 (x_decimal_text X q) \<in> set (ar_fields a)
    \<and> (case price of
         None \<Rightarrow> ty = Market \<and> (\<forall>notional allowed. plan X (P\<lparr>pl_policy := (pl_policy P)\<lparr>po_max_notional := notional,
             po_allow_market_orders := allowed\<rparr>\<rparr>) r = Ok (Application a))
       | Some p \<Rightarrow> \<exists>d n. x_parse_decimal X p = Some d \<and> 0 < d \<and> x_checked_mul X q d = Some n
           \<and> n \<le> po_max_notional (pl_policy P) \<and> text_field 44 (x_decimal_text X d) \<in> set (ar_fields a)))"
proof -
  have "rq_execution_mode r \<noteq> Live"
    using plan_envelope [OF assms(1)] by (auto simp: validate_envelope_def split: if_splits)
  moreover from planned_order [OF assms] obtain qt pt where order: "validate_order X P quantity ty price = Ok (qt, pt)"
      "text_field 38 qt \<in> set (ar_fields a)" "\<forall>t. pt = Some t \<longrightarrow> text_field 44 t \<in> set (ar_fields a)" by blast
  moreover have "\<forall>notional allowed. plan X (P\<lparr>pl_policy := (pl_policy P)\<lparr>po_max_notional := notional,
      po_allow_market_orders := allowed\<rparr>\<rparr>) r = Ok (Application a)" if "price = None" "ty = Market"
    using market_orders_escape_policy [where r = r and quantity = quantity and X = X and P = P] assms that by simp
  ultimately show ?thesis
    by - (rule validate_order_Ok [OF order(1)], cases price; fastforce)
qed

text \<open>A limit order inside the limits, and a market order that is planned with the flag off and a
  notional limit of zero.\<close>

theorem planned_orders_within_policy_witness:
  "(\<exists>q. x_parse_decimal demo_externals ''7'' = Some q \<and> q \<le> 10)
    \<and> plan demo_externals (demo_planner\<lparr>pl_policy := (pl_policy demo_planner)\<lparr>po_max_notional := 0, po_allow_market_orders := False\<rparr>\<rparr>)
        (demo_request ''r2'' Certification Market None)
      = Ok (Application (demo_application ''r2'' Certification Market None))"
proof -
  have "plan demo_externals demo_planner (demo_request ''r2'' Certification Market None)
      = Ok (Application (demo_application ''r2'' Certification Market None))"
    by (simp add: demo_application_def demo_plan_eval fix_eval cong: fix_cong)
  from planned_orders_within_policy [OF this, of "''7''" Market None]
  have "plan demo_externals (demo_planner\<lparr>pl_policy := (pl_policy demo_planner)\<lparr>po_max_notional := 0, po_allow_market_orders := False\<rparr>\<rparr>)
        (demo_request ''r2'' Certification Market None)
      = Ok (Application (demo_application ''r2'' Certification Market None))"
    by (auto simp: order_terms_def demo_request_def demo_order_def)
  moreover have "\<exists>q. x_parse_decimal demo_externals ''7'' = Some q \<and> q \<le> 10"
    using planned_orders_within_policy [OF demo_plan, of "''7''" Limit "Some ''7''"]
    by (auto simp: order_terms_def demo_request_def demo_order_def demo_planner_def)
  ultimately show ?thesis by blast
qed

text \<open>C27: what the session makes of a planned message, exactly. Submitted to an established session, a
  planned message is refused for its content if and only if the request brings an extra tag 43
  (PossDupFlag) or 122 (OrigSendingTime): the planner lets the two through, and the session refuses
  them as managed by the daemon, without changing anything. Every other planned message is never refused as invalid, never
  fails to encode and is never refused for the phase: the only errors left are those of the store and
  of the connection. (The configured BeginString is one the encoder takes.)\<close>

theorem planned_messages_accepted:
  assumes "plan X P r = Ok (Application a)" "s_phase s = Established"
    and "encode_message (as_bytes (sc_begin_string (s_config s))) [Field 35 []] = Ok w0"
  shows "if plain_tags r
    then (case snd (submit_application E a s) of Err (Store m) \<Rightarrow> True | Err (Transport m) \<Rightarrow> True | Err _ \<Rightarrow> False | _ \<Rightarrow> True)
    else submit_application E a s = (s, Err (InvalidApplication ''request contains a daemon-managed tag''))"
proof (cases "plain_tags r")
  case True
  have "valid_msg_type (ar_msg_type a)"
    using plan_msg_type [OF assms(1)] by (auto simp: valid_msg_type_def)
  then have "outside (Some e)" if "snd (submit_application E a s) = Err e" for e
    using submit_only_outside [OF planned_submittable [OF assms(1) True] _ assms(2,3) that] by blast
  with True show ?thesis by (auto split: result.splits session_error.splits)
next
  case False
  have "valid_msg_type (ar_msg_type a)"
    using plan_msg_type [OF assms(1)] by (auto simp: valid_msg_type_def)
  with False planned_unsubmittable [OF assms(1) False] assms(2) show ?thesis
    by (auto simp: submit_application_def sbind_def sget_def sensure_def sfail_def sreturn_def)
qed

theorem planned_messages_accepted_witness:
  "case snd (submit_application demo_env (demo_application ''r1'' Certification Limit (Some ''7''))
      ((fst demo_start)\<lparr>s_phase := Established\<rparr>)) of
    Err (Store m) \<Rightarrow> True | Err (Transport m) \<Rightarrow> True | Err _ \<Rightarrow> False | _ \<Rightarrow> True"
proof -
  have "cfg_of (fst demo_start) = (demo_config, demo_logon)" by (rule reachable_cfg [OF demo_reachable])
  then have "sc_begin_string (s_config (fst demo_start)) = ''F''" by (simp add: cfg_of_def demo_config_def)
  moreover have "\<exists>w. encode_message (as_bytes ''F'') [Field 35 []] = Ok w"
    by (simp add: encode_message_Ok encodable_def first_tag_def Let_def)
  ultimately show ?thesis
    using planned_messages_accepted [OF demo_plan, of "(fst demo_start)\<lparr>s_phase := Established\<rparr>"]
    by (auto simp: plain_tags_def demo_request_def demo_order_def)
qed

text \<open>C28: a fingerprint determines the command. Two requests, planned by daemons of possibly different
  profiles to the same fingerprint, have the same profile, the same mode, the same message type and
  the same fields, unless SHA-256 collides on exactly the two different inputs hashed for them. (No profile name contains
  the NUL byte that ends it in the hashed input, and no value is longer than its 64-bit length.)\<close>

theorem fingerprint_determines_command:
  assumes "plan X P r = Ok (Application a)" "plan X P' r' = Ok (Application b)" "ar_fingerprint a = ar_fingerprint b"
    and "0 \<notin> set (as_bytes (pl_profile P))" "0 \<notin> set (as_bytes (pl_profile P'))"
    and "\<forall>f \<in> set (ar_fields a) \<union> set (ar_fields b). length (field_value f) < 2 ^ 64"
  shows "(rq_profile r = rq_profile r' \<and> rq_execution_mode r = rq_execution_mode r'
      \<and> ar_msg_type a = ar_msg_type b \<and> ar_fields a = ar_fields b)
    \<or> (fingerprint_input r (ar_msg_type a) (ar_fields a) \<noteq> fingerprint_input r' (ar_msg_type b) (ar_fields b)
      \<and> x_sha256 X (fingerprint_input r (ar_msg_type a) (ar_fields a))
        = x_sha256 X (fingerprint_input r' (ar_msg_type b) (ar_fields b)))"
proof -
  let ?x = "fingerprint_input r (ar_msg_type a) (ar_fields a)" and ?y = "fingerprint_input r' (ar_msg_type b) (ar_fields b)"
  have "x_sha256 X ?x = x_sha256 X ?y"
    using plan_msg_type [OF assms(1)] plan_msg_type [OF assms(2)] assms(3) by (simp add: fingerprint_def)
  moreover have "rq_profile r = pl_profile P" "rq_profile r' = pl_profile P'"
    using plan_envelope [OF assms(1)] plan_envelope [OF assms(2)] by (auto simp: validate_envelope_def split: if_splits)
  ultimately show ?thesis
    using fingerprint_input_inject [of r "ar_msg_type a" "ar_fields a" r' "ar_msg_type b" "ar_fields b"]
      plan_msg_type [OF assms(1)] plan_msg_type [OF assms(2)] assms(4-6) by metis
qed

theorem fingerprint_determines_command_witness:
  "ar_fields (demo_application ''r1'' Certification Limit (Some ''7'')) =
      ar_fields (demo_application ''r2'' Certification Limit (Some ''7''))"
proof -
  let ?r1 = "demo_request ''r1'' Certification Limit (Some ''7'')"
    and ?r2 = "demo_request ''r2'' Certification Limit (Some ''7'')"
    and ?a = "demo_application ''r1'' Certification Limit (Some ''7'')"
    and ?b = "demo_application ''r2'' Certification Limit (Some ''7'')"
  have r2: "plan demo_externals demo_planner ?r2 = Ok (Application ?b)"
    by (simp add: demo_application_def demo_plan_eval fix_eval cong: fix_cong)
  have same: "ar_msg_type ?a = ar_msg_type ?b" "ar_fields ?a = ar_fields ?b" "ar_fingerprint ?a = ar_fingerprint ?b"
    by (simp_all add: demo_application_def demo_plan_eval fix_eval fingerprint_def fingerprint_input_def cong: fix_cong)
  have "\<forall>f \<in> set (ar_fields ?a) \<union> set (ar_fields ?b). length (field_value f) < 2 ^ 64"
    by (simp add: demo_application_def demo_plan_eval fix_eval cong: fix_cong)
  moreover have "0 \<notin> set (as_bytes (pl_profile demo_planner))" by (simp add: demo_planner_def)
  ultimately show ?thesis
    using fingerprint_determines_command [OF demo_plan r2 same(3)] same(2) by blast
qed

end
