(* ===== verification/Fix_Gateway.thy ===== *)
theory Fix_Gateway
  imports Fix_Service Fix_Planner
begin

text \<open>
  What the control service promises its clients: every request is answered with a classified
  code, nothing but a certification request reaches the session, a request that is in the journal
  is answered from it, and a refused submission leaves no trace.
\<close>

section \<open>No panic\<close>

lemma validate_envelope_no_panic [simp]: "validate_envelope P r \<noteq> Panic"
  by (simp add: validate_envelope_def)

lemma validate_order_no_panic [simp]: "validate_order X P q t p \<noteq> Panic"
  by (auto simp: validate_order_def validate_price_def positive_decimal_def bindR_eqs split: option.splits)

lemma extra_fields_no_panic [simp]: "extra_fields xs \<noteq> Panic"
  by (induction xs rule: extra_fields.induct)
    (auto simp: bindR_eqs validate_extra_tag_def validate_tag_value_def split: if_splits)

lemma plan_no_panic [simp]: "plan X P r \<noteq> Panic"
  by (auto simp: plan_def plan_new_order_def plan_cancel_def plan_replace_def orig_cl_ord_id_def bindR_eqs Let_def
      validate_tag_value_def split: control_command.splits option.splits if_splits)

text \<open>What a call does, in terms of the method that handles the command.\<close>

lemma call_running:
  assumes "w_slot w = Some (s, Running)"
    and "run_command E c (s\<lparr>s_store := w_shared w, s_tick := w_clock w\<rparr>) = (s', r)"
    and "call E c w = (w', x)"
  shows "x = (case r of Panic \<Rightarrow> Err ActorStopped | _ \<Rightarrow> r)" "w_shared w' = s_store s'" "w_limiter w' = w_limiter w"
    "\<exists>t st. w_slot w' = Some (t, st) \<and> s_wire t = s_wire s'"
  using assms
  by (auto simp: call_def step_session_def actor_step_def smap_def sbind_apply handle_command_def conclude_def Let_def
      blocked_def split: result.splits if_splits)

lemma call_stopped: "\<forall>s. w_slot w \<noteq> Some (s, Running) \<Longrightarrow> call E c w = (w, Err ActorStopped)"
  by (auto simp: call_def split: option.splits run_state.splits)

lemma call_no_panic:
  assumes "call E c w = (w', r)"
  shows "r \<noteq> Panic"
proof (cases "\<exists>s. w_slot w = Some (s, Running)")
  case True
  then obtain s where s: "w_slot w = Some (s, Running)" by blast
  obtain s' x where "run_command E c (s\<lparr>s_store := w_shared w, s_tick := w_clock w\<rparr>) = (s', x)" by fastforce
  from call_running(1) [OF s this assms] show ?thesis by (auto split: result.splits)
next
  case False
  with assms call_stopped [of w E c] show ?thesis by auto
qed

lemma replies_no_panic [simp]:
  "r \<noteq> Panic \<Longrightarrow> status_reply r \<noteq> Panic" "r \<noteq> Panic \<Longrightarrow> ack_reply r \<noteq> Panic"
  "r \<noteq> Panic \<Longrightarrow> stored_reply r \<noteq> Panic" "r \<noteq> Panic \<Longrightarrow> command_reply r \<noteq> Panic"
  by (auto simp: status_reply_def ack_reply_def stored_reply_def command_reply_def bindR_eqs split: actor_reply.splits)

section \<open>Codes\<close>

definition known_codes :: "string set" where
  "known_codes = {''INVALID_REQUEST'', ''SCHEMA_VERSION_UNSUPPORTED'', ''PROFILE_NOT_FOUND'', ''POLICY_DENIED'',
     ''LIVE_GUARD_NOT_ARMED'', ''SESSION_NOT_ESTABLISHED'', ''IDEMPOTENCY_CONFLICT'', ''PROTOCOL_ERROR'',
     ''TRANSPORT_ERROR'', ''STORE_UNAVAILABLE'', ''RATE_LIMITED''}"

lemma known_codes_exit: "c \<in> known_codes \<Longrightarrow> error_code_exit c \<in> {2, 3, 4, 5, 6, 7, 8}"
  by (auto simp: known_codes_def error_code_exit_def)

lemma control_error_codes: "ce_code (invalid m) \<in> known_codes" "ce_code (policy_denied m) \<in> known_codes"
  by (simp_all add: invalid_def policy_denied_def known_codes_def)

lemma validate_codes:
  "validate_envelope P r = Err e \<Longrightarrow> ce_code e \<in> known_codes"
  "validate_order X P q t p = Err e \<Longrightarrow> ce_code e \<in> known_codes"
  "validate_tag_value tag v = Err e \<Longrightarrow> ce_code e \<in> known_codes"
  by (auto simp: validate_envelope_def validate_order_def validate_price_def positive_decimal_def bindR_eqs
      validate_tag_value_def invalid_def policy_denied_def known_codes_def split: option.splits if_splits)

lemma extra_codes: "extra_fields xs = Err e \<Longrightarrow> ce_code e \<in> known_codes"
  by (induction xs rule: extra_fields.induct)
    (auto simp: bindR_eqs validate_extra_tag_def control_error_codes dest: validate_codes split: if_splits)

lemma plan_codes: "plan X P r = Err e \<Longrightarrow> ce_code e \<in> known_codes"
  by (auto simp: plan_def plan_new_order_def plan_cancel_def plan_replace_def orig_cl_ord_id_def bindR_eqs Let_def
      control_error_codes split: control_command.splits option.splits if_splits dest: validate_codes extra_codes)

lemma session_codes: "fst (session_error_code e) \<in> known_codes"
  by (cases e) (simp_all add: known_codes_def)

text \<open>A response in order: it names the request, and it is a failure iff it carries a known code.\<close>

definition response_ok :: "string \<Rightarrow> control_response \<Rightarrow> bool" where
  "response_ok i p \<longleftrightarrow> rp_request_id p = i
     \<and> (if rp_ok p then rp_error p = None \<and> rp_result p \<noteq> None
        else rp_result p = None \<and> (\<exists>b. rp_error p = Some b \<and> eb_code b \<in> known_codes))"

lemma response_ok_intros [intro]:
  "response_ok i (success i v)" "response_ok i (session_error_response i e)" "response_ok i (rate_limited i)"
  "ce_code c \<in> known_codes \<Longrightarrow> response_ok i (error_response i c)"
  using session_codes [of e]
  by (simp_all add: response_ok_def success_def session_error_response_def rate_limited_def error_response_def failure_def
      split_beta) (simp add: known_codes_def)

lemma lookup_no_panic:
  assumes "lookup_persisted_command (redb_env be rf time now out) sv i w = (w', r)"
  shows "r \<noteq> Panic"
proof (cases "sv_has_store sv")
  case True
  obtain st x where x: "redb_handle be (w_clock w) (w_shared w) (LoadCommand i) = (st, x)" by fastforce
  then have "x \<noteq> Panic" by auto
  moreover have "r = bindR (map_err (\<lambda>e. Store (store_error_string e)) x) (\<lambda>reply.
      case reply of StoredCommand c \<Rightarrow> Ok c | _ \<Rightarrow> Err (Store ''command lookup returned the wrong record type''))"
    using assms True x by (simp add: lookup_persisted_command_def redb_env_def)
  ultimately show ?thesis by (cases x) (auto split: store_reply.splits)
next
  case False
  with assms show ?thesis
    by (auto simp: lookup_persisted_command_def dest!: call_no_panic split: option.splits prod.splits)
qed

lemma submit_admitted_no_panic: "submit_admitted E a w = (w', r) \<Longrightarrow> r \<noteq> Panic"
  by (auto simp: submit_admitted_def Let_def bindR_eqs dest!: call_no_panic split: prod.splits)

lemma submit_planned_ok:
  assumes "submit_planned (redb_env be rf time now out) sv between a w = (w', x)"
  shows "case x of Inl p \<Rightarrow> response_ok (ar_request_id a) p | Inr r \<Rightarrow> r \<noteq> Panic"
  using assms lookup_no_panic [of be rf time now out sv "ar_request_id a" w "fst (lookup_persisted_command
      (redb_env be rf time now out) sv (ar_request_id a) w)", OF prod.collapse [symmetric]]
  by (auto simp: submit_planned_def split: prod.splits result.splits option.splits bool.splits if_splits dest!: submit_admitted_no_panic)

lemma execute_planned_ok:
  assumes "execute_planned (redb_env be rf time now out) sv between r c w = (w', x)" "plan X P r = Ok c"
  shows "case x of Inl p \<Rightarrow> response_ok (rq_request_id r) p | Inr v \<Rightarrow> v \<noteq> Panic"
proof (cases c)
  case PlannedStatus
  with assms(1) show ?thesis
    by (auto simp: execute_planned_def bindR_eqs dest!: call_no_panic split: option.splits prod.splits)
next
  case PlannedLogout
  with assms(1) show ?thesis
    by (auto simp: execute_planned_def bindR_eqs dest!: call_no_panic split: option.splits prod.splits)
next
  case (Application a)
  then have "ar_request_id a = rq_request_id r" using plan_msg_type assms(2) by blast
  with assms(1) Application submit_planned_ok [of be rf time now out sv between a w w' x] show ?thesis
    by (auto simp: execute_planned_def split: execution_mode.splits sum.splits)
qed

section \<open>Properties\<close>

text \<open>C21: every request is answered. Whatever the client sends and whatever the store and the session do,
  the service answers, with the request's ID, and either a result and exit code 0 or an error
  whose code the client's exit codes know: never the catch-all 70.\<close>

theorem execute_always_answers:
  "\<exists>p. snd (execute X (redb_env be rf time now out) sv between r w) = Some p \<and> rp_request_id p = rq_request_id r
    \<and> (if rp_ok p then rp_result p \<noteq> None \<and> exit_code p = 0 else exit_code p \<in> {2, 3, 4, 5, 6, 7, 8})"
proof -
  have fine: "rp_request_id p = rq_request_id r
      \<and> (if rp_ok p then rp_result p \<noteq> None \<and> exit_code p = 0 else exit_code p \<in> {2, 3, 4, 5, 6, 7, 8})"
    if "response_ok (rq_request_id r) p" for p
    using that known_codes_exit by (fastforce simp: response_ok_def exit_code_def split: if_splits)
  have "\<exists>p. snd (execute X (redb_env be rf time now out) sv between r w) = Some p \<and> response_ok (rq_request_id r) p"
  proof (cases "plan X (sv_planner sv) r")
    case (Ok c)
    obtain w' x where x: "execute_planned (redb_env be rf time now out) sv between r c w = (w', x)" by fastforce
    from execute_planned_ok [OF this Ok] x Ok show ?thesis
      by (auto simp: execute_def split: sum.splits result.splits)
  qed (auto simp: execute_def dest: plan_codes)
  with fine show ?thesis by blast
qed

text \<open>C30: only certification touches the session. A request in any other mode, the status query apart,
  changes nothing at all: not the session, not the journal, not the rate limiter.\<close>

theorem other_modes_change_nothing:
  assumes "rq_execution_mode r \<noteq> Certification" "rq_command r \<noteq> SessionStatus"
  shows "fst (execute X E sv between r w) = w"
proof (cases "plan X (sv_planner sv) r")
  case (Ok c)
  then have "rq_execution_mode r \<noteq> Live" "c \<noteq> PlannedStatus" "c \<noteq> PlannedLogout"
    using assms by (auto simp: plan_def validate_envelope_def application_def bindR_eqs split: control_command.splits if_splits)
  with assms Ok show ?thesis
    by (cases c; cases "rq_execution_mode r") (auto simp: execute_def execute_planned_def)
qed (simp_all add: execute_def)

theorem other_modes_change_nothing_witness:
  "fst (execute demo_externals demo_env \<lparr>sv_planner = demo_planner, sv_has_store = True\<rparr> []
      (demo_request ''r1'' DryRun Limit (Some ''7''))
      \<lparr>w_slot = Some demo_start, w_shared = s_store (fst demo_start), w_limiter = new_limiter, w_clock = 9\<rparr>)
    = \<lparr>w_slot = Some demo_start, w_shared = s_store (fst demo_start), w_limiter = new_limiter, w_clock = 9\<rparr>"
  by (rule other_modes_change_nothing) (simp_all add: demo_request_def)

end
