(* ===== verification/Fix_Delivery.thy ===== *)
theory Fix_Delivery
  imports Fix_Gateway
begin

text \<open>
  Liveness: a valid order that reaches an established session on a working store and connection is
  journaled, sent and acknowledged as written; and a repeated one is answered from the journal
  without a second frame. \<open>reliable_store\<close> adds to the contract of the session's store that it
  answers whenever the specification does.
\<close>

section \<open>A store that answers\<close>

definition has_room :: "journal_log \<Rightarrow> bool" where
  "has_room l \<longleftrightarrow> Suc (Suc (length (lg_out l))) < 2 ^ 64"

definition event_room :: "journal_log \<Rightarrow> bool" where
  "event_room l \<longleftrightarrow> Suc (unat (lg_next_event l)) < 2 ^ 64"

text \<open>The operations a session needs to log on and to send orders, while the counters have room.\<close>

fun served_op :: "journal_log \<Rightarrow> store_op \<Rightarrow> bool" where
  "served_op l (CommitOutbound c) = has_room l"
| "served_op l (MarkOutboundWritten m) = True"
| "served_op l (LoadCommand i) = True"
| "served_op l (CommitInbound c) = event_room l"
| "served_op l ResetSequences = event_room l"
| "served_op l _ = False"

locale reliable_store = session_store E inv view rival
  for E :: "'st env" and inv and view and rival +
  fixes ready :: "'st \<Rightarrow> bool"
  assumes answers: "inv st \<Longrightarrow> ready st \<Longrightarrow> served_op (view st) operation \<Longrightarrow>
    log_apply (view st) operation = Ok (l, reply) \<Longrightarrow>
    \<exists>st'. e_apply E n st operation = (st', Ok reply) \<and> ready st'"
begin

lemma store_answers:
  assumes "inv (s_store s)" "ready (s_store s)" "served_op (view (s_store s)) operation"
    and "log_apply (view (s_store s)) operation = Ok (l, reply)"
  obtains st where "store_apply E operation s = (s\<lparr>s_store := st, s_tick := Suc (s_tick s)\<rparr>, Ok reply)"
    "inv st" "ready st" "view st = l"
proof -
  from answers [OF assms, of "s_tick s"]
  obtain st where st: "e_apply E (s_tick s) (s_store s) operation = (st, Ok reply)" "ready st" by blast
  have "view st = l" using refines [OF assms(1) st(1)] assms(4) by simp
  moreover have "inv st" using keeps_inv [OF assms(1) st(1)] .
  ultimately show thesis using that st by (simp add: store_apply_def)
qed

end

section \<open>The redb journal answers\<close>

lemma redb_answers:
  assumes "db_wf db" "served_op (log_of db) operation" "log_apply (log_of db) operation = Ok (l, reply)"
  shows "\<exists>db'. apply_op no_faults db operation = (db', Ok reply)"
proof -
  from assms(1) obtain no where no: "db_meta db ''next_out'' = Some no" "numbered (db_outbound db) ob_seq no"
    unfolding db_wf_def by blast
  have out: "lg_next_out (log_of db) = no" using no by (auto simp: numbered_def intro: lg_next_out_eq)
  have "1 \<le> no" using no(2) by (simp add: numbered_def)
  have succ: "add64 no 1 = (Ok (no + 1) :: (store_error, u64) result)" if "has_room (log_of db)"
    using that no(1) \<open>1 \<le> no\<close> by (simp add: has_room_def log_of_def add64_def)
  have bounds: "db_outbound db k = None \<longleftrightarrow> k = 0 \<or> length (lg_out (log_of db)) < unat k" for k
    using numbered_None [OF no(2)] no(1) by (simp add: log_of_def)
  have maps: "lg_cmds (log_of db) = db_commands db" by (simp add: log_of_def)
  obtain ni ne where counters: "db_meta db ''next_in'' = Some ni" "lg_next_in (log_of db) = ni"
      "db_meta db ''next_event'' = Some ne" "lg_next_event (log_of db) = ne"
    using assms(1) unfolding db_wf_def by (auto simp: log_of_def)
  show ?thesis
    using assms(2,3)
  proof (cases "(log_of db, operation)" rule: served_op.cases)
    case (1 l c)
    with assms(2,3) show ?thesis
      using no(1) out maps succ by (auto simp: commit_outbound_def get_meta_def new_command_def run_tx_def Let_def
          split: option.splits if_splits)
  next
    case (2 l m)
    with assms(2,3) show ?thesis
      using bounds [of "mo_msg_seq_num m"] maps
      by (cases "db_outbound db (mo_msg_seq_num m)")
        (auto simp: mark_outbound_written_def run_tx_def Let_def split: option.splits if_splits)
  next
    case (3 l i)
    with assms(2,3) show ?thesis
      using maps by (auto simp: load_command_def load_one_def split: option.splits)
  next
    case (4 l c)
    with assms(2,3) show ?thesis
      using counters by (auto simp: commit_inbound_def get_meta_def run_tx_def Let_def bindR_eqs split: if_splits)
  next
    case (5 l)
    with assms(2,3) show ?thesis
      using counters by (auto simp: reset_sequences_def get_meta_def run_tx_def Let_def bindR_eqs)
  qed simp_all
qed

interpretation reliable: reliable_store "redb_env (\<lambda>_. no_faults) rf time now out" worker_wf worker_log anyone w_alive
  for rf time now out
proof
  fix w :: "journal worker" and n operation l reply
  assume w: "worker_wf w" "w_alive w" "served_op (worker_log w) operation"
    "log_apply (worker_log w) operation = Ok (l, reply)"
  then obtain db where "apply_op no_faults (w_store w) operation = (db, Ok reply)"
    using redb_answers unfolding worker_wf_def worker_log_def by blast
  with w(2) show "\<exists>w'. e_apply (redb_env (\<lambda>_. no_faults) rf time now out) n w operation = (w', Ok reply) \<and> w_alive w'"
    by (simp add: redb_env_def redb_handle_def handle_apply_def)
qed

section \<open>An order is sent\<close>

lemma keeps_tickless:
  "keeps (\<lambda>s. s\<lparr>s_tick := 0\<rparr>) (application_fields E a)"
proof -
  have clock: "keeps (\<lambda>s. s\<lparr>s_tick := 0\<rparr>) (sending_time E)" for E :: "'st env"
    by (simp add: keeps_def sending_time_def tick_def sbind_def)
  have header: "keeps (\<lambda>s. s\<lparr>s_tick := 0\<rparr>) (standard_header E t)" for E :: "'st env" and t
    unfolding standard_header_def by (intro keeping clock)
  have body: "keeps (\<lambda>s. s\<lparr>s_tick := 0\<rparr>) (push_body E req out added fs)" for E :: "'st env" and req out added fs
    by (induction fs arbitrary: out added) (auto simp del: action_apply intro!: keeping clock)
  show ?thesis unfolding application_fields_def by (intro keeping header body)
qed

lemma application_fields_state:
  assumes "application_fields E a s = (s', r)"
  shows "s' = s\<lparr>s_tick := s_tick s'\<rparr>"
proof -
  from keeps_result [OF keeps_tickless assms] have "s'\<lparr>s_tick := 0\<rparr> = s\<lparr>s_tick := 0\<rparr>" .
  then have "s'\<lparr>s_tick := 0, s_tick := s_tick s'\<rparr> = s\<lparr>s_tick := 0, s_tick := s_tick s'\<rparr>" by metis
  then show ?thesis by simp
qed

lemma write_wire_sends:
  assumes "\<And>n. e_write E n = None"
  obtains s' where "write_wire E w s = (s', Ok ())" "s_wire s' = s_wire s @ [w]" "s_store s' = s_store s"
    "s_next_out s' = s_next_out s"
  using that assms
  by (simp add: write_wire_def write_call_def log_out_def instant_now_def tick_def sbind_def smodify_def sreturn_def)

context reliable_store
begin

lemma submit_delivers:
  assumes "inv (s_store s) \<and> s_next_out s = lg_next_out (view (s_store s))" "ready (s_store s)"
    "has_room (view (s_store s))" "s_phase s = Established"
    and "submittable (ar_msg_type a) (ar_fields a)" "valid_msg_type (ar_msg_type a)"
    and "encode_message (as_bytes (sc_begin_string (s_config s))) [Field 35 []] = Ok w0"
    and "lg_cmds (view (s_store s)) (ar_request_id a) = None" "\<And>n. e_write E n = None"
  shows "\<exists>s' c wire. submit_application E a s = (s', Ok c) \<and> cr_request_id c = ar_request_id a
    \<and> cr_fingerprint c = ar_fingerprint a \<and> cr_phase c = Written \<and> cr_msg_seq_num c = s_next_out s
    \<and> s_wire s' = s_wire s @ [wire] \<and> s_next_out s' = s_next_out s + 1
    \<and> lg_cmds (view (s_store s')) (ar_request_id a) = Some c
    \<and> lg_out (view (s_store s')) = lg_out (view (s_store s)) @ [\<lparr>ob_command = c, ob_wire = wire\<rparr>]"
proof -
  obtain s1 fs where fields: "application_fields E a s = (s1, Ok fs)" "first_tag fs = Some 35" "encodable fs"
    using returns_application_fields [OF assms(5)] unfolding returns_def by blast
  then have s1: "s1 = s\<lparr>s_tick := s_tick s1\<rparr>" using application_fields_state by blast
  obtain wire where "encode_message (as_bytes (sc_begin_string (s_config s))) fs = Ok wire"
    using assms(7) fields(2,3) by (auto simp: encode_message_Ok Let_def)
  then have encode: "encode_outbound fs s1 = (s1, Ok wire)"
    by (subst s1, subst (2) s1) (simp add: encode_outbound_def)
  have i: "inv (s_store s)" and seq: "s_next_out s = lg_next_out (view (s_store s))"
    using assms(1) by simp_all
  define oc where "oc = \<lparr>oc_request_id = ar_request_id a, oc_fingerprint = ar_fingerprint a,
    oc_cl_ord_id = ar_cl_ord_id a, oc_msg_seq_num = s_next_out s, oc_wire = wire\<rparr>"
  define l1 where "l1 = (view (s_store s))\<lparr>lg_out := lg_out (view (s_store s)) @ [\<lparr>ob_command = new_command oc, ob_wire = wire\<rparr>],
    lg_cmds := (lg_cmds (view (s_store s)))(ar_request_id a \<mapsto> new_command oc)\<rparr>"
  have "log_apply (view (s_store s1)) (CommitOutbound oc) = Ok (l1, Command (new_command oc))"
    using assms(8) seq by (subst s1) (simp add: oc_def l1_def)
  moreover have "inv (s_store s1)" "ready (s_store s1)" "has_room (view (s_store s1))"
    using i assms(2,3) by (subst s1; simp)+
  ultimately obtain st where st: "store_apply E (CommitOutbound oc) s1 = (s1\<lparr>s_store := st, s_tick := Suc (s_tick s1)\<rparr>, Ok (Command (new_command oc)))"
      "inv st" "ready st" "view st = l1"
    using store_answers [of s1 "CommitOutbound oc"] by auto
  define s2 where "s2 = s1\<lparr>s_store := st, s_tick := Suc (s_tick s1)\<rparr>"
  have "s_next_out s1 = s_next_out s" by (subst s1) simp
  then have commit: "commit_command E (ar_request_id a) (ar_fingerprint a) (ar_cl_ord_id a) wire outbound_wrong s1 = (s2, Ok (new_command oc))"
    using st(1) by (simp add: commit_command_def sbind_apply s2_def oc_def)
  have s2: "s_next_out s2 = s_next_out s" "s_wire s2 = s_wire s" "s_store s2 = st"
    using arg_cong [OF s1, of s_next_out] arg_cong [OF s1, of s_wire] by (simp_all add: s2_def)
  obtain s3 where s3: "write_wire E wire s2 = (s3, Ok ())" "s_wire s3 = s_wire s @ [wire]" "s_store s3 = st"
      "s_next_out s3 = s_next_out s"
    using write_wire_sends [of E wire s2, OF assms(9)] s2 by metis
  let ?c = "(new_command oc)\<lparr>cr_phase := Written\<rparr>"
  have n: "unat (s_next_out s) = Suc (length (lg_out (view (s_store s))))"
    using seq assms(3) by (simp add: lg_next_out_def has_room_def unat_of_nat_u64 del: of_nat_Suc)
  define l2 where "l2 = l1\<lparr>lg_out := lg_out (view (s_store s)) @ [\<lparr>ob_command = ?c, ob_wire = wire\<rparr>],
    lg_cmds := (lg_cmds (view (s_store s)))(ar_request_id a \<mapsto> ?c)\<rparr>"
  have "log_apply l1 (MarkOutboundWritten \<lparr>mo_request_id = ar_request_id a, mo_msg_seq_num = s_next_out s\<rparr>) = Ok (l2, Command ?c)"
    using n by (auto simp: l1_def l2_def new_command_def oc_def Let_def)
  then obtain st' where st': "mark_written E (ar_request_id a) (s_next_out s) s3
      = (s3\<lparr>s_store := st', s_tick := Suc (s_tick s3)\<rparr>, Ok (Command ?c))" "view st' = l2"
    using store_answers [of s3] s3(3) st(2-4) unfolding mark_written_def by (metis served_op.simps(2))
  have tags: "\<forall>f \<in> set (ar_fields a). field_tag f \<notin> daemon_managed_tags"
    using assms(5) by (simp add: submittable_def)
  have "add64 (s_next_out s) 1 = (Ok (s_next_out s + 1) :: (session_error, u64) result)"
    using n assms(3) by (simp add: add64_def has_room_def)
  then have "submit_application E a s
      = (s3\<lparr>s_store := st', s_tick := Suc (s_tick s3), s_next_out := s_next_out s + 1\<rparr>, Ok ?c)"
    unfolding submit_application_def
    by (simp add: sbind_apply assms(4,6) tags fields(1) encode commit s2(1) s3(1) st'(1) new_command_def oc_def
        advance_next_out_def)
  then show ?thesis
    using s3(2) st'(2) by (auto simp: l2_def new_command_def oc_def l1_def)
qed

end

section \<open>A repeated order is not sent\<close>

definition still :: "bytes list \<Rightarrow> u64 \<Rightarrow> 'st \<Rightarrow> 'st session \<Rightarrow> bool" where
  "still wires q st s \<longleftrightarrow> s_wire s = wires \<and> s_next_out s = q \<and> s_store s = st"

lemma still_fields: "triple (still wires q st) (application_fields E a) (\<lambda>_. still wires q st) (\<lambda>_. still wires q st)"
proof (rule tripleI)
  have "still wires q st s'" if "still wires q st s" "application_fields E a s = (s', r)" for s s' r
    using that(1) by (subst application_fields_state [OF that(2)]) (simp add: still_def)
  then show "still wires q st s \<Longrightarrow> application_fields E a s = (s', Ok x) \<Longrightarrow> still wires q st s'"
    and "still wires q st s \<Longrightarrow> application_fields E a s = (s', Err e) \<Longrightarrow> still wires q st s'"
    and "still wires q st s \<Longrightarrow> application_fields E a s = (s', Panic) \<Longrightarrow> still wires q st s'" for s s' x e
    by blast+
qed

lemma still_encode: "triple (still wires q st) (encode_outbound fs) (\<lambda>_. still wires q st) (\<lambda>_. still wires q st)"
  by (auto simp: triple_def encode_outbound_def split: result.splits)

context store_port
begin

text \<open>The state after the commit of a repeated order: nothing was written, the journal is the same.\<close>

definition unsent :: "bytes list \<Rightarrow> u64 \<Rightarrow> 'st \<Rightarrow> 'st session \<Rightarrow> bool" where
  "unsent wires q st s \<longleftrightarrow> s_wire s = wires \<and> s_next_out s = q \<and> view (s_store s) = view st \<and> inv (s_store s)"

lemma commit_repeated:
  assumes "e_apply E = port" "inv st" "lg_cmds (view st) i = Some c"
  shows "triple (still wires q st) (commit_command E i fp cl w wrong) (\<lambda>c' s. unsent wires q st s \<and> c' = c) (\<lambda>_. unsent wires q st)"
proof (rule tripleI)
  fix s s' and r :: "(session_error, command_record) result"
  have "unsent wires q st s' \<and> (\<forall>c'. r = Ok c' \<longrightarrow> c' = c)"
    if "still wires q st s" "commit_command E i fp cl w wrong s = (s', r)" for s s' r
  proof -
    let ?oc = "\<lparr>oc_request_id = i, oc_fingerprint = fp, oc_cl_ord_id = cl, oc_msg_seq_num = s_next_out s, oc_wire = w\<rparr>"
    obtain st' x where st': "port (s_tick s) st (CommitOutbound ?oc) = (st', x)" by fastforce
    have s': "s' = s\<lparr>s_store := st', s_tick := Suc (s_tick s)\<rparr>"
      and r: "r = bindR (map_err (\<lambda>e. Store (store_error_string e)) x) (\<lambda>reply.
        case reply of Command command \<Rightarrow> Ok command | _ \<Rightarrow> Err (Store wrong))"
      using that st' assms(1)
      by (auto simp: commit_command_def sbind_apply store_apply_def still_def split: result.splits store_reply.splits)
    have i: "inv st'" by (rule keeps_inv [OF assms(2) st'])
    show ?thesis
    proof (cases x)
      case (Ok reply)
      with commit_outbound [OF assms(2) st' [unfolded Ok]] assms(3) have "reply = Command c" "view st' = view st"
        by auto
      with that(1) s' r Ok i show ?thesis by (simp add: unsent_def still_def)
    next
      case (Err e)
      with failed [OF assms(2) st'] that(1) s' r i show ?thesis by (simp add: unsent_def still_def)
    next
      case Panic
      with failed [OF assms(2) st'] that(1) s' r i show ?thesis by (simp add: unsent_def still_def)
    qed
  qed
  then show "still wires q st s \<Longrightarrow> commit_command E i fp cl w wrong s = (s', Ok x) \<Longrightarrow> unsent wires q st s' \<and> x = c"
    and "still wires q st s \<Longrightarrow> commit_command E i fp cl w wrong s = (s', Err e) \<Longrightarrow> unsent wires q st s'"
    and "still wires q st s \<Longrightarrow> commit_command E i fp cl w wrong s = (s', Panic) \<Longrightarrow> unsent wires q st s'" for s s' x e
    by blast+
qed

text \<open>And the state after a command of an earlier numbering was handed to the socket again: the store refuses the mark.\<close>

definition resent :: "bytes list \<Rightarrow> u64 \<Rightarrow> 'st \<Rightarrow> 'st session \<Rightarrow> bool" where
  "resent wires q st s \<longleftrightarrow> (s_wire s = wires \<or> (\<exists>w. s_wire s = wires @ [w])) \<and> s_next_out s = q
     \<and> view (s_store s) = view st \<and> inv (s_store s)"

lemma unsent_resent: "unsent wires q st s \<Longrightarrow> resent wires q st s"
  by (simp add: unsent_def resent_def)

lemma resent_write: "triple (unsent wires q st) (write_wire E w) (\<lambda>_. resent wires q st) (\<lambda>_. resent wires q st)"
  unfolding triple_def
  by (auto simp: write_wire_def write_call_def log_out_def instant_now_def tick_def sbind_apply unsent_def resent_def
      split: option.split)

lemma resent_mark:
  assumes "e_apply E = port" "q = lg_next_out (view st)"
  shows "triple (resent wires q st) (mark_written E i q) (\<lambda>_ _. False) (\<lambda>_. resent wires q st)"
proof (rule tripleI)
  let ?op = "MarkOutboundWritten \<lparr>mo_request_id = i, mo_msg_seq_num = q\<rparr>"
  have refused: "\<not> is_Ok x \<and> resent wires q st (s\<lparr>s_store := st', s_tick := n\<rparr>)"
    if "resent wires q st s" "e_apply E (s_tick s) (s_store s) ?op = (st', x)" for s st' x n
  proof -
    have i: "inv (s_store s)" "view (s_store s) = view st" using that(1) by (simp_all add: resent_def)
    have "unat q = Suc (length (lg_out (view st)))"
      using room [OF i(1)] i(2) assms(2) by (simp add: lg_next_out_def unat_of_nat_u64 del: of_nat_Suc)
    then have "\<not> is_Ok x"
      using refines [OF i(1), of "s_tick s" ?op st'] that(2) i(2) assms(1)
      by (cases x) (auto split: option.splits if_splits)
    with failed [OF i(1)] keeps_inv [OF i(1)] that assms(1) show ?thesis
      by (auto simp: resent_def)
  qed
  fix s s' :: "'st session"
  assume s: "resent wires q st s"
  note refused = refused [OF s]
  show "mark_written E i q s = (s', Ok x) \<Longrightarrow> False" for x
    using refused by (fastforce simp: mark_written_def store_apply_def split: prod.splits)
  show "mark_written E i q s = (s', Err e) \<Longrightarrow> resent wires q st s'" for e
    using refused by (fastforce simp: mark_written_def store_apply_def split: prod.splits)
  show "mark_written E i q s = (s', Panic) \<Longrightarrow> resent wires q st s'"
    using refused by (fastforce simp: mark_written_def store_apply_def split: prod.splits)
qed

lemma still_unsent: "inv st \<Longrightarrow> still wires q st s \<Longrightarrow> unsent wires q st s"
  by (simp add: still_def unsent_def)

lemma still_bind:
  assumes "triple (still wires q st) m (\<lambda>_. still wires q st) (\<lambda>_. still wires q st)" "inv st"
    and "\<And>s. unsent wires q st s \<Longrightarrow> R s"
    and "\<And>x. triple (still wires q st) (f x) Q (\<lambda>_. R)"
  shows "triple (still wires q st) (sbind m f) Q (\<lambda>_. R)"
  by (rule triple_bind [OF triple_weaken [OF assms(1)] assms(4)]) (auto intro: still_unsent [OF assms(2)] assms(3))

lemma still_simple:
  "triple (still wires q st) (sget g) (\<lambda>_. still wires q st) (\<lambda>_. still wires q st)"
  "triple (still wires q st) (sensure b e) (\<lambda>_. still wires q st) (\<lambda>_. still wires q st)"
  by (auto simp: triple_def sensure_def)

text \<open>Up to the commit nothing happens; what follows it depends on the number of the stored command.\<close>

lemma submit_known:
  assumes "e_apply E = port" "inv st" "lg_cmds (view st) (ar_request_id a) = Some c" "\<And>s. unsent wires q st s \<Longrightarrow> R s"
    and "\<And>w. triple (\<lambda>s. unsent wires q st s) (if cr_msg_seq_num c < q then sreturn c
       else if cr_msg_seq_num c \<noteq> q
       then sfail (Store (''store returned future outbound sequence '' @ dec64 (cr_msg_seq_num c)))
       else
         sbind (write_wire E w) (\<lambda>_.
         sbind (mark_written E (ar_request_id a) (cr_msg_seq_num c)) (\<lambda>reply.
         case reply of
           Command written \<Rightarrow> sbind (advance_next_out (cr_msg_seq_num written)) (\<lambda>_. sreturn written)
         | _ \<Rightarrow> sfail (Store ''mark written returned an inbound record'')))) Q (\<lambda>_. R)"
  shows "triple (still wires q st) (submit_application E a) Q (\<lambda>_. R)"
  unfolding submit_application_def
proof (rule still_bind [OF still_simple(1) assms(2,4)], assumption, rule still_bind [OF still_simple(2) assms(2,4)], assumption,
    rule still_bind [OF still_simple(2) assms(2,4)], assumption, rule still_bind [OF still_simple(2) assms(2,4)], assumption,
    rule still_bind [OF still_fields assms(2,4)], assumption, rule still_bind [OF still_encode assms(2,4)], assumption,
    rule triple_bind, rule triple_weaken [OF commit_repeated [OF assms(1-3)]], assumption, assumption, erule assms(4), goal_cases)
  case (1 _ _ _ _ _ wire c')
  show ?case
    using assms(5) [of wire] by (auto simp: triple_def sbind_apply [of "sget _"] unsent_def)
qed

lemma submit_repeated:
  assumes "e_apply E = port" "inv st" "lg_cmds (view st) (ar_request_id a) = Some c" "cr_msg_seq_num c \<noteq> q"
  shows "triple (still wires q st) (submit_application E a) (\<lambda>c' s. unsent wires q st s \<and> c' = c \<and> cr_msg_seq_num c < q)
    (\<lambda>_. unsent wires q st)"
  by (rule submit_known [OF assms(1-3)]) (use assms(4) in \<open>auto simp: triple_def\<close>)

lemma submit_stale:
  assumes "e_apply E = port" "inv st" "lg_cmds (view st) (ar_request_id a) = Some c" "cr_msg_seq_num c = q"
    "q = lg_next_out (view st)"
  shows "triple (still wires q st) (submit_application E a) (\<lambda>_ _. False) (\<lambda>_. resent wires q st)"
proof (rule submit_known [OF assms(1-3)])
  fix w
  show "triple (\<lambda>s. unsent wires q st s) (if cr_msg_seq_num c < q then sreturn c
       else if cr_msg_seq_num c \<noteq> q
       then sfail (Store (''store returned future outbound sequence '' @ dec64 (cr_msg_seq_num c)))
       else
         sbind (write_wire E w) (\<lambda>_.
         sbind (mark_written E (ar_request_id a) (cr_msg_seq_num c)) (\<lambda>reply.
         case reply of
           Command written \<Rightarrow> sbind (advance_next_out (cr_msg_seq_num written)) (\<lambda>_. sreturn written)
         | _ \<Rightarrow> sfail (Store ''mark written returned an inbound record'')))) (\<lambda>_ _. False) (\<lambda>_. resent wires q st)"
    unfolding assms(4) by (simp only: less_irrefl if_False simp_thms)
      (rule triple_bind [OF resent_write], rule triple_bind [OF resent_mark [OF assms(1,5)]], simp add: triple_def)
qed (rule unsent_resent)

end

section \<open>Properties\<close>

subsection \<open>A concrete daemon\<close>

definition demo_session :: "journal worker session" where
  "demo_session = (fst demo_start)\<lparr>s_phase := Established\<rparr>"

definition demo_world :: "journal worker world" where
  "demo_world = \<lparr>w_slot = Some (demo_session, Running), w_shared = s_store demo_session, w_limiter = new_limiter, w_clock = 10\<rparr>"

definition demo_service :: "int service" where
  "demo_service = \<lparr>sv_planner = demo_planner, sv_has_store = True\<rparr>"

abbreviation demo_limit_request :: "string \<Rightarrow> control_request" where
  "demo_limit_request i \<equiv> demo_request i Certification Limit (Some ''7'')"

abbreviation demo_limit_order :: "string \<Rightarrow> application_request" where
  "demo_limit_order i \<equiv> demo_application i Certification Limit (Some ''7'')"

lemma demo_journal:
  "w_alive (s_store demo_session)" "db_commands (w_store (s_store demo_session)) ''r1'' = None"
  "map_option cr_msg_seq_num (db_commands (w_store (s_store demo_session)) ''session:logon:1:1'') = Some 1"
  by (simp_all add: demo_session_def demo_start_def demo_eval fix_eval cong: fix_cong)

lemma demo_plan_taken:
  "plan demo_externals demo_planner (demo_limit_request ''session:logon:1:1'') = Ok (Application (demo_limit_order ''session:logon:1:1''))"
  by (simp add: demo_application_def demo_plan_eval fix_eval cong: fix_cong)

lemma demo_session_facts:
  "worker_wf (s_store demo_session)" "s_next_out demo_session = 2"
  "s_next_out demo_session = lg_next_out (worker_log (s_store demo_session))" "has_room (worker_log (s_store demo_session))"
  "s_phase demo_session = Established" "s_config demo_session = demo_config"
proof -
  note reachable = session_reachable [OF demo_reachable [unfolded demo_env_def] fresh_worker]
  show wf: "worker_wf (s_store demo_session)"
    using reachable(2) by (simp add: session.live_def session.based_def demo_session_def)
  show two: "s_next_out demo_session = 2" using demo_started(4) by (simp add: demo_session_def)
  show out: "s_next_out demo_session = lg_next_out (worker_log (s_store demo_session))"
    using reachable(2) by (simp add: session.live_def session.books_def at_out_def lg_next_out_def ledger_of_def demo_session_def)
  have "unat (lg_next_out (worker_log (s_store demo_session))) = Suc (length (lg_out (worker_log (s_store demo_session))))"
    using handle.room [OF wf] by (simp add: lg_next_out_def unat_of_nat_u64 del: of_nat_Suc)
  then show "has_room (worker_log (s_store demo_session))" using out two by (simp add: has_room_def)
  show "s_phase demo_session = Established" by (simp add: demo_session_def)
  show "s_config demo_session = demo_config"
    using reachable_cfg [OF demo_reachable] by (simp add: cfg_of_def demo_session_def)
qed

lemma demo_logon_journaled:
  obtains c where "lg_cmds (worker_log (s_store demo_session)) ''session:logon:1:1'' = Some c" "cr_msg_seq_num c = 1"
  using demo_journal(3) by (auto simp: worker_log_def log_of_def)

text \<open>C24: what submitting a journaled request ID again does. The theorem covers every number the stored
  command can have. If it is not the session's next number, nothing is handed to the socket and the journal and the counter
  stay as they are; a success returns the stored command, whose number is an old one. If it is the next number, which is
  possible only for a command of an earlier numbering, journaled before a sequence reset (in a running
  session the counter is the journal's), the frame can be handed to the socket once more, but the submission
  never succeeds, and the journal and the counter still stay as they are.\<close>

theorem resubmission_keeps_journal:
  assumes "worker_wf (s_store s)" "lg_cmds (worker_log (s_store s)) (ar_request_id a) = Some c"
    and "s_next_out s = lg_next_out (worker_log (s_store s))"
    and "submit_application (redb_env be rf time now out) a s = (s', r)"
  shows "worker_log (s_store s') = worker_log (s_store s) \<and> s_next_out s' = s_next_out s
    \<and> (if cr_msg_seq_num c \<noteq> s_next_out s
       then s_wire s' = s_wire s \<and> (\<forall>c'. r = Ok c' \<longrightarrow> c' = c \<and> cr_msg_seq_num c < s_next_out s)
       else (s_wire s' = s_wire s \<or> (\<exists>w. s_wire s' = s_wire s @ [w])) \<and> \<not> is_Ok r)"
proof (cases "cr_msg_seq_num c = s_next_out s")
  case False
  note repeated = handle.submit_repeated [of "redb_env be rf time now out" be "s_store s" a c "s_next_out s" "s_wire s",
      OF _ assms(1,2) False]
  have start: "still (s_wire s) (s_next_out s) (s_store s) s" by (simp add: still_def)
  have "triple (still (s_wire s) (s_next_out s) (s_store s)) (submit_application (redb_env be rf time now out) a)
      (\<lambda>c' s'. handle.unsent (s_wire s) (s_next_out s) (s_store s) s' \<and> c' = c \<and> cr_msg_seq_num c < s_next_out s)
      (\<lambda>_. handle.unsent (s_wire s) (s_next_out s) (s_store s))"
    by (rule repeated) (simp add: redb_env_def)
  from triple_Ok [OF this start] triple_Err [OF this start] triple_Panic [OF this start] assms(4)
  have "handle.unsent (s_wire s) (s_next_out s) (s_store s) s'
      \<and> (\<forall>c'. r = Ok c' \<longrightarrow> c' = c \<and> cr_msg_seq_num c < s_next_out s)"
    by (cases r) blast+
  with False show ?thesis by (auto simp: handle.unsent_def)
next
  case True
  note stale = handle.submit_stale [of "redb_env be rf time now out" be "s_store s" a c "s_next_out s" "s_wire s",
      OF _ assms(1,2) True assms(3)]
  have start: "still (s_wire s) (s_next_out s) (s_store s) s" by (simp add: still_def)
  have "triple (still (s_wire s) (s_next_out s) (s_store s)) (submit_application (redb_env be rf time now out) a)
      (\<lambda>_ _. False) (\<lambda>_. handle.resent (s_wire s) (s_next_out s) (s_store s))"
    by (rule stale) (simp add: redb_env_def)
  from triple_Ok [OF this start] triple_Err [OF this start] triple_Panic [OF this start] assms(4)
  have "handle.resent (s_wire s) (s_next_out s) (s_store s) s' \<and> \<not> is_Ok r"
    by (cases r) (blast, simp_all)
  with True show ?thesis by (simp add: handle.resent_def)
qed

theorem resubmission_keeps_journal_witness:
  "s_wire (fst (submit_application demo_env (demo_limit_order ''session:logon:1:1'') demo_session)) = s_wire demo_session"
proof -
  obtain c where "lg_cmds (worker_log (s_store demo_session)) ''session:logon:1:1'' = Some c" "cr_msg_seq_num c = 1"
    by (rule demo_logon_journaled)
  moreover have "ar_request_id (demo_limit_order ''session:logon:1:1'') = ''session:logon:1:1''"
    using plan_msg_type [OF demo_plan_taken] by (simp add: demo_request_def)
  moreover from calculation(2) have "cr_msg_seq_num c \<noteq> s_next_out demo_session" using demo_session_facts(2) by simp
  ultimately show ?thesis
    using resubmission_keeps_journal [OF demo_session_facts(1), of "demo_limit_order ''session:logon:1:1''" c,
        OF _ demo_session_facts(3) prod.collapse [symmetric]]
    unfolding demo_env_def by auto
qed

text \<open>What the service does with a request the journal does not know, on a store that answers.\<close>

lemma lookup_unknown:
  assumes "worker_wf (w_shared w)" "w_alive (w_shared w)" "lg_cmds (worker_log (w_shared w)) i = found" "sv_has_store sv"
  obtains st where "lookup_persisted_command (redb_env (\<lambda>_. no_faults) rf time now out) sv i w
      = (w\<lparr>w_shared := st, w_clock := Suc (w_clock w)\<rparr>, Ok found)"
    "worker_wf st" "w_alive st" "worker_log st = worker_log (w_shared w)"
proof -
  let ?E = "redb_env (\<lambda>_. no_faults) rf time now out"
  have log: "log_apply (worker_log (w_shared w)) (LoadCommand i) = Ok (worker_log (w_shared w), StoredCommand found)"
    using assms(3) by simp
  obtain st where st: "e_apply ?E (w_clock w) (w_shared w) (LoadCommand i) = (st, Ok (StoredCommand found))" "w_alive st"
    using reliable.answers [of "w_shared w" "LoadCommand i" "worker_log (w_shared w)" "StoredCommand found" rf time now out]
      assms(1,2) log by auto
  have "worker_wf st" "worker_log st = worker_log (w_shared w)"
    using handle.keeps_inv [OF assms(1)] handle.refines [OF assms(1)] st(1) log by (fastforce simp: redb_env_def)+
  with st that assms(4) show thesis by (simp add: lookup_persisted_command_def)
qed

lemma call_submits:
  assumes "w_slot w = Some (s, Running)"
    and "submit_application E a (s\<lparr>s_store := w_shared w, s_tick := w_clock w\<rparr>) = (s', Ok c)"
  shows "\<exists>t. submit_admitted E a w = (w\<lparr>w_slot := Some (t, Running), w_shared := s_store s', w_clock := s_tick s'\<rparr>,
      Ok (command_result c)) \<and> s_wire t = s_wire s' \<and> s_next_out t = s_next_out s'"
  using assms
  by (auto simp: submit_admitted_def call_def step_session_def actor_step_def smap_def sbind_apply handle_command_def
      conclude_def Let_def command_reply_def)

text \<open>C23: an order is delivered. A certification order with a new request ID that the planner accepts and that brings
  no extra tag 43 (PossDupFlag) or 122 (OrigSendingTime), which the session refuses, sent
  to an established session over a working store and connection while the rate limit admits it, is
  answered as written to the socket: exactly one frame more was handed to the socket, and the
  journal ends with the record of that frame under the request ID.\<close>

theorem order_delivered:
  assumes "plan X (sv_planner sv) r = Ok (Application a)" "rq_execution_mode r = Certification" "plain_tags r" "sv_has_store sv"
    and "w_slot w = Some (s, Running)" "s_phase s = Established"
      "encode_message (as_bytes (sc_begin_string (s_config s))) [Field 35 []] = Ok w0"
    and "worker_wf (w_shared w)" "w_alive (w_shared w)" "has_room (worker_log (w_shared w))"
      "s_next_out s = lg_next_out (worker_log (w_shared w))" "lg_cmds (worker_log (w_shared w)) (rq_request_id r) = None"
    and "snd (try_acquire (unat (po_max_messages_per_second (pl_policy (sv_planner sv)))) (now (Suc (w_clock w)))
      (rq_request_id r) (w_limiter w))"
  shows "\<exists>w' t c wire. execute X (redb_env (\<lambda>_. no_faults) rf time now (\<lambda>_. None)) sv [] r w
      = (w', Some (success (rq_request_id r) (command_result c)))
    \<and> w_slot w' = Some (t, Running) \<and> s_wire t = s_wire s @ [wire] \<and> cr_phase c = Written
    \<and> lg_cmds (worker_log (w_shared w')) (rq_request_id r) = Some c
    \<and> lg_out (worker_log (w_shared w')) = lg_out (worker_log (w_shared w)) @ [\<lparr>ob_command = c, ob_wire = wire\<rparr>]"
proof -
  let ?E = "redb_env (\<lambda>_. no_faults) rf time now (\<lambda>_. None)"
  let ?m = "unat (po_max_messages_per_second (pl_policy (sv_planner sv)))"
  have id: "ar_request_id a = rq_request_id r" and mt: "valid_msg_type (ar_msg_type a)"
    using plan_msg_type [OF assms(1)] by (auto simp: valid_msg_type_def)
  obtain st where st: "lookup_persisted_command ?E sv (ar_request_id a) w = (w\<lparr>w_shared := st, w_clock := Suc (w_clock w)\<rparr>, Ok None)"
      "worker_wf st" "w_alive st" "worker_log st = worker_log (w_shared w)"
    using lookup_unknown [OF assms(8,9,12,4)] id by metis
  obtain l where l: "try_acquire ?m (now (Suc (w_clock w))) (rq_request_id r) (w_limiter w) = (l, True)"
    using assms(13) by (metis prod.collapse)
  let ?w1 = "w\<lparr>w_shared := st, w_clock := Suc (Suc (w_clock w)), w_limiter := l\<rparr>"
  let ?s1 = "s\<lparr>s_store := st, s_tick := Suc (Suc (w_clock w))\<rparr>"
  have acquire: "acquire_slot ?E sv (ar_request_id a) (w\<lparr>w_shared := st, w_clock := Suc (w_clock w)\<rparr>) = (?w1, True)"
    using l id by (simp add: acquire_slot_def redb_env_def)
  obtain s' c wire where s': "submit_application ?E a ?s1 = (s', Ok c)" "cr_phase c = Written" "s_wire s' = s_wire s @ [wire]"
      "lg_cmds (worker_log (s_store s')) (ar_request_id a) = Some c"
      "lg_out (worker_log (s_store s')) = lg_out (worker_log st) @ [\<lparr>ob_command = c, ob_wire = wire\<rparr>]"
    using reliable.submit_delivers [of ?s1 a w0 rf time now "\<lambda>_. None"] planned_submittable [OF assms(1,3)] mt assms id st
    by (auto simp: redb_env_def)
  obtain t where t: "submit_admitted ?E a ?w1 = (?w1\<lparr>w_slot := Some (t, Running), w_shared := s_store s', w_clock := s_tick s'\<rparr>,
      Ok (command_result c))" "s_wire t = s_wire s'"
    using call_submits [of ?w1 s ?E a s' c] s'(1) assms(5) by auto
  have "execute X ?E sv [] r w = (?w1\<lparr>w_slot := Some (t, Running), w_shared := s_store s', w_clock := s_tick s'\<rparr>,
      Some (success (rq_request_id r) (command_result c)))"
    using assms(1,2,5) st(1) acquire t(1) by (simp add: execute_def execute_planned_def submit_planned_def)
  then show ?thesis using s' t(2) id st(4) by auto
qed

theorem order_delivered_witness:
  "\<exists>w' t c wire. execute demo_externals demo_env demo_service [] (demo_limit_request ''r1'') demo_world
      = (w', Some (success ''r1'' (command_result c)))
    \<and> w_slot w' = Some (t, Running) \<and> s_wire t = s_wire demo_session @ [wire] \<and> cr_phase c = Written"
proof -
  obtain w0 where w0: "encode_message (as_bytes (sc_begin_string (s_config demo_session))) [Field 35 []] = Ok w0"
    using demo_session_facts(6) by (simp add: demo_config_def encode_message_Ok encodable_def first_tag_def Let_def)
  have "lg_cmds (worker_log (s_store demo_session)) ''r1'' = None"
    using demo_journal(2) by (simp add: worker_log_def log_of_def)
  then show ?thesis
    using order_delivered [where X = demo_externals and sv = demo_service and r = "demo_limit_request ''r1''"
        and w = demo_world and s = demo_session, OF _ _ _ _ _ demo_session_facts(5) w0]
      demo_plan demo_session_facts demo_journal(1) unfolding demo_env_def
    by (fastforce simp: demo_service_def demo_world_def demo_planner_def demo_request_def plain_tags_def demo_order_def
        try_acquire_def new_limiter_def)
qed

text \<open>C25: a repeated request is answered from the journal. When the request ID is journaled, the service
  sends nothing, whatever the session's state: the same command gets the stored result, another
  one the idempotency conflict, exit code 5.\<close>

theorem repeated_request_answered_from_journal:
  assumes "plan X (sv_planner sv) r = Ok (Application a)" "rq_execution_mode r = Certification" "sv_has_store sv"
    and "worker_wf (w_shared w)" "w_alive (w_shared w)" "lg_cmds (worker_log (w_shared w)) (rq_request_id r) = Some c"
  shows "\<exists>w' p. execute X (redb_env (\<lambda>_. no_faults) rf time now out) sv between r w = (w', Some p)
    \<and> w_slot w' = w_slot w \<and> w_limiter w' = w_limiter w \<and> worker_log (w_shared w') = worker_log (w_shared w)
    \<and> (if cr_fingerprint c = ar_fingerprint a then p = success (rq_request_id r) (command_result c) else exit_code p = 5)"
proof -
  have id: "ar_request_id a = rq_request_id r" using plan_msg_type [OF assms(1)] by simp
  obtain st where st: "lookup_persisted_command (redb_env (\<lambda>_. no_faults) rf time now out) sv (ar_request_id a) w
      = (w\<lparr>w_shared := st, w_clock := Suc (w_clock w)\<rparr>, Ok (Some c))" "worker_log st = worker_log (w_shared w)"
    using lookup_unknown [OF assms(4,5,6,3)] id by metis
  have contains: "contains_text (xs @ p) p" for xs p :: string
    by (induction xs) (cases p; simp add: starts_with_split)+
  have "contains_text (''request ID '' @ rq_request_id r @ '' was reused with a '' @ ''different fingerprint'') ''different fingerprint''"
    using contains [of "''request ID '' @ rq_request_id r @ '' was reused with a ''" "''different fingerprint''"] by simp
  then have "exit_code (session_error_response (rq_request_id r)
      (Store (''request ID '' @ rq_request_id r @ '' was reused with a different fingerprint''))) = 5"
    by (simp add: session_error_response_def exit_code_def failure_def error_code_exit_def)
  then show ?thesis
    using assms(1,2) st id by (auto simp: execute_def execute_planned_def submit_planned_def)
qed

theorem repeated_request_answered_from_journal_witness:
  "\<exists>w' p. execute demo_externals demo_env demo_service [Timer] (demo_limit_request ''session:logon:1:1'') demo_world = (w', Some p)
    \<and> w_slot w' = w_slot demo_world"
proof -
  obtain c where "lg_cmds (worker_log (s_store demo_session)) ''session:logon:1:1'' = Some c"
    by (rule demo_logon_journaled)
  then show ?thesis
    using repeated_request_answered_from_journal [where X = demo_externals and sv = demo_service and w = demo_world
        and r = "demo_limit_request ''session:logon:1:1''"] demo_plan_taken demo_session_facts(1) demo_journal(1)
    unfolding demo_env_def by (fastforce simp: demo_service_def demo_world_def demo_request_def)
qed

end
