(* ===== verification/Fix_Mock.thy ===== *)
theory Fix_Mock
  imports Fix_Session Fix_Codec
begin

text \<open>
  The acceptor of \<open>crates/fix-mock/src/lib.rs\<close>. Its session is a state and a step over what \<open>select!\<close> waits
  for: bytes, the end of the stream, a read error, the heartbeat timer. As in the session actor the
  environment answers by ticks: the \<open>TimeSource\<close>, \<open>Instant::now\<close>, and the two calls of a write.
\<close>

section \<open>Data\<close>

record mock_config =
  mc_begin_string :: string
  mc_sender_comp_id :: string
  mc_target_comp_id :: string
  mc_heartbeat_interval_secs :: u64

datatype mock_error = MockFrame string | MockParse string | MockEncode string | MockProtocol string | MockTransport string

record mock_env =
  me_time :: "nat \<Rightarrow> string"
  me_now :: "nat \<Rightarrow> nat"
  me_write :: "nat \<Rightarrow> string option"

record mock =
  m_config :: mock_config
  m_decoder :: frame_decoder
  m_next_in :: u64
  m_next_out :: u64
  m_next_execution_id :: u64
  m_established :: bool
  m_last_outbound :: nat
  m_tick :: nat
  m_wire :: "bytes list"
  m_log :: "log_line list"

type_synonym 'a mock_act = "(mock, mock_error, 'a) action"

fun mock_error_string :: "mock_error \<Rightarrow> string" where
  "mock_error_string (MockFrame m) = ''FIX framing failed: '' @ m"
| "mock_error_string (MockParse m) = ''FIX parsing failed: '' @ m"
| "mock_error_string (MockEncode m) = ''FIX encoding failed: '' @ m"
| "mock_error_string (MockProtocol m) = ''FIX protocol violation: '' @ m"
| "mock_error_string (MockTransport m) = ''transport failed: '' @ m"

section \<open>Reading a message\<close>

definition mock_required :: "parsed_message \<Rightarrow> u32 \<Rightarrow> (mock_error, bytes) result" where
  "mock_required m t = (case values_of m t of
       v # _ \<Rightarrow> Ok v
     | [] \<Rightarrow> Err (MockProtocol (''required tag '' @ dec (unat t) @ '' is missing'')))"

definition mock_parse_u64 :: "bytes \<Rightarrow> u32 \<Rightarrow> (mock_error, u64) result" where
  "mock_parse_u64 v t =
     bindR (ok_or (MockProtocol (''tag '' @ dec (unat t) @ '' is not ASCII'')) (from_utf8 v)) (\<lambda>text.
     ok_or (MockProtocol (''tag '' @ dec (unat t) @ '' is not an unsigned integer'')) (parse_u64 text))"

definition mock_validate_envelope :: "parsed_message \<Rightarrow> mock_config \<Rightarrow> u64 \<Rightarrow> (mock_error, unit) result" where
  "mock_validate_envelope m cfg expected_seq =
     (if pm_begin_string m \<noteq> as_bytes (mc_begin_string cfg) then Err (MockProtocol ''BeginString mismatch'')
      else
        bindR (mock_required m 49) (\<lambda>sender.
        if sender \<noteq> as_bytes (mc_target_comp_id cfg) then Err (MockProtocol ''SenderCompID mismatch'')
        else
          bindR (mock_required m 56) (\<lambda>target.
          if target \<noteq> as_bytes (mc_sender_comp_id cfg) then Err (MockProtocol ''TargetCompID mismatch'')
          else
            bindR (mock_required m 34) (\<lambda>v.
            bindR (mock_parse_u64 v 34) (\<lambda>sequence.
            if sequence \<noteq> expected_seq
            then Err (MockProtocol (''expected MsgSeqNum '' @ dec64 expected_seq @ '', got '' @ dec64 sequence))
            else Ok ())))))"

section \<open>Writing a message\<close>

definition mock_tick :: "nat mock_act" where
  "mock_tick = (\<lambda>s. (s\<lparr>m_tick := Suc (m_tick s)\<rparr>, Ok (m_tick s)))"

definition mock_log :: "log_line \<Rightarrow> unit mock_act" where
  "mock_log l = smodify (\<lambda>s. s\<lparr>m_log := m_log s @ [l]\<rparr>)"

definition mock_header :: "mock_env \<Rightarrow> string \<Rightarrow> (field list) mock_act" where
  "mock_header E t =
     sbind (sget (\<lambda>s. s)) (\<lambda>s.
     sbind mock_tick (\<lambda>n.
     sreturn
      [Field 35 (as_bytes t),
       Field 49 (as_bytes (mc_sender_comp_id (m_config s))),
       Field 56 (as_bytes (mc_target_comp_id (m_config s))),
       Field 34 (as_bytes (dec64 (m_next_out s))),
       Field 52 (as_bytes (me_time E n))]))"

definition mock_logon_fields :: "mock_env \<Rightarrow> (field list) mock_act" where
  "mock_logon_fields E =
     sbind (sget m_config) (\<lambda>cfg.
     sbind (mock_header E ''A'') (\<lambda>header.
     sreturn (header @ [Field 98 (as_bytes ''0''), Field 108 (as_bytes (dec64 (mc_heartbeat_interval_secs cfg)))])))"

definition mock_heartbeat_fields :: "mock_env \<Rightarrow> bytes option \<Rightarrow> (field list) mock_act" where
  "mock_heartbeat_fields E test_request_id =
     sbind (mock_header E ''0'') (\<lambda>header.
     sreturn (header @ (case test_request_id of None \<Rightarrow> [] | Some i \<Rightarrow> [Field 112 i])))"

definition first_value :: "parsed_message \<Rightarrow> u32 \<Rightarrow> bytes option" where
  "first_value m t = (case values_of m t of [] \<Rightarrow> None | v # _ \<Rightarrow> Some v)"

definition echoed :: "parsed_message \<Rightarrow> u32 \<Rightarrow> field list" where
  "echoed m t = (case first_value m t of None \<Rightarrow> [] | Some v \<Rightarrow> [Field t v])"

definition execution_terms :: "bytes \<Rightarrow> bytes \<Rightarrow> (mock_error, string \<times> string \<times> bytes) result" where
  "execution_terms request_type order_qty =
     (if request_type = as_bytes ''D'' then Ok (''0'', ''0'', order_qty)
      else if request_type = as_bytes ''F'' then Ok (''4'', ''4'', as_bytes ''0'')
      else if request_type = as_bytes ''G'' then Ok (''5'', ''0'', order_qty)
      else Err (MockProtocol ''execution report requested for non-order message''))"

definition execution_report_fields :: "mock_env \<Rightarrow> parsed_message \<Rightarrow> (field list) mock_act" where
  "execution_report_fields E request =
     sbind (sget m_next_execution_id) (\<lambda>execution_id.
     sbind (slift (mock_required request 35)) (\<lambda>request_type.
     sbind (slift (mock_required request 11)) (\<lambda>cl_ord_id.
     let order_qty = (case first_value request 38 of None \<Rightarrow> as_bytes ''0'' | Some q \<Rightarrow> q) in
     sbind (slift (execution_terms request_type order_qty)) (\<lambda>(exec_type, order_status, leaves_qty).
     sbind (mock_header E ''8'') (\<lambda>header.
     sreturn (header
       @ [Field 37 (as_bytes (''MOCK-ORDER-'' @ dec64 execution_id)), Field 11 cl_ord_id]
       @ echoed request 41
       @ [Field 17 (as_bytes (''MOCK-EXEC-'' @ dec64 execution_id)), Field 39 (as_bytes order_status),
          Field 150 (as_bytes exec_type)]
       @ echoed request 55 @ echoed request 54
       @ [Field 151 leaves_qty, Field 14 (as_bytes ''0'')]))))))"

definition mock_write_call :: "mock_env \<Rightarrow> unit mock_act" where
  "mock_write_call E = sbind mock_tick (\<lambda>n.
     case me_write E n of Some m \<Rightarrow> sfail (MockTransport m) | None \<Rightarrow> sreturn ())"

definition write_message :: "mock_env \<Rightarrow> field list \<Rightarrow> unit mock_act" where
  "write_message E fs =
     sbind (sget m_config) (\<lambda>cfg.
     sbind (slift (map_err (\<lambda>e. MockEncode (codec_error_string e))
       (encode_message (as_bytes (mc_begin_string cfg)) fs))) (\<lambda>wire.
     sbind (mock_log (Outgoing wire)) (\<lambda>_.
     sbind (smodify (\<lambda>s. s\<lparr>m_wire := m_wire s @ [wire]\<rparr>)) (\<lambda>_.
     sbind (mock_write_call E) (\<lambda>_. mock_write_call E)))))"

definition checked_next :: "string \<Rightarrow> u64 \<Rightarrow> (mock_error, u64) result" where
  "checked_next text n = (if n = - 1 then Err (MockProtocol text) else Ok (n + 1))"

text \<open>A message, the next sequence number and the time: what follows the choice of a response.\<close>

definition send_response :: "mock_env \<Rightarrow> field list \<Rightarrow> unit mock_act" where
  "send_response E fs =
     sbind (write_message E fs) (\<lambda>_.
     sbind (sget m_next_out) (\<lambda>next_out.
     sbind (slift (checked_next ''outbound sequence overflow'' next_out)) (\<lambda>n.
     sbind (smodify (\<lambda>s. s\<lparr>m_next_out := n\<rparr>)) (\<lambda>_.
     sbind mock_tick (\<lambda>k. smodify (\<lambda>s. s\<lparr>m_last_outbound := me_now E k\<rparr>))))))"

section \<open>The session\<close>

text \<open>What a message is answered with; \<open>None\<close> is no response. A Logout ends the session.\<close>

definition respond_logon :: "mock_env \<Rightarrow> parsed_message \<Rightarrow> (field list) mock_act" where
  "respond_logon E m =
     sbind (mock_log (Info ''Received logon request'')) (\<lambda>_.
     sbind (mock_log (Info ''Responding to logon request'')) (\<lambda>_.
     sbind (smodify (\<lambda>s. s\<lparr>m_established := True\<rparr>)) (\<lambda>_.
     sbind (mock_logon_fields E) (\<lambda>fs.
     sreturn (fs @ (if first_value m 141 = Some (as_bytes ''Y'') then [Field 141 (as_bytes ''Y'')] else []))))))"

definition respond_order :: "mock_env \<Rightarrow> parsed_message \<Rightarrow> (field list) mock_act" where
  "respond_order E m =
     sbind (execution_report_fields E m) (\<lambda>fs.
     sbind (sget m_next_execution_id) (\<lambda>i.
     sbind (slift (checked_next ''execution identifier overflow'' i)) (\<lambda>n.
     sbind (smodify (\<lambda>s. s\<lparr>m_next_execution_id := n\<rparr>)) (\<lambda>_. sreturn fs))))"

definition respond_logout :: "mock_env \<Rightarrow> unit mock_act" where
  "respond_logout E =
     sbind (mock_log (Info ''Received logout request'')) (\<lambda>_.
     sbind (mock_log (Info ''Sending logout response'')) (\<lambda>_.
     sbind (mock_header E ''5'') (\<lambda>fs. write_message E fs)))"

definition reject_type :: "bytes \<Rightarrow> unit mock_act" where
  "reject_type v =
     (let e = MockProtocol (''unsupported MsgType '' @ str_of_bytes v) in
      sbind (mock_log (Error (mock_error_string e))) (\<lambda>_. sfail e))"

text \<open>One frame; the result is whether the session goes on.\<close>

definition mock_message :: "mock_env \<Rightarrow> parsed_message \<Rightarrow> bool mock_act" where
  "mock_message E m =
     sbind (slift (mock_required m 35)) (\<lambda>msg_type.
     if msg_type = as_bytes ''A'' then sbind (respond_logon E m) (\<lambda>fs. sbind (send_response E fs) (\<lambda>_. sreturn True))
     else if msg_type = as_bytes ''0'' then sreturn True
     else if msg_type = as_bytes ''1'' then
       sbind (mock_heartbeat_fields E (first_value m 112)) (\<lambda>fs. sbind (send_response E fs) (\<lambda>_. sreturn True))
     else if msg_type \<in> {as_bytes ''D'', as_bytes ''F'', as_bytes ''G''} then
       sbind (respond_order E m) (\<lambda>fs. sbind (send_response E fs) (\<lambda>_. sreturn True))
     else if msg_type = as_bytes ''5'' then sbind (respond_logout E) (\<lambda>_. sreturn False)
     else sbind (reject_type msg_type) (\<lambda>_. sreturn True))"

definition mock_check :: "parsed_message \<Rightarrow> unit mock_act" where
  "mock_check m = (\<lambda>s.
     case mock_validate_envelope m (m_config s) (m_next_in s) of
       Err e \<Rightarrow> sbind (mock_log (Info (''rejecting message: '' @ mock_error_string e))) (\<lambda>_. sfail e) s
     | r \<Rightarrow> (s, r))"

definition mock_frame :: "mock_env \<Rightarrow> bytes \<Rightarrow> bool mock_act" where
  "mock_frame E frame =
     sbind (mock_log (Incoming frame)) (\<lambda>_.
     sbind (slift (map_err (\<lambda>e. MockParse (parse_error_string e)) (parse_frame frame))) (\<lambda>m.
     sbind (mock_check m) (\<lambda>_.
     sbind (sget m_next_in) (\<lambda>next_in.
     sbind (slift (checked_next ''inbound sequence overflow'' next_in)) (\<lambda>n.
     sbind (smodify (\<lambda>s. s\<lparr>m_next_in := n\<rparr>)) (\<lambda>_.
     mock_message E m))))))"

fun mock_frames :: "mock_env \<Rightarrow> bytes list \<Rightarrow> bool mock_act" where
  "mock_frames E [] = sreturn True"
| "mock_frames E (frame # frames) =
     sbind (mock_frame E frame) (\<lambda>go. if go then mock_frames E frames else sreturn False)"

definition mock_ingest :: "bytes \<Rightarrow> (bytes list) mock_act" where
  "mock_ingest chunk = (\<lambda>s. case ingest (m_decoder s) chunk of
     (d, r) \<Rightarrow> (s\<lparr>m_decoder := d\<rparr>, map_err (\<lambda>e. MockFrame (frame_error_string e)) r))"

definition mock_timer :: "mock_env \<Rightarrow> unit mock_act" where
  "mock_timer E =
     sbind (sget m_established) (\<lambda>established.
     if established then sbind (mock_heartbeat_fields E None) (send_response E) else sreturn ())"

datatype mock_input = MockRead bytes | MockEof | MockReadError string | MockTimer

fun mock_turn :: "mock_env \<Rightarrow> mock_input \<Rightarrow> bool mock_act" where
  "mock_turn E (MockRead chunk) = sbind (mock_ingest chunk) (mock_frames E)"
| "mock_turn E MockEof = sreturn False"
| "mock_turn E (MockReadError m) = sfail (MockTransport m)"
| "mock_turn E MockTimer = sbind (mock_timer E) (\<lambda>_. sreturn True)"

text \<open>The loop goes on, or \<open>run_mock_session\<close> has returned, or its task panicked.\<close>

datatype mock_status = MockRunning | MockEnded "mock_error option" | MockPanicked

definition mock_step :: "mock_env \<Rightarrow> mock_input \<Rightarrow> mock \<Rightarrow> mock \<times> mock_status" where
  "mock_step E i s = (case mock_turn E i s of
     (s', Ok True) \<Rightarrow> (s', MockRunning)
   | (s', Ok False) \<Rightarrow> (s', MockEnded None)
   | (s', Err e) \<Rightarrow> (s', MockEnded (Some e))
   | (s', Panic) \<Rightarrow> (s', MockPanicked))"

definition new_mock :: "mock_env \<Rightarrow> mock_config \<Rightarrow> mock" where
  "new_mock E cfg = \<lparr>m_config = cfg, m_decoder = new_decoder (1024 * 1024), m_next_in = 1, m_next_out = 1,
     m_next_execution_id = 1, m_established = False, m_last_outbound = me_now E 0, m_tick = 1, m_wire = [], m_log = []\<rparr>"

inductive mock_reachable :: "mock_env \<Rightarrow> mock_config \<Rightarrow> mock \<Rightarrow> mock_status \<Rightarrow> bool" for E cfg where
  mock_start: "mock_reachable E cfg (new_mock E cfg) MockRunning"
| mock_next: "mock_reachable E cfg s MockRunning \<Longrightarrow> mock_step E i s = (s', r) \<Longrightarrow> mock_reachable E cfg s' r"

lemmas [fix_eval] = mock_required_def mock_parse_u64_def mock_validate_envelope_def mock_tick_def mock_log_def
  mock_header_def mock_logon_fields_def mock_heartbeat_fields_def first_value_def echoed_def execution_terms_def
  execution_report_fields_def mock_write_call_def write_message_def checked_next_def send_response_def respond_logon_def
  respond_order_def respond_logout_def reject_type_def mock_message_def mock_check_def mock_frame_def mock_ingest_def
  mock_timer_def mock_step_def new_mock_def

section \<open>What the acceptor sends\<close>

text \<open>The frames of a session are the encodings of messages with the session's header, numbered from one.\<close>

definition headed :: "mock_config \<Rightarrow> u64 \<Rightarrow> field list \<Rightarrow> bool" where
  "headed cfg q fs \<longleftrightarrow> (\<exists>t time rest. fs =
     [Field 35 t, Field 49 (as_bytes (mc_sender_comp_id cfg)), Field 56 (as_bytes (mc_target_comp_id cfg)),
      Field 34 (as_bytes (dec64 q)), Field 52 time] @ rest)"

definition numbered_frames :: "mock_config \<Rightarrow> bytes list \<Rightarrow> bool" where
  "numbered_frames cfg ws \<longleftrightarrow> (\<forall>k < length ws. \<exists>fs. headed cfg (of_nat (Suc k)) fs
     \<and> encode_message (as_bytes (mc_begin_string cfg)) fs = Ok (ws ! k))"

definition sending :: "mock_config \<Rightarrow> u64 \<Rightarrow> mock \<Rightarrow> bool" where
  "sending cfg q s \<longleftrightarrow> m_config s = cfg \<and> m_next_out s = q \<and> numbered_frames cfg (m_wire s)
     \<and> unat q = Suc (length (m_wire s))"

definition written_out :: "mock_config \<Rightarrow> u64 \<Rightarrow> mock \<Rightarrow> bool" where
  "written_out cfg q s \<longleftrightarrow> m_config s = cfg \<and> m_next_out s = q \<and> numbered_frames cfg (m_wire s) \<and> unat q = length (m_wire s)"

definition stopped :: "mock_config \<Rightarrow> mock_error option \<Rightarrow> mock \<Rightarrow> bool" where
  "stopped cfg e s \<longleftrightarrow> e \<noteq> None \<and> numbered_frames cfg (m_wire s)"

lemma headed_more [intro]: "headed cfg q fs \<Longrightarrow> headed cfg q (fs @ rest)"
  unfolding headed_def by auto

lemma sending_stopped: "sending cfg q s \<Longrightarrow> e \<noteq> None \<Longrightarrow> stopped cfg e s"
  and written_out_stopped: "written_out cfg q s \<Longrightarrow> e \<noteq> None \<Longrightarrow> stopped cfg e s"
  by (simp_all add: sending_def written_out_def stopped_def)

lemma numbered_snoc:
  assumes "numbered_frames cfg ws" "headed cfg (of_nat (Suc (length ws))) fs"
    and "encode_message (as_bytes (mc_begin_string cfg)) fs = Ok w"
  shows "numbered_frames cfg (ws @ [w])"
  using assms unfolding numbered_frames_def by (auto simp: nth_append less_Suc_eq)

lemma sending_log: "triple (sending cfg q) (mock_log l) (\<lambda>_. sending cfg q) (stopped cfg)"
  by (simp add: triple_def mock_log_def sending_def)

lemma sending_tick: "triple (sending cfg q) mock_tick (\<lambda>_. sending cfg q) (stopped cfg)"
  by (simp add: triple_def mock_tick_def sending_def)

lemma sending_lift:
  "r \<noteq> Panic \<Longrightarrow> triple (sending cfg q) (slift r) (\<lambda>_. sending cfg q) (stopped cfg)"
  by (cases r) (auto simp: triple_def intro: sending_stopped)

lemma sending_get: "triple (sending cfg q) (sget g) (\<lambda>_. sending cfg q) (stopped cfg)"
  by (simp add: triple_def)

lemma sending_header: "triple (sending cfg q) (mock_header E t) (\<lambda>fs s. sending cfg q s \<and> headed cfg q fs) (stopped cfg)"
  by (auto simp: triple_def mock_header_def mock_tick_def sbind_apply sending_def headed_def)

lemma checked_next_total: "checked_next t n \<noteq> Panic"
  by (simp add: checked_next_def)

lemma mock_required_total: "mock_required m t \<noteq> Panic"
  by (simp add: mock_required_def split: list.splits)

lemma execution_terms_total: "execution_terms t v \<noteq> Panic"
  by (simp add: execution_terms_def)

lemma mock_envelope_total: "mock_validate_envelope m cfg n \<noteq> Panic"
  by (auto simp: mock_validate_envelope_def mock_parse_u64_def ok_or_def bindR_eqs mock_required_total split: option.splits)

lemma write_calls:
  "triple (written_out cfg q) (sbind (mock_write_call E) (\<lambda>_. mock_write_call E)) (\<lambda>_. written_out cfg q) (stopped cfg)"
proof -
  have "triple (written_out cfg q) (mock_write_call E) (\<lambda>_. written_out cfg q) (stopped cfg)"
    by (auto simp: triple_def mock_write_call_def mock_tick_def sbind_apply written_out_def stopped_def split: option.splits)
  from triple_bind [OF this this] show ?thesis .
qed

lemma write_message_sent:
  assumes "headed cfg q fs"
  shows "triple (sending cfg q) (write_message E fs) (\<lambda>_. written_out cfg q) (stopped cfg)"
proof -
  have add: "triple (\<lambda>s. sending cfg q s \<and> encode_message (as_bytes (mc_begin_string cfg)) fs = Ok w)
     (smodify (\<lambda>s. s\<lparr>m_wire := m_wire s @ [w]\<rparr>)) (\<lambda>_. written_out cfg q) (stopped cfg)" for w
  proof (rule triple_modify)
    fix s assume s: "sending cfg q s \<and> encode_message (as_bytes (mc_begin_string cfg)) fs = Ok w"
    then have "q = of_nat (Suc (length (m_wire s)))" unfolding sending_def by (metis of_nat_unat ucast_id)
    with s assms have "numbered_frames cfg (m_wire s @ [w])" by (auto simp: sending_def intro: numbered_snoc)
    with s show "written_out cfg q (s\<lparr>m_wire := m_wire s @ [w]\<rparr>)" by (simp add: sending_def written_out_def)
  qed
  have log: "triple (\<lambda>s. sending cfg q s \<and> r) (mock_log l) (\<lambda>_ s. sending cfg q s \<and> r) (stopped cfg)" for l r
    by (simp add: triple_def mock_log_def sending_def)
  have get: "triple (sending cfg q) (sget m_config) (\<lambda>c s. sending cfg q s \<and> c = cfg) (stopped cfg)"
    by (simp add: triple_def sending_def)
  have encode: "triple (\<lambda>s. sending cfg q s \<and> c = cfg)
      (slift (map_err (\<lambda>e. MockEncode (codec_error_string e)) (encode_message (as_bytes (mc_begin_string c)) fs)))
      (\<lambda>w s. sending cfg q s \<and> encode_message (as_bytes (mc_begin_string cfg)) fs = Ok w) (stopped cfg)" for c
    by (cases "encode_message (as_bytes (mc_begin_string cfg)) fs")
      (auto simp: triple_def encode_message_no_panic intro: sending_stopped)
  show ?thesis
    unfolding write_message_def
    by (rule triple_bind [OF get], rule triple_bind [OF encode], rule triple_bind [OF log], rule triple_bind [OF add], rule write_calls)
qed

text \<open>What the actions between two frames keep: the sequence number goes on.\<close>

definition serving :: "mock_config \<Rightarrow> mock \<Rightarrow> bool" where
  "serving cfg s \<longleftrightarrow> sending cfg (m_next_out s) s"

lemma sbind_unit: "sbind m (\<lambda>_. sreturn ()) = m"
  by (rule ext) (auto simp: sbind_def sreturn_def split: prod.splits result.splits)

lemma serving_sending:
  assumes "\<And>q. triple (sending cfg q) m Q F"
  shows "triple (serving cfg) m Q F"
  by (rule tripleI) (simp_all add: serving_def triple_Ok [OF assms] triple_Err [OF assms] triple_Panic [OF assms])

lemma serving_stopped: "serving cfg s \<Longrightarrow> e \<noteq> None \<Longrightarrow> stopped cfg e s"
  by (simp add: serving_def sending_stopped)

lemma serving_lift: "r \<noteq> Panic \<Longrightarrow> triple (serving cfg) (slift r) (\<lambda>_. serving cfg) (stopped cfg)"
  by (cases r) (auto simp: triple_def intro: serving_stopped)

lemma serving_modify:
  assumes "\<And>s. m_config (h s) = m_config s" "\<And>s. m_next_out (h s) = m_next_out s" "\<And>s. m_wire (h s) = m_wire s"
  shows "triple (serving cfg) (smodify h) (\<lambda>_. serving cfg) (stopped cfg)"
  using assms by (simp add: triple_def serving_def sending_def)

lemma serving_simple:
  "triple (serving cfg) (mock_log l) (\<lambda>_. serving cfg) (stopped cfg)"
  "triple (serving cfg) (sget g) (\<lambda>_. serving cfg) (stopped cfg)"
  "triple (serving cfg) (sreturn x) (\<lambda>_. serving cfg) (stopped cfg)"
  "triple (serving cfg) (sfail e) (\<lambda>_. serving cfg) (stopped cfg)"
  by (auto simp: triple_def mock_log_def serving_def sending_def stopped_def)

text \<open>An action that prepares the fields of a message.\<close>

definition prepares :: "mock_config \<Rightarrow> (field list) mock_act \<Rightarrow> bool" where
  "prepares cfg m \<longleftrightarrow> (\<forall>q. triple (sending cfg q) m (\<lambda>fs s. sending cfg q s \<and> headed cfg q fs) (stopped cfg))"

lemma prepares_header: "prepares cfg (mock_header E t)"
  by (simp add: prepares_def sending_header)

lemma prepares_more:
  assumes "prepares cfg m"
  shows "prepares cfg (sbind m (\<lambda>fs. sreturn (fs @ rest)))"
  unfolding prepares_def
proof
  fix q
  show "triple (sending cfg q) (sbind m (\<lambda>fs. sreturn (fs @ rest))) (\<lambda>fs s. sending cfg q s \<and> headed cfg q fs) (stopped cfg)"
    by (rule triple_bind [OF assms [unfolded prepares_def, rule_format]]) (auto intro: triple_return)
qed

lemma prepares_after:
  assumes "\<And>q. triple (sending cfg q) m (\<lambda>_. sending cfg q) (stopped cfg)" "\<And>x. prepares cfg (f x)"
  shows "prepares cfg (sbind m f)"
  unfolding prepares_def by (intro allI triple_bind [OF assms(1)] assms(2) [unfolded prepares_def, rule_format])

lemma sending_modify:
  assumes "\<And>s. m_config (h s) = m_config s" "\<And>s. m_next_out (h s) = m_next_out s" "\<And>s. m_wire (h s) = m_wire s"
  shows "triple (sending cfg q) (smodify h) (\<lambda>_. sending cfg q) (stopped cfg)"
  using assms by (simp add: triple_def sending_def)

lemma prepares_before:
  assumes "prepares cfg m" "\<And>q fs. triple (sending cfg q) (f fs) (\<lambda>x s. sending cfg q s \<and> x = fs) (stopped cfg)"
  shows "prepares cfg (sbind m f)"
  unfolding prepares_def
proof
  fix q
  have "triple (\<lambda>s. sending cfg q s \<and> headed cfg q fs) (f fs) (\<lambda>x s. sending cfg q s \<and> headed cfg q x) (stopped cfg)" for fs
    using assms(2) [of q fs] unfolding triple_def by (fastforce split: prod.splits result.splits)
  from triple_bind [OF assms(1) [unfolded prepares_def, rule_format] this]
  show "triple (sending cfg q) (sbind m f) (\<lambda>fs s. sending cfg q s \<and> headed cfg q fs) (stopped cfg)" .
qed

lemma prepares_heartbeat: "prepares cfg (mock_heartbeat_fields E i)"
  unfolding mock_heartbeat_fields_def by (rule prepares_more [OF prepares_header])

lemma prepares_logon: "prepares cfg (respond_logon E m)"
  unfolding respond_logon_def mock_logon_fields_def
  by (intro prepares_after sending_log sending_get sending_modify prepares_more prepares_header) simp_all

lemma prepares_report: "prepares cfg (execution_report_fields E m)"
proof -
  have "prepares cfg (case t of (a, b, c) \<Rightarrow> sbind (mock_header E ''8'') (\<lambda>header. sreturn (header @ g a b c)))" for t and g :: "string \<Rightarrow> string \<Rightarrow> bytes \<Rightarrow> field list"
    by (cases t) (simp del: action_apply add: prepares_more [OF prepares_header])
  then show ?thesis
    unfolding execution_report_fields_def Let_def
    by (intro prepares_after sending_get sending_lift mock_required_total execution_terms_total)
qed

lemma prepares_order: "prepares cfg (respond_order E m)"
proof -
  have "triple (sending cfg q) (sbind (sget m_next_execution_id) (\<lambda>i.
      sbind (slift (checked_next ''execution identifier overflow'' i)) (\<lambda>n.
      sbind (smodify (\<lambda>s. s\<lparr>m_next_execution_id := n\<rparr>)) (\<lambda>_. sreturn fs)))) (\<lambda>x s. sending cfg q s \<and> x = fs) (stopped cfg)" for q fs
    by (auto simp: triple_def sbind_apply checked_next_def sending_def stopped_def)
  then show ?thesis unfolding respond_order_def by (rule prepares_before [OF prepares_report])
qed

lemma respond_serving:
  assumes "prepares cfg m"
  shows "triple (serving cfg) (sbind m (\<lambda>fs. sbind (send_response E fs) (\<lambda>_. sreturn x))) (\<lambda>y s. serving cfg s \<and> y = x) (stopped cfg)"
proof -
  have after: "triple (written_out cfg q) (sbind (sget m_next_out) (\<lambda>next_out.
      sbind (slift (checked_next ''outbound sequence overflow'' next_out)) (\<lambda>n.
      sbind (smodify (\<lambda>s. s\<lparr>m_next_out := n\<rparr>)) (\<lambda>_.
      sbind mock_tick (\<lambda>k. smodify (\<lambda>s. s\<lparr>m_last_outbound := me_now E k\<rparr>)))))) (\<lambda>_. serving cfg) (stopped cfg)" for q
  proof (rule tripleI)
    fix s :: mock
    assume s: "written_out cfg q s"
    have "unat (q + 1) = Suc (unat q)" if "q \<noteq> - 1"
      using that by (metis add.commute eq_neg_iff_add_eq_0 unatSuc)
    with s show "serving cfg s'" if "sbind (sget m_next_out) (\<lambda>next_out.
      sbind (slift (checked_next ''outbound sequence overflow'' next_out)) (\<lambda>n.
      sbind (smodify (\<lambda>s. s\<lparr>m_next_out := n\<rparr>)) (\<lambda>_.
      sbind mock_tick (\<lambda>k. smodify (\<lambda>s. s\<lparr>m_last_outbound := me_now E k\<rparr>))))) s = (s', Ok u)" for s' u
      using that by (auto simp: sbind_apply checked_next_def mock_tick_def serving_def sending_def written_out_def split: if_splits)
  qed (auto simp: sbind_apply checked_next_def mock_tick_def written_out_def stopped_def split: if_splits)
  have send: "triple (\<lambda>s. sending cfg q s \<and> headed cfg q fs) (sbind (send_response E fs) (\<lambda>_. sreturn x))
      (\<lambda>y s. serving cfg s \<and> y = x) (stopped cfg)" for q fs
  proof (cases "headed cfg q fs")
    case True
    have "triple (sending cfg q) (sbind (send_response E fs) (\<lambda>_. sreturn x))
        (\<lambda>y s. serving cfg s \<and> y = x) (stopped cfg)"
      unfolding send_response_def
      by (rule triple_bind [OF triple_bind [OF write_message_sent [OF True] after]]) (simp add: triple_return)
    then show ?thesis by (rule triple_weaken) auto
  qed (simp add: triple_def)
  have "triple (sending cfg q) (sbind m (\<lambda>fs. sbind (send_response E fs) (\<lambda>_. sreturn x))) (\<lambda>y s. serving cfg s \<and> y = x) (stopped cfg)" for q
    by (rule triple_bind [OF assms [unfolded prepares_def, rule_format] send])
  then show ?thesis by (rule serving_sending)
qed

lemma logout_stops:
  "triple (serving cfg) (sbind (respond_logout E) (\<lambda>_. sreturn False)) (\<lambda>go s. \<not> go \<and> numbered_frames cfg (m_wire s)) (stopped cfg)"
proof -
  have send: "triple (\<lambda>s. sending cfg q s \<and> headed cfg q fs) (write_message E fs) (\<lambda>_. written_out cfg q) (stopped cfg)" for q fs
    using write_message_sent [of cfg q fs E] by (cases "headed cfg q fs") (auto simp: triple_def)
  have "triple (sending cfg q) (sbind (respond_logout E) (\<lambda>_. sreturn False)) (\<lambda>go s. \<not> go \<and> numbered_frames cfg (m_wire s)) (stopped cfg)" for q
    unfolding respond_logout_def
    by (rule triple_bind [OF triple_bind [OF sending_log triple_bind [OF sending_log triple_bind [OF sending_header send]]]])
      (auto intro!: triple_return simp: written_out_def)
  then show ?thesis by (rule serving_sending)
qed

lemma message_serving:
  "triple (serving cfg) (mock_message E m) (\<lambda>go s. if go then serving cfg s else numbered_frames cfg (m_wire s)) (stopped cfg)"
proof -
  let ?Q = "\<lambda>go s. if go then serving cfg s else numbered_frames cfg (m_wire s)"
  have answer: "triple (serving cfg) (sbind n (\<lambda>fs. sbind (send_response E fs) (\<lambda>_. sreturn True))) ?Q (stopped cfg)"
    if "prepares cfg n" for n
    by (rule triple_weaken [OF respond_serving [OF that]]) (auto simp: serving_def sending_def)
  have logout: "triple (serving cfg) (sbind (respond_logout E) (\<lambda>_. sreturn False)) ?Q (stopped cfg)"
    by (rule triple_weaken [OF logout_stops]) auto
  have reject: "triple (serving cfg) (sbind (reject_type t) (\<lambda>_. sreturn True)) ?Q (stopped cfg)" for t
    unfolding reject_type_def Let_def
    by (rule triple_bind [OF triple_bind [OF serving_simple(1) serving_simple(4)]]) (auto intro: triple_return)
  show ?thesis
    unfolding mock_message_def
    by (rule triple_bind [OF serving_lift [OF mock_required_total]])
      (intro triple_if answer prepares_logon prepares_heartbeat prepares_order logout reject triple_return, simp)
qed

lemma frame_serving:
  "triple (serving cfg) (mock_frame E f) (\<lambda>go s. if go then serving cfg s else numbered_frames cfg (m_wire s)) (stopped cfg)"
proof -
  have check: "triple (serving cfg) (mock_check m) (\<lambda>_. serving cfg) (stopped cfg)" for m
    using mock_envelope_total
    by (auto simp: triple_def mock_check_def mock_log_def sbind_apply serving_def sending_def stopped_def split: result.splits)
  have parse: "map_err g (parse_frame f) \<noteq> Panic" for g :: "parse_error \<Rightarrow> mock_error"
    by (cases "parse_frame f") (simp_all add: parse_frame_no_panic)
  show ?thesis
    unfolding mock_frame_def
    by (rule triple_bind [OF serving_simple(1)], rule triple_bind [OF serving_lift [OF parse]], rule triple_bind [OF check],
      rule triple_bind [OF serving_simple(2)], rule triple_bind [OF serving_lift [OF checked_next_total]],
      rule triple_bind [OF serving_modify message_serving]) simp_all
qed

lemma frames_serving:
  "triple (serving cfg) (mock_frames E fs) (\<lambda>go s. if go then serving cfg s else numbered_frames cfg (m_wire s)) (stopped cfg)"
proof (induction fs)
  case Nil
  show ?case by (simp add: triple_def)
next
  case (Cons f fs)
  let ?Q = "\<lambda>go s. if go then serving cfg s else numbered_frames cfg (m_wire s)"
  have "triple (?Q go) (if go then mock_frames E fs else sreturn False) ?Q (stopped cfg)" for go
    using Cons.IH by (cases go) (auto simp: triple_def)
  from triple_bind [OF frame_serving this] show ?case by (simp only: mock_frames.simps)
qed

lemma turn_serving:
  "triple (serving cfg) (mock_turn E i) (\<lambda>go s. if go then serving cfg s else numbered_frames cfg (m_wire s)) (stopped cfg)"
proof (cases i)
  case (MockRead chunk)
  have "triple (serving cfg) (mock_ingest chunk) (\<lambda>_. serving cfg) (stopped cfg)"
  proof -
    have "snd (ingest d chunk) \<noteq> Panic" for d
      using take_frames_no_panic [of "fd_buffer d @ chunk" "fd_max_body_length d"]
      by (cases "take_frames (fd_buffer d @ chunk) (fd_max_body_length d)")
        (auto simp: ingest_def bindR_eqs checked_add_usize_def)
    then show ?thesis
      by (auto simp: triple_def mock_ingest_def serving_def sending_def stopped_def split: prod.splits result.splits)
        (metis snd_conv)+
  qed
  from triple_bind [OF this frames_serving] MockRead show ?thesis by simp
next
  case MockTimer
  have "triple (serving cfg) (sbind (mock_timer E) (\<lambda>_. sreturn True)) (\<lambda>go s. serving cfg s) (stopped cfg)"
    unfolding mock_timer_def
  proof (rule triple_bind [OF triple_bind [OF serving_simple(2)] serving_simple(3)])
    fix established
    have "triple (serving cfg) (sbind (mock_heartbeat_fields E None) (send_response E)) (\<lambda>_. serving cfg) (stopped cfg)"
      by (rule triple_weaken [OF respond_serving [OF prepares_heartbeat, of _ _ _ _ "()", unfolded sbind_unit]]) auto
    then show "triple (serving cfg) (if established then sbind (mock_heartbeat_fields E None) (send_response E) else sreturn ())
        (\<lambda>_. serving cfg) (stopped cfg)"
      using serving_simple(3) by (cases established) (auto simp: triple_def)
  qed
  then have "triple (serving cfg) (mock_turn E i) (\<lambda>go. serving cfg) (stopped cfg)" using MockTimer by simp
  then show ?thesis by (rule triple_weaken) (auto simp: serving_def sending_def)
qed (simp_all add: triple_def serving_def sending_def stopped_def)

section \<open>Property\<close>

lemma mock_reachable_serving:
  assumes "mock_reachable E cfg s r"
  shows "(r = MockRunning \<longrightarrow> serving cfg s) \<and> r \<noteq> MockPanicked \<and> numbered_frames cfg (m_wire s)"
  using assms
proof (induction rule: mock_reachable.induct)
  case mock_start
  show ?case by (simp add: new_mock_def serving_def sending_def numbered_frames_def)
next
  case (mock_next s i s' r)
  then have s: "serving cfg s" by blast
  obtain x where x: "mock_turn E i s = (s', x)"
    using mock_next(2) by (auto simp: mock_step_def split: prod.splits result.splits bool.splits)
  show ?case
    using triple_Ok [OF turn_serving s, of E i s'] triple_Err [OF turn_serving s, of E i s'] triple_Panic [OF turn_serving s, of E i s']
      x mock_next(2)
    by (cases x) (auto simp: mock_step_def serving_def sending_def stopped_def split: bool.splits)
qed

text \<open>C33: the acceptor numbers what it sends. In every state it reaches, whatever the peer sends and wherever
  it fails, the frames on its socket are the encodings of messages with its own header and the
  numbers one, two, three and so on; and it never panics.\<close>

theorem mock_frames_numbered:
  assumes "mock_reachable E cfg s r"
  shows "r \<noteq> MockPanicked \<and> (\<forall>k < length (m_wire s). \<exists>fs. headed cfg (of_nat (Suc k)) fs
    \<and> encode_message (as_bytes (mc_begin_string cfg)) fs = Ok (m_wire s ! k))"
  using mock_reachable_serving [OF assms] by (simp add: numbered_frames_def)

definition demo_acceptor :: mock_config where
  "demo_acceptor = \<lparr>mc_begin_string = ''F'', mc_sender_comp_id = ''B'', mc_target_comp_id = ''A'', mc_heartbeat_interval_secs = 30\<rparr>"

definition demo_mock_env :: mock_env where
  "demo_mock_env = \<lparr>me_time = (\<lambda>_. ''t''), me_now = (\<lambda>_. 0), me_write = (\<lambda>_. None)\<rparr>"

definition demo_peer_logon :: bytes where
  "demo_peer_logon = (case encode_message (as_bytes ''F'') [Field 35 (as_bytes ''A''), Field 49 (as_bytes ''A''),
     Field 56 (as_bytes ''B''), Field 34 (as_bytes ''1''), Field 52 (as_bytes ''t'')] of Ok w \<Rightarrow> w | _ \<Rightarrow> [])"

definition demo_mock :: "mock \<times> mock_status" where
  "demo_mock = mock_step demo_mock_env (MockRead demo_peer_logon) (new_mock demo_mock_env demo_acceptor)"

lemma demo_mock_sent: "length (m_wire (fst demo_mock)) = 1"
  by (simp add: demo_mock_def demo_peer_logon_def demo_mock_env_def demo_acceptor_def fix_eval cong: fix_cong)

theorem mock_frames_numbered_witness:
  "\<exists>fs. headed demo_acceptor 1 fs \<and> encode_message (as_bytes ''F'') fs = Ok (m_wire (fst demo_mock) ! 0)"
proof -
  have "mock_reachable demo_mock_env demo_acceptor (fst demo_mock) (snd demo_mock)"
    by (rule mock_next [OF mock_start]) (simp add: demo_mock_def)
  from mock_frames_numbered [OF this] demo_mock_sent show ?thesis by (auto simp: demo_acceptor_def)
qed

end
