(* ===== verification/Fix_Handshake.thy ===== *)
theory Fix_Handshake
  imports Fix_Delivery Fix_Mock
begin

text \<open>
  The initiator of \<open>crates/fix-session\<close> against the acceptor of \<open>crates/fix-mock\<close>, over a working store
  and connection: over the journal of any earlier session the initiator opens the next one with a Logon
  that carries the journal's numbering, the acceptor accepts the first Logon of a numbering, and its answer
  establishes the session. \<open>runs m s Q\<close> is the total form of a triple: from \<open>s\<close> the code returns, in a
  state with \<open>Q\<close>.
\<close>

section \<open>Code that returns\<close>

definition runs :: "('s, 'e, 'a) action \<Rightarrow> 's \<Rightarrow> ('a \<Rightarrow> 's \<Rightarrow> bool) \<Rightarrow> bool" where
  "runs m s Q \<longleftrightarrow> (\<exists>s' x. m s = (s', Ok x) \<and> Q x s')"

lemma runs_bind: "runs m s R \<Longrightarrow> (\<And>x s'. R x s' \<Longrightarrow> runs (f x) s' Q) \<Longrightarrow> runs (sbind m f) s Q"
  unfolding runs_def by (fastforce simp: sbind_apply)

lemma runs_simple:
  "Q x s \<Longrightarrow> runs (sreturn x) s Q" "Q (g s) s \<Longrightarrow> runs (sget g) s Q" "Q () (h s) \<Longrightarrow> runs (smodify h) s Q"
  "r = Ok x \<Longrightarrow> Q x s \<Longrightarrow> runs (slift r) s Q" "b \<Longrightarrow> Q () s \<Longrightarrow> runs (sensure b e) s Q"
  by (simp_all add: runs_def)

lemma runs_steps:
  "runs (sbind (sget g) f) s Q \<longleftrightarrow> runs (f (g s)) s Q"
  "runs (sbind (slift (Ok x)) f) s Q \<longleftrightarrow> runs (f x) s Q"
  "runs (sbind (sensure True e) f') s Q \<longleftrightarrow> runs (f' ()) s Q"
  "runs (sbind (smodify h) f') s Q \<longleftrightarrow> runs (f' ()) (h s) Q"
  "runs (sbind (sreturn x) f) s Q \<longleftrightarrow> runs (f x) s Q"
  by (simp_all add: runs_def sbind_apply)

lemma runs_weaken: "runs m s R \<Longrightarrow> (\<And>x s'. R x s' \<Longrightarrow> Q x s') \<Longrightarrow> runs m s Q"
  unfolding runs_def by blast

section \<open>Messages and frames\<close>

text \<open>An encoded message is one frame for a decoder, and it parses back to its fields.\<close>

lemma encoded_frame:
  assumes "encode_message bs fs = Ok w" "length w \<le> m" "m + 1024 \<le> usize_max"
  shows "ingest (new_decoder m) w = (new_decoder m, Ok [w])"
proof -
  from encode_message_parts [OF assms(1)] assms(2,3) obtain c ds where
    parts: "frame_parts w bs ds (concat (map (\<lambda>f. field_text (printed f)) fs)) (as_bytes (dec03 c)) c" by auto
  then have "length (concat (map (\<lambda>f. field_text (printed f)) fs)) \<le> length w" by (simp add: frame_parts_def)
  with parts assms(2) have "wf_frame m w" unfolding wf_frame_def by (meson le_trans)
  then have "ingest_all (new_decoder m) [w] = (new_decoder m, Ok [w])"
    using assms ingest_all_frames [of "[]" "[w]" "[w]" m] wf_frame_nonempty [of m w] by (auto simp: new_decoder_def)
  then show ?thesis by (auto simp: bindR_eqs split: prod.splits result.splits)
qed

text \<open>The Logon of the initiator, and the acceptor's answer.\<close>

definition logon_header :: "string \<Rightarrow> string \<Rightarrow> string \<Rightarrow> string \<Rightarrow> field list" where
  "logon_header t sender target now = [Field 35 (as_bytes t), Field 49 (as_bytes sender), Field 56 (as_bytes target),
     Field 34 (as_bytes ''1''), Field 52 (as_bytes now)]"

definition logon_message :: "session_config \<Rightarrow> field list \<Rightarrow> string \<Rightarrow> field list" where
  "logon_message cfg lf now = logon_header ''A'' (sc_sender_comp_id cfg) (sc_target_comp_id cfg) now @ logon_body cfg lf"

definition logon_answer :: "session_config \<Rightarrow> string \<Rightarrow> field list" where
  "logon_answer cfg now = logon_header ''A'' (sc_target_comp_id cfg) (sc_sender_comp_id cfg) now
     @ [Field 98 (as_bytes ''0''), Field 108 (as_bytes (dec64 (sc_heartbeat_interval_secs cfg)))]
     @ (if sc_reset_on_logon cfg then [Field 141 (as_bytes ''Y'')] else [])"

text \<open>The Logon with any number: the one of a session that continues a numbering.\<close>

definition logon_at :: "session_config \<Rightarrow> field list \<Rightarrow> u64 \<Rightarrow> string \<Rightarrow> field list" where
  "logon_at cfg lf q now = [Field 35 (as_bytes ''A''), Field 49 (as_bytes (sc_sender_comp_id cfg)),
     Field 56 (as_bytes (sc_target_comp_id cfg)), Field 34 (as_bytes (dec64 q)), Field 52 (as_bytes now)] @ logon_body cfg lf"

text \<open>The number of the Logon over a journal.\<close>

definition logon_number :: "session_config \<Rightarrow> journal_log \<Rightarrow> u64" where
  "logon_number cfg l = (if sc_reset_on_logon cfg then 1 else lg_next_out l)"

lemma logon_at_one: "logon_at cfg lf 1 now = logon_message cfg lf now"
  by (simp add: logon_at_def logon_message_def logon_header_def dec64_def dec_small)

text \<open>What the two ends have to agree on, and what their texts must not contain.\<close>

definition acceptor_of :: "session_config \<Rightarrow> mock_config" where
  "acceptor_of cfg = \<lparr>mc_begin_string = sc_begin_string cfg, mc_sender_comp_id = sc_target_comp_id cfg,
     mc_target_comp_id = sc_sender_comp_id cfg, mc_heartbeat_interval_secs = sc_heartbeat_interval_secs cfg\<rparr>"

definition plain :: "string \<Rightarrow> bool" where
  "plain t \<longleftrightarrow> SOH \<notin> set (as_bytes t)"

text \<open>A configuration a session can be started with. A custom tag 141 would be echoed by the acceptor and then be
  refused as sensitive.\<close>

definition proper_config :: "session_config \<Rightarrow> field list \<Rightarrow> bool" where
  "proper_config cfg lf \<longleftrightarrow> plain (sc_sender_comp_id cfg) \<and> plain (sc_target_comp_id cfg)
     \<and> (\<exists>w. encode_message (as_bytes (sc_begin_string cfg)) [Field 35 []] = Ok w)
     \<and> validate_custom_logon_fields lf = Ok () \<and> 141 \<notin> field_tag ` set lf"

text \<open>The frames fit into the buffers of both ends.\<close>

definition fitting :: "session_config \<Rightarrow> field list \<Rightarrow> (nat \<Rightarrow> string) \<Rightarrow> (nat \<Rightarrow> string) \<Rightarrow> bool" where
  "fitting cfg lf time time' \<longleftrightarrow> (\<forall>n w.
     (encode_message (as_bytes (sc_begin_string cfg)) (logon_message cfg lf (time n)) = Ok w \<longrightarrow> length w \<le> 1024 * 1024)
     \<and> (encode_message (as_bytes (sc_begin_string cfg)) (logon_answer cfg (time' n)) = Ok w \<longrightarrow> length w \<le> 1024 * 1024))"

lemma plain_dec64 [simp]: "plain (dec64 n)"
  using digits_no_SOH [of "as_bytes (dec (unat n))"] dec_digits [of _ "unat n"] by (auto simp: plain_def dec64_def)

lemma validate_logon_tags:
  "validate_logon_from seen lf = Ok () \<Longrightarrow> f \<in> set lf \<Longrightarrow> field_tag f \<notin> logon_managed_tags \<and> SOH \<notin> set (field_value f)"
  by (induction lf arbitrary: seen) (auto split: if_splits)

lemma encode_like:
  assumes "encode_message bs [Field 35 []] = Ok w0" "first_tag fs = Some 35" "encodable fs"
  obtains w where "encode_message bs fs = Ok w"
  using assms by (auto simp: encode_message_Ok Let_def)

lemma logon_encodable:
  assumes "validate_custom_logon_fields lf = Ok ()"
  shows "encodable (logon_at cfg lf q now)"
proof -
  have "field_tag f \<noteq> 0 \<and> \<not> (8 \<le> field_tag f \<and> field_tag f \<le> 10)" if "f \<in> set lf" for f
  proof -
    have "field_tag f \<notin> {0, 8, 9, 10}"
      using validate_logon_tags [of "[]" lf f] assms that by (auto simp: validate_custom_logon_fields_def logon_managed_tags_def)
    moreover have "t \<in> {8, 9, 10}" if "8 \<le> t" "t \<le> 10" for t :: u32
    proof -
      have "unat t \<in> {8, 9, 10}" using that by (auto simp: word_le_nat_alt)
      then show ?thesis by (auto simp: word_unat_eq_iff)
    qed
    ultimately show ?thesis by blast
  qed
  then show ?thesis by (auto simp: encodable_def logon_at_def logon_body_def)
qed

lemma logon_answer_encodable: "encodable (logon_answer cfg now)"
  by (auto simp: encodable_def logon_answer_def logon_header_def)

lemma logon_first: "first_tag (logon_at cfg lf q now) = Some 35" "first_tag (logon_answer cfg now) = Some 35"
  by (simp_all add: first_tag_def logon_at_def logon_answer_def logon_header_def)

lemma plain_one: "plain ''1''" "plain ''0''" "plain ''A''" "plain ''Y''"
  by (simp_all add: plain_def)

lemma logon_message_values:
  assumes "proper_config cfg lf" "plain now"
  shows "\<forall>f \<in> set (logon_message cfg lf now). SOH \<notin> set (field_value f)"
proof -
  have "SOH \<notin> set (field_value f)" if "f \<in> set lf" for f
    using validate_logon_tags [of "[]" lf f] assms(1) that by (simp add: validate_custom_logon_fields_def proper_config_def)
  then show ?thesis
    using assms plain_dec64 plain_one by (auto simp: logon_message_def logon_header_def logon_body_def proper_config_def plain_def)
qed

lemma logon_answer_values:
  assumes "proper_config cfg lf" "plain now"
  shows "\<forall>f \<in> set (logon_answer cfg now). SOH \<notin> set (field_value f)"
  using assms plain_dec64 plain_one by (auto simp: logon_answer_def logon_header_def proper_config_def plain_def)

section \<open>The initiator sends its Logon\<close>

context reliable_store
begin

text \<open>A session whose counters are those of its store, with nothing buffered.\<close>

definition in_tune :: "session_config \<Rightarrow> field list \<Rightarrow> session_phase \<Rightarrow> bytes list \<Rightarrow> 'st session \<Rightarrow> bool" where
  "in_tune cfg lf ph wires s \<longleftrightarrow> s_config s = cfg \<and> s_logon_fields s = lf \<and> s_phase s = ph \<and> s_wire s = wires
     \<and> s_decoder s = new_decoder (1024 * 1024) \<and> s_gap_buffer s = [] \<and> s_test_request s = None
     \<and> inv (s_store s) \<and> ready (s_store s) \<and> s_next_out s = lg_next_out (view (s_store s))
     \<and> s_next_in s = lg_next_in (view (s_store s)) \<and> s_next_event s = lg_next_event (view (s_store s))"

lemma runs_header:
  assumes "in_tune cfg lf ph wires s" "view (s_store s) = l" "lg_next_out l = q"
  shows "runs (standard_header E t) s (\<lambda>h s'. in_tune cfg lf ph wires s' \<and> view (s_store s') = l
    \<and> (\<exists>n. h = [Field 35 (as_bytes t), Field 49 (as_bytes (sc_sender_comp_id cfg)),
        Field 56 (as_bytes (sc_target_comp_id cfg)), Field 34 (as_bytes (dec64 q)), Field 52 (as_bytes (e_time E n))]))"
  using assms by (auto simp: runs_def standard_header_def sending_time_def tick_def sbind_apply in_tune_def)

lemma runs_encode:
  assumes "in_tune cfg lf ph wires s" "encode_message (as_bytes (sc_begin_string cfg)) fs = Ok w"
  shows "runs (encode_outbound fs) s (\<lambda>x s'. x = w \<and> s' = s)"
  using assms by (simp add: runs_def encode_outbound_def in_tune_def)

text \<open>A message of the session: journaled, handed to the socket, marked, counted.\<close>

lemma runs_send_committed:
  assumes "in_tune cfg lf ph wires s" "view (s_store s) = l" "has_room l" "lg_cmds l i = None"
    and "\<And>n. e_write E n = None" "\<And>s. \<exists>lines. sent s = (s\<lparr>s_log := lines\<rparr>, Ok ())"
  shows "runs (send_committed E i fp jw w sent wrong) s (\<lambda>_ s'. in_tune cfg lf ph (wires @ [w]) s'
    \<and> length (lg_out (view (s_store s'))) = Suc (length (lg_out l)) \<and> lg_next_in (view (s_store s')) = lg_next_in l
    \<and> lg_next_event (view (s_store s')) = lg_next_event l)"
proof -
  have i: "inv (s_store s)" "ready (s_store s)" "s_next_out s = lg_next_out l"
    using assms(1,2) by (simp_all add: in_tune_def)
  define oc where "oc = \<lparr>oc_request_id = i, oc_fingerprint = fp, oc_cl_ord_id = '''', oc_msg_seq_num = s_next_out s, oc_wire = jw\<rparr>"
  define l1 where "l1 = l\<lparr>lg_out := lg_out l @ [\<lparr>ob_command = new_command oc, ob_wire = jw\<rparr>],
    lg_cmds := (lg_cmds l)(i \<mapsto> new_command oc)\<rparr>"
  have "log_apply (view (s_store s)) (CommitOutbound oc) = Ok (l1, Command (new_command oc))"
    using assms(2,4) i(3) by (simp add: oc_def l1_def)
  then obtain st where st: "store_apply E (CommitOutbound oc) s = (s\<lparr>s_store := st, s_tick := Suc (s_tick s)\<rparr>, Ok (Command (new_command oc)))"
      "inv st" "ready st" "view st = l1"
    using store_answers [of s "CommitOutbound oc"] i assms(2,3) by auto
  define s2 where "s2 = s\<lparr>s_store := st, s_tick := Suc (s_tick s)\<rparr>"
  have commit: "commit_command E i fp '''' jw wrong s = (s2, Ok (new_command oc))"
    using st(1) by (simp add: commit_command_def sbind_apply s2_def oc_def)
  define s3 where "s3 = fst (write_wire E w s2)"
  have w: "write_wire E w s2 = (s3, Ok ())" "s3 = s\<lparr>s_store := st, s_tick := s_tick s3, s_log := s_log s3, s_wire := wires @ [w],
      s_last_outbound := s_last_outbound s3\<rparr>"
    using assms(1,5) by (simp_all add: write_wire_def write_call_def log_out_def instant_now_def tick_def sbind_def
        smodify_def sreturn_def in_tune_def s2_def s3_def)
  have s3: "s_config s3 = cfg" "s_logon_fields s3 = lf" "s_phase s3 = ph" "s_wire s3 = wires @ [w]"
      "s_decoder s3 = new_decoder (1024 * 1024)" "s_gap_buffer s3 = []" "s_test_request s3 = None"
      "s_next_in s3 = lg_next_in l" "s_next_event s3 = lg_next_event l"
    using assms(1,2) by (subst w(2), simp add: in_tune_def)+
  obtain lines where sent: "sent s3 = (s3\<lparr>s_log := lines\<rparr>, Ok ())" using assms(6) by blast
  define s4 where "s4 = s3\<lparr>s_log := lines\<rparr>"
  have store4: "s_store s4 = st" unfolding s4_def by (subst w(2)) simp
  let ?c = "(new_command oc)\<lparr>cr_phase := Written\<rparr>"
  have room: "unat (lg_next_out l) = Suc (length (lg_out l))"
    using assms(3) by (simp add: lg_next_out_def has_room_def unat_of_nat_u64 del: of_nat_Suc)
  define l2 where "l2 = l1\<lparr>lg_out := lg_out l @ [\<lparr>ob_command = ?c, ob_wire = jw\<rparr>], lg_cmds := (lg_cmds l)(i \<mapsto> ?c)\<rparr>"
  have "log_apply l1 (MarkOutboundWritten \<lparr>mo_request_id = i, mo_msg_seq_num = s_next_out s\<rparr>) = Ok (l2, Command ?c)"
    using room i(3) by (auto simp: l1_def l2_def new_command_def oc_def Let_def)
  then obtain st' where st': "mark_written E i (s_next_out s) s4 = (s4\<lparr>s_store := st', s_tick := Suc (s_tick s4)\<rparr>, Ok (Command ?c))"
      "inv st'" "ready st'" "view st' = l2"
    using store_answers [of s4] store4 st(2-4) unfolding mark_written_def by (metis served_op.simps(2))
  have "add64 (s_next_out s) 1 = (Ok (s_next_out s + 1) :: (session_error, u64) result)"
    using room i(3) assms(3) by (simp add: add64_def has_room_def)
  then have "send_committed E i fp jw w sent wrong s
      = (s4\<lparr>s_store := st', s_tick := Suc (s_tick s4), s_next_out := s_next_out s + 1\<rparr>, Ok ())"
    unfolding send_committed_def
    using commit w(1) sent st'(1) by (simp add: sbind_apply s4_def [symmetric] advance_next_out_def new_command_def oc_def)
  moreover have "lg_next_out l2 = lg_next_out l + 1" by (simp add: lg_next_out_def l2_def add.commute)
  ultimately show ?thesis
    using assms(1,2) st' i(3) s3 by (simp add: runs_def in_tune_def s4_def l2_def l1_def)
qed

end

context reliable_store
begin

text \<open>The journal the Logon is committed to: as the last session left it, or reset to one and one.\<close>

definition opening_log :: "session_config \<Rightarrow> journal_log \<Rightarrow> journal_log \<Rightarrow> bool" where
  "opening_log cfg l0 l \<longleftrightarrow> lg_out l = (if sc_reset_on_logon cfg then [] else lg_out l0)
     \<and> lg_next_in l = (if sc_reset_on_logon cfg then 1 else lg_next_in l0)
     \<and> admin_fresh rival (ledger_of l) \<and> event_room l \<and> has_room l"

lemma runs_reset:
  assumes "in_tune cfg lf ph wires s" "view (s_store s) = l" "admin_fresh rival (ledger_of l)"
    and "Suc (Suc (unat (lg_next_event l))) < 2 ^ 64" "sc_reset_on_logon cfg \<or> has_room l"
  shows "runs (if sc_reset_on_logon cfg then reset_for_logon E else sreturn ()) s
    (\<lambda>_ s'. in_tune cfg lf ph wires s' \<and> opening_log cfg l (view (s_store s')))"
proof (cases "sc_reset_on_logon cfg")
  case True
  have room: "event_room l" using assms(4) by (simp add: event_room_def)
  obtain e where e: "add64 (lg_next_event l) 1 = (Ok e :: (store_error, u64) result)" "unat e = Suc (unat (lg_next_event l))"
  proof
    show "add64 (lg_next_event l) 1 = (Ok (lg_next_event l + 1) :: (store_error, u64) result)"
      using room by (simp add: add64_def event_room_def)
    show "unat (lg_next_event l + 1) = Suc (unat (lg_next_event l))"
      using room by (simp add: event_room_def unat_word_ariths)
  qed
  define l' where "l' = l\<lparr>lg_out := [], lg_tx := [], lg_in := Map.empty, lg_next_in := 1, lg_next_event := e\<rparr>"
  have "log_apply (view (s_store s)) ResetSequences = Ok (l', SequencesReset e)"
    using assms(2) e(1) by (simp add: l'_def)
  then obtain st where st: "store_apply E ResetSequences s = (s\<lparr>s_store := st, s_tick := Suc (s_tick s)\<rparr>, Ok (SequencesReset e))"
      "inv st" "ready st" "view st = l'"
    using store_answers [of s ResetSequences] assms(1,2) room by (auto simp: in_tune_def)
  have "admin_fresh rival (ledger_of l')"
    using admin_fresh_reset [OF assms(3)] e(2) by (simp add: ledger_of_def l'_def)
  moreover have "event_room l'" using e(2) assms(4) by (simp add: event_room_def l'_def)
  ultimately show ?thesis
    using True st assms(1)
    by (simp add: runs_def reset_for_logon_def sbind_apply log_out_def smodify_def in_tune_def opening_log_def l'_def
        lg_next_out_def has_room_def)
next
  case False
  with assms show ?thesis by (auto simp: runs_def opening_log_def event_room_def)
qed

text \<open>An ID that would be in the journal only with a rival's fingerprint is not there when all are rivals.\<close>

lemma admin_unused:
  assumes "admin_fresh rival (ledger_of l)" "\<And>fp. rival fp"
  shows "lg_cmds l (admin_id k (lg_next_out l) (lg_next_event l)) = None"
  using admin_fresh_unused [OF assms, where k = k]
  by (cases "lg_cmds l (admin_id k (lg_next_out l) (lg_next_event l))")
    (auto simp: ledger_of_def at_out_def lg_next_out_def prints_def)

text \<open>What the Logon leaves behind.\<close>

definition logged_on :: "session_config \<Rightarrow> field list \<Rightarrow> session_phase \<Rightarrow> journal_log \<Rightarrow> 'st session \<Rightarrow> bytes \<Rightarrow> nat \<Rightarrow> bool" where
  "logged_on cfg lf ph l s w n \<longleftrightarrow> in_tune cfg lf ph [w] s
     \<and> length (lg_out (view (s_store s))) = (if sc_reset_on_logon cfg then 1 else Suc (length (lg_out l)))
     \<and> lg_next_in (view (s_store s)) = (if sc_reset_on_logon cfg then 1 else lg_next_in l)
     \<and> event_room (view (s_store s))
     \<and> encode_message (as_bytes (sc_begin_string cfg)) (logon_at cfg lf (logon_number cfg l) (e_time E n)) = Ok w"

lemma runs_send_logon:
  assumes "in_tune cfg lf ph [] s" "view (s_store s) = l" "admin_fresh rival (ledger_of l)" "\<And>fp. rival fp"
    and valid: "validate_custom_logon_fields lf = Ok ()"
    and w0: "encode_message (as_bytes (sc_begin_string cfg)) [Field 35 []] = Ok w0"
    and "Suc (Suc (unat (lg_next_event l))) < 2 ^ 64" "sc_reset_on_logon cfg \<or> has_room l"
    and "\<And>n. e_write E n = None"
  shows "runs (send_logon E) s (\<lambda>_ s'. \<exists>w n. logged_on cfg lf ph l s' w n)"
proof -
  have cfg: "s_config s = cfg" "s_logon_fields s = lf" using assms(1) by (simp_all add: in_tune_def)
  show ?thesis
    unfolding send_logon_def Let_def runs_steps cfg valid
  proof (rule runs_bind [OF runs_reset [OF assms(1,2,3,7,8)]], rule runs_bind, rule runs_header)
    fix s1 h s2
    let ?q = "logon_number cfg l"
    assume s1: "in_tune cfg lf ph [] s1 \<and> opening_log cfg l (view (s_store s1))"
    then show "in_tune cfg lf ph [] s1" "view (s_store s1) = view (s_store s1)" "lg_next_out (view (s_store s1)) = ?q"
      by (simp_all add: opening_log_def lg_next_out_def logon_number_def)
    assume h: "in_tune cfg lf ph [] s2 \<and> view (s_store s2) = view (s_store s1) \<and> (\<exists>n. h = [Field 35 (as_bytes ''A''),
        Field 49 (as_bytes (sc_sender_comp_id cfg)), Field 56 (as_bytes (sc_target_comp_id cfg)),
        Field 34 (as_bytes (dec64 ?q)), Field 52 (as_bytes (e_time E n))])"
    then obtain n where fs: "h @ logon_body cfg lf = logon_at cfg lf ?q (e_time E n)"
      by (auto simp: logon_at_def)
    obtain w where w: "encode_message (as_bytes (sc_begin_string cfg)) (logon_at cfg lf ?q (e_time E n)) = Ok w"
      using encode_like [OF w0 logon_first(1) logon_encodable [OF valid]] by blast
    let ?redacted = "map (redact_field lf) (logon_at cfg lf ?q (e_time E n))"
    have "first_tag ?redacted = Some 35" "encodable ?redacted"
      using logon_first(1) [of cfg lf ?q "e_time E n"] logon_encodable [OF valid, of cfg ?q "e_time E n"]
      by (auto simp: first_tag_def encodable_def redact_field_def split: list.splits)
    then obtain jw where jw: "encode_message (as_bytes (sc_begin_string cfg)) ?redacted = Ok jw"
      using encode_like [OF w0] by blast
    have l2: "opening_log cfg l (view (s_store s2))" and s2: "in_tune cfg lf ph [] s2" using s1 h by simp_all
    let ?i = "admin_id ''logon'' (s_next_out s2) (s_next_event s2)"
    have unused: "lg_cmds (view (s_store s2)) ?i = None"
      using admin_unused [OF _ assms(4), of "view (s_store s2)"] l2 s2 by (simp add: opening_log_def in_tune_def)
    have room: "has_room (view (s_store s2))" using l2 by (simp add: opening_log_def)
    have log: "\<exists>lines. log_out x s = (s\<lparr>s_log := lines\<rparr>, Ok ())" for x and s :: "'st session"
      by (auto simp: log_out_def smodify_def)
    show "runs (sbind (encode_outbound (h @ logon_body cfg lf)) (\<lambda>wire.
        sbind (encode_outbound (map (redact_field lf) (h @ logon_body cfg lf))) (\<lambda>journal_wire.
        sbind (sget (\<lambda>s. s)) (\<lambda>s.
        send_committed E (admin_id ''logon'' (s_next_out s) (s_next_event s))
         (''admin:A:'' @ dec64 (s_next_out s)) journal_wire wire
         (log_out (Info ''Sent logon request'')) outbound_wrong)))) s2
        (\<lambda>_ s'. \<exists>w n. logged_on cfg lf ph l s' w n)"
      unfolding fs
    proof (rule runs_bind [OF runs_encode [OF s2 w]], clarify, rule runs_bind [OF runs_encode [OF s2 jw]], clarify,
        unfold runs_steps, rule runs_weaken [OF runs_send_committed [OF s2 refl room unused assms(9) log]])
      fix x s'
      assume "in_tune cfg lf ph ([] @ [w]) s' \<and> length (lg_out (view (s_store s'))) = Suc (length (lg_out (view (s_store s2))))
        \<and> lg_next_in (view (s_store s')) = lg_next_in (view (s_store s2)) \<and> lg_next_event (view (s_store s')) = lg_next_event (view (s_store s2))"
      with l2 w show "\<exists>w n. logged_on cfg lf ph l s' w n"
        by (auto simp: logged_on_def opening_log_def event_room_def)
    qed
  qed
qed

end

section \<open>The answer establishes the session\<close>

lemma required_header:
  "required_value \<lparr>pm_begin_string = b, pm_fields = logon_header t snd' tgt now @ rest, pm_checksum = c\<rparr> 49 = Ok (as_bytes snd')"
  "required_value \<lparr>pm_begin_string = b, pm_fields = logon_header t snd' tgt now @ rest, pm_checksum = c\<rparr> 56 = Ok (as_bytes tgt)"
  "required_value \<lparr>pm_begin_string = b, pm_fields = logon_header t snd' tgt now @ rest, pm_checksum = c\<rparr> 34 = Ok (as_bytes ''1'')"
  by (simp_all add: required_value_def values_of_def logon_header_def)

lemma parse_one: "from_utf8 (as_bytes ''1'') = Some ''1''" "parse_u64 ''1'' = Some 1" "from_utf8 (as_bytes ''A'') = Some ''A''"
  by (simp_all add: fix_eval cong: fix_cong)

lemma required_one:
  "required_u64 \<lparr>pm_begin_string = b, pm_fields = logon_header t snd' tgt now @ rest, pm_checksum = c\<rparr> 34 = Ok 1"
  by (simp add: required_u64_def required_header ok_or_def parse_one [simplified])

lemma answer_not_sensitive:
  assumes "proper_config cfg lf" "f \<in> set (logon_answer cfg now)"
  shows "\<not> is_sensitive_tag lf (field_tag f)"
proof -
  have managed: "field_tag g \<notin> logon_managed_tags" if "g \<in> set lf" for g
    using validate_logon_tags [of "[]" lf g] assms(1) that by (simp add: validate_custom_logon_fields_def proper_config_def)
  have "field_tag f \<in> {35, 49, 56, 34, 52, 98, 108, 141}"
    using assms(2) by (auto simp: logon_answer_def logon_header_def split: if_splits)
  then have "field_tag f \<in> logon_managed_tags \<or> field_tag f = 141" "field_tag f \<notin> {553, 554, 925}"
    by (auto simp: logon_managed_tags_def)
  with managed assms(1) show ?thesis by (force simp: is_sensitive_tag_def proper_config_def)
qed

lemma answer_heartbeat:
  "required_u64 \<lparr>pm_begin_string = b, pm_fields = logon_answer cfg now, pm_checksum = c\<rparr> 108
    = Ok (sc_heartbeat_interval_secs cfg)"
proof -
  have "required_value \<lparr>pm_begin_string = b, pm_fields = logon_answer cfg now, pm_checksum = c\<rparr> 108
      = Ok (as_bytes (dec64 (sc_heartbeat_interval_secs cfg)))"
    by (simp add: required_value_def values_of_def logon_answer_def logon_header_def)
  then show ?thesis by (simp add: required_u64_def ok_or_def dec64_def parse_u64_dec64 [unfolded dec64_def])
qed

lemma answer_parses:
  assumes "encode_message (as_bytes (sc_begin_string cfg)) (logon_answer cfg now) = Ok w" "length w \<le> 1024 * 1024"
    and "proper_config cfg lf" "plain now"
  obtains c where "parse_inbound cfg lf w = Ok \<lparr>pm_begin_string = as_bytes (sc_begin_string cfg),
    pm_fields = logon_answer cfg now, pm_checksum = c\<rparr>"
proof -
  have "length w \<le> usize_max" using assms(2) by (simp add: usize_max_def)
  from parse_encode [OF assms(1) this logon_answer_values [OF assms(3,4)]] obtain c where
    c: "parse_frame w = Ok \<lparr>pm_begin_string = as_bytes (sc_begin_string cfg), pm_fields = logon_answer cfg now, pm_checksum = c\<rparr>"
    by blast
  have "find (\<lambda>f. is_sensitive_tag lf (field_tag f)) (logon_answer cfg now) = None"
    using answer_not_sensitive [OF assms(3)] by (auto simp: find_None_iff)
  then have "parse_inbound cfg lf w = Ok \<lparr>pm_begin_string = as_bytes (sc_begin_string cfg),
      pm_fields = logon_answer cfg now, pm_checksum = c\<rparr>"
    using c required_header by (simp add: parse_inbound_def parse_frame_or_def logon_answer_def)
  with that show thesis .
qed

context reliable_store
begin

lemma runs_commit_answer:
  assumes "in_tune cfg lf LogonSent wires s" "view (s_store s) = l" "lg_next_in l = 1" "event_room l"
    and "msg = \<lparr>pm_begin_string = b, pm_fields = logon_answer cfg now, pm_checksum = c\<rparr>"
  shows "runs (commit_expected E msg w) s (\<lambda>_ s'. in_tune cfg lf Established wires s'
    \<and> lg_next_in (view (s_store s')) = 2 \<and> lg_out (view (s_store s')) = lg_out l)"
proof -
  have seq: "required_u64 msg 34 = Ok 1" using assms(5) required_one by (simp add: logon_answer_def)
  have heart: "heartbeat_matches cfg ''A'' msg = Ok ()"
    using answer_heartbeat assms(5) by (simp add: heartbeat_matches_def)
  have type: "msg_type msg = Some (as_bytes ''A'')" using assms(5) by (simp add: msg_type_def logon_answer_def logon_header_def)
  have "values_of msg 112 = []" using assms(5) by (simp add: values_of_def logon_answer_def logon_header_def)
  note facts = seq heart type this
  have s: "s_next_in s = 1" "s_config s = cfg" "inv (s_store s)" "ready (s_store s)" "s_next_event s = lg_next_event l"
    using assms(1-3) by (simp_all add: in_tune_def)
  obtain e where e: "add64 (lg_next_event l) 1 = (Ok e :: (store_error, u64) result)" "add64 (lg_next_event l) 1 = (Ok e :: (session_error, u64) result)"
    using assms(4) by (simp add: event_room_def add64_def)
  define ic where "ic = \<lparr>ic_msg_seq_num = 1, ic_next_in_after = 2, ic_msg_type = ''A'', ic_wire = w,
    ic_event = inbound_event (s_next_event s) ''A'' 1\<rparr>"
  have two: "\<not> (2 :: u64) \<le> 1" by (simp add: word_le_nat_alt)
  obtain l' reply where l': "log_apply l (CommitInbound ic) = Ok (l', reply)" "lg_next_in l' = 2" "lg_next_event l' = e"
      "lg_out l' = lg_out l"
    using assms(3) e(1) s(5) two by (simp add: ic_def inbound_event_def log_event_def Let_def)
  obtain st where st: "store_apply E (CommitInbound ic) s = (s\<lparr>s_store := st, s_tick := Suc (s_tick s)\<rparr>, Ok reply)"
      "inv st" "ready st" "view st = l'"
    using store_answers [of s "CommitInbound ic"] s(3,4) assms(2,4) l'(1) by auto
  have after: "next_in_after ''A'' msg 1 1 = (Ok 2 :: (session_error, u64) result)"
    by (simp add: next_in_after_def add64_def)
  have guards: "requested_resend ''A'' msg q = Ok None" "heartbeat_response ''A'' msg = Ok None" for q
    by (simp_all add: requested_resend_def heartbeat_response_def)
  have quiet: "s_phase s = LogonSent" "s_test_request s = None" using assms(1) by (simp_all add: in_tune_def)
  have "commit_expected E msg w s = (s\<lparr>s_store := st, s_tick := Suc (s_tick s), s_next_in := 2, s_next_event := e,
      s_log := s_log s @ [Info ''Received logon response''], s_phase := Established,
      s_events := s_events s @ [PhaseChanged Established]\<rparr>, Ok ())"
    unfolding commit_expected_def
    by (simp add: sbind_apply facts s(1-4) quiet guards heart after ok_or_def parse_one [simplified] st(1) [unfolded ic_def]
        advance_next_event_def after_commit_def set_phase_def send_event_def log_out_def e(2) [folded s(5)])
  with assms(1,2) st l' show ?thesis by (simp add: runs_def in_tune_def lg_next_out_def)
qed

end

context reliable_store
begin

lemma spawn_logs_on:
  assumes "inv st" "ready st" "view st = l" "admin_fresh rival (ledger_of l)" "\<And>fp. rival fp"
    and "validate_custom_logon_fields lf = Ok ()" "encode_message (as_bytes (sc_begin_string cfg)) [Field 35 []] = Ok w0"
    and "Suc (Suc (unat (lg_next_event l))) < 2 ^ 64" "sc_reset_on_logon cfg \<or> has_room l"
    and "\<And>n. e_write E n = None" "e_recover E st = Ok recovery"
  obtains s w n where "spawn_initiator E cfg lf st = (s, Running)" "logged_on cfg lf LogonSent l s w n"
proof -
  let ?s0 = "new_actor E cfg lf st recovery"
  have "in_tune cfg lf Connecting [] ?s0" "view (s_store ?s0) = l"
    using assms(1-3) recovered [OF assms(1,11)] by (simp_all add: in_tune_def new_actor_def)
  from runs_send_logon [OF this assms(4-10)] obtain s1 u w n where
    s1: "send_logon E ?s0 = (s1, Ok u)" "logged_on cfg lf Connecting l s1 w n"
    unfolding runs_def by blast
  let ?s = "s1\<lparr>s_phase := LogonSent, s_events := s_events s1 @ [PhaseChanged LogonSent]\<rparr>"
  show thesis
  proof (rule that [of ?s w n])
    show "spawn_initiator E cfg lf st = (?s, Running)"
      using s1(1) by (simp add: spawn_initiator_def assms(11) conclude_def sbind_apply set_phase_def send_event_def)
    show "logged_on cfg lf LogonSent l ?s w n" using s1(2) by (simp add: logged_on_def in_tune_def)
  qed
qed

lemma handle_answer:
  assumes "in_tune cfg lf LogonSent wires s" "lg_next_in (view (s_store s)) = 1" "event_room (view (s_store s))"
    and "encode_message (as_bytes (sc_begin_string cfg)) (logon_answer cfg now) = Ok w" "length w \<le> 1024 * 1024"
    and "proper_config cfg lf" "plain now"
  shows "runs (handle_inbound E w) s (\<lambda>_ s'. in_tune cfg lf Established wires s'
    \<and> lg_next_in (view (s_store s')) = 2 \<and> lg_out (view (s_store s')) = lg_out (view (s_store s)))"
proof -
  obtain c where parsed: "parse_inbound cfg lf w = Ok \<lparr>pm_begin_string = as_bytes (sc_begin_string cfg),
      pm_fields = logon_answer cfg now, pm_checksum = c\<rparr>" (is "_ = Ok ?msg")
    using answer_parses [OF assms(4-7)] .
  have seq: "required_u64 ?msg 34 = Ok 1" using required_one by (simp add: logon_answer_def)
  let ?s = "s\<lparr>s_tick := Suc (s_tick s), s_last_inbound := e_now E (s_tick s)\<rparr>"
  have "in_tune cfg lf LogonSent wires ?s" using assms(1) by (simp add: in_tune_def)
  from runs_commit_answer [OF this refl, of "?msg" "as_bytes (sc_begin_string cfg)" now c w] assms(2,3) obtain s1 u where
    s1: "commit_expected E ?msg w ?s = (s1, Ok u)" "in_tune cfg lf Established wires s1"
      "lg_next_in (view (s_store s1)) = 2" "lg_out (view (s_store s1)) = lg_out (view (s_store s))"
    unfolding runs_def by auto
  have "drain E s1 = (s1, Ok ())"
    using s1(2) by (subst drain_idle) (simp_all add: in_tune_def retain_pending_def)
  moreover have "s_phase s1 = Established" "s_next_in s = 1" "s_config s = cfg" "s_logon_fields s = lf"
    using s1(2) assms(1,2) by (simp_all add: in_tune_def)
  ultimately have "handle_inbound E w s = (s1, Ok ())"
    using s1(1) unfolding handle_inbound_def commit_and_drain_def
    by (simp add: sbind_apply parse_inbound_act_def parsed instant_now_def tick_def seq)
  with s1 show ?thesis by (simp add: runs_def)
qed

lemma answer_establishes:
  assumes "in_tune cfg lf LogonSent wires s" "lg_next_in (view (s_store s)) = 1" "event_room (view (s_store s))"
    and "encode_message (as_bytes (sc_begin_string cfg)) (logon_answer cfg now) = Ok w" "length w \<le> 1024 * 1024"
    and "proper_config cfg lf" "plain now"
  obtains s' where "actor_step E (ReadBytes w) s = (s', Running)" "in_tune cfg lf Established wires s'"
    "lg_next_in (view (s_store s')) = 2" "lg_out (view (s_store s')) = lg_out (view (s_store s))"
proof -
  have "ingest (new_decoder (1024 * 1024)) w = (new_decoder (1024 * 1024), Ok [w])"
    by (rule encoded_frame [OF assms(4,5)]) (simp add: usize_max_def)
  moreover have "s_decoder s = new_decoder (1024 * 1024)" using assms(1) by (simp add: in_tune_def)
  ultimately have decode: "decode_input w s = (s, Ok [w])" by (simp add: decode_input_def)
  let ?s = "s\<lparr>s_log := s_log s @ [Incoming w]\<rparr>"
  have "in_tune cfg lf LogonSent wires ?s" using assms(1) by (simp add: in_tune_def)
  from handle_answer [OF this _ _ assms(4-7)] assms(2,3) obtain s1 u where
    s1: "handle_inbound E w ?s = (s1, Ok u)" "in_tune cfg lf Established wires s1"
      "lg_next_in (view (s_store s1)) = 2" "lg_out (view (s_store s1)) = lg_out (view (s_store s))"
    unfolding runs_def by auto
  have "actor_step E (ReadBytes w) s = (s1, Running)"
    by (simp add: actor_step_def conclude_def sbind_apply decode smap_def log_out_def s1(1))
  with s1 that show thesis by blast
qed

end

section \<open>The acceptor answers\<close>

lemma logon_values:
  "values_of \<lparr>pm_begin_string = b, pm_fields = logon_message cfg lf now, pm_checksum = c\<rparr> 35 = as_bytes ''A'' # tl (values_of \<lparr>pm_begin_string = b, pm_fields = logon_message cfg lf now, pm_checksum = c\<rparr> 35)"
  by (simp add: values_of_def logon_message_def logon_header_def)

lemma first_reset:
  assumes "proper_config cfg lf"
  shows "first_value \<lparr>pm_begin_string = b, pm_fields = logon_message cfg lf now, pm_checksum = c\<rparr> 141
    = (if sc_reset_on_logon cfg then Some (as_bytes ''Y'') else None)"
proof -
  have "filter (\<lambda>f. field_tag f = 141) lf = []"
    using assms by (auto simp: proper_config_def filter_empty_conv)
  then show ?thesis by (simp add: first_value_def values_of_def logon_message_def logon_header_def logon_body_def)
qed

lemma acceptor_answers:
  assumes "encode_message (as_bytes (sc_begin_string cfg)) (logon_message cfg lf now) = Ok w" "length w \<le> 1024 * 1024"
    and "proper_config cfg lf" "plain now" "\<And>n. me_write M n = None"
  obtains m n w' where "mock_step M (MockRead w) (new_mock M (acceptor_of cfg)) = (m, MockRunning)" "m_wire m = [w']"
    "encode_message (as_bytes (sc_begin_string cfg)) (logon_answer cfg (me_time M n)) = Ok w'" "m_established m"
    "m_next_in m = 2" "m_next_out m = 2"
proof -
  have size: "length w \<le> usize_max" using assms(2) by (simp add: usize_max_def)
  from parse_encode [OF assms(1) size logon_message_values [OF assms(3,4)]] obtain c where
    parsed: "parse_frame w = Ok \<lparr>pm_begin_string = as_bytes (sc_begin_string cfg), pm_fields = logon_message cfg lf now, pm_checksum = c\<rparr>"
      (is "_ = Ok ?msg") by blast
  have decoded: "ingest (new_decoder (1024 * 1024)) w = (new_decoder (1024 * 1024), Ok [w])"
    by (rule encoded_frame [OF assms(1,2)]) (simp add: usize_max_def)
  have required: "mock_required ?msg 35 = Ok (as_bytes ''A'')" "mock_required ?msg 49 = Ok (as_bytes (sc_sender_comp_id cfg))"
    "mock_required ?msg 56 = Ok (as_bytes (sc_target_comp_id cfg))" "mock_required ?msg 34 = Ok (as_bytes ''1'')"
    by (simp_all add: mock_required_def values_of_def logon_message_def logon_header_def)
  have "mock_parse_u64 (as_bytes ''1'') 34 = Ok 1" by (simp add: mock_parse_u64_def ok_or_def parse_one [simplified])
  then have envelope: "mock_validate_envelope ?msg (acceptor_of cfg) 1 = Ok ()"
    using required by (simp add: mock_validate_envelope_def acceptor_of_def)
  obtain w0 where w0: "encode_message (as_bytes (sc_begin_string cfg)) [Field 35 []] = Ok w0"
    using assms(3) by (auto simp: proper_config_def)
  let ?n = 1
  obtain w' where w': "encode_message (as_bytes (sc_begin_string cfg)) (logon_answer cfg (me_time M ?n)) = Ok w'"
    using encode_like [OF w0 logon_first(2) logon_answer_encodable] by blast
  let ?m0 = "new_mock M (acceptor_of cfg)"
  let ?m1 = "?m0\<lparr>m_log := [Incoming w], m_next_in := 2\<rparr>"
  have ingest: "mock_ingest w ?m0 = (?m0, Ok [w])"
    using decoded by (simp add: mock_ingest_def new_mock_def)
  let ?m2 = "?m1\<lparr>m_log := [Incoming w, Info ''Received logon request'', Info ''Responding to logon request''],
      m_established := True, m_tick := 2\<rparr>"
  have one: "dec64 1 = ''1''" by (simp add: dec64_def dec_small)
  have answer: "respond_logon M ?msg ?m1 = (?m2, Ok (logon_answer cfg (me_time M ?n)))"
    by (simp add: respond_logon_def mock_logon_fields_def mock_header_def mock_tick_def mock_log_def sbind_apply new_mock_def
        first_reset [OF assms(3)] logon_answer_def logon_header_def acceptor_of_def one)
  let ?m3 = "?m2\<lparr>m_log := m_log ?m2 @ [Outgoing w'], m_wire := [w'], m_tick := 5, m_next_out := 2, m_last_outbound := me_now M 4\<rparr>"
  have sent: "send_response M (logon_answer cfg (me_time M ?n)) ?m2 = (?m3, Ok ())"
    using w' by (simp add: send_response_def write_message_def mock_write_call_def mock_tick_def mock_log_def sbind_apply
        new_mock_def acceptor_of_def checked_next_def assms(5))
  have "mock_frame M w ?m0 = (?m3, Ok True)"
    using envelope required(1)
    by (simp add: mock_frame_def mock_message_def mock_check_def mock_log_def sbind_apply parsed new_mock_def checked_next_def)
      (use answer sent in \<open>simp add: new_mock_def\<close>)
  then have "mock_step M (MockRead w) ?m0 = (?m3, MockRunning)"
    by (simp add: mock_step_def sbind_apply ingest)
  with w' that show thesis by simp
qed

section \<open>Properties\<close>

lemma worker_recovers:
  assumes "worker_wf w" "w_alive w"
  obtains recovery where "e_recover (redb_env be no_faults time now out) w = Ok recovery"
proof -
  obtain ni ne no where "db_meta (w_store w) ''next_out'' = Some no" "db_meta (w_store w) ''next_in'' = Some ni"
      "db_meta (w_store w) ''next_event'' = Some ne"
    using assms(1) unfolding worker_wf_def db_wf_def by blast
  with assms(2) that show thesis
    by (simp add: redb_env_def handle_recover_def recover_def get_meta_def)
qed

lemma everyone: "anyone fp"
  by (simp add: anyone_def)

text \<open>C6: the journal survives the session. Whatever ended a session, end of stream, an error, a fault of the store
  or a crash in the middle of an operation, the journal it leaves is well formed and none of the request IDs the
  next actor can generate is taken; so a new worker over it, with a configuration the code accepts and a store and
  a socket that work, starts the next session: it runs, has sent exactly one frame, the Logon with the journal's
  next number (one, if it is configured to reset), and goes on from the inbound number the last session
  reached. Assumed of the past: the clients stayed out of the namespace \<open>session:\<close> of the actor's own IDs. The
  code does not check this, and a client that submits a command as \<open>session:logon:N:E\<close> keeps that Logon from being
  committed. Assumed of the future: the begin string is one the encoder accepts, the custom Logon fields are valid,
  and the two counters have room below \<open>2 ^ 64\<close>.\<close>

theorem journal_survives_session:
  assumes "reachable (redb_env be rf time now out) (\<lambda>_. outside_namespace) cfg lf w s r"
    and "worker_wf w" "admin_fresh anyone (worker_ledger w)"
    and "w2 = spawn_worker (w_store (s_store s))"
    and "validate_custom_logon_fields lf2 = Ok ()"
    and "encode_message (as_bytes (sc_begin_string cfg2)) [Field 35 []] = Ok v"
    and "Suc (Suc (unat (lg_next_event (worker_log w2)))) < 2 ^ 64"
    and "sc_reset_on_logon cfg2 \<or> has_room (worker_log w2)"
  shows "worker_wf w2 \<and> admin_fresh anyone (worker_ledger w2) \<and> worker_log w2 = worker_log (s_store s)
    \<and> (\<exists>s2 logon n. spawn_initiator (redb_env (\<lambda>_. no_faults) no_faults time2 now2 (\<lambda>_. None)) cfg2 lf2 w2 = (s2, Running)
        \<and> s_phase s2 = LogonSent \<and> s_wire s2 = [logon]
        \<and> encode_message (as_bytes (sc_begin_string cfg2)) (logon_at cfg2 lf2 (logon_number cfg2 (worker_log w2)) (time2 n)) = Ok logon
        \<and> s_next_in s2 = (if sc_reset_on_logon cfg2 then 1 else lg_next_in (worker_log w2)))"
proof -
  let ?E = "redb_env (\<lambda>_. no_faults) no_faults time2 now2 (\<lambda>_. None)"
  have same: "worker_log w2 = worker_log (s_store s)" "w_alive w2"
    using assms(4) by (simp_all add: worker_log_def spawn_worker_def)
  have "worker_wf (s_store s) \<and> admin_fresh anyone (worker_ledger (s_store s))"
    using session_reachable(1) [OF assms(1-3)]
    by (auto simp: session.based_def session.strayed_def session.books_def worker_ledger_def)
  then have wf: "worker_wf w2" "admin_fresh anyone (worker_ledger w2)"
    using assms(4) same(1) by (simp_all add: worker_wf_def worker_ledger_def spawn_worker_def)
  obtain recovery where recovery: "e_recover ?E w2 = Ok recovery" using worker_recovers [OF wf(1) same(2)] by blast
  have written: "e_write ?E n = None" "e_time ?E = time2" for n by (simp_all add: redb_env_def)
  from reliable.spawn_logs_on [OF wf(1) same(2) refl wf(2) [unfolded worker_ledger_def] everyone assms(5-8) written(1) recovery]
  obtain s2 logon n where "spawn_initiator ?E cfg2 lf2 w2 = (s2, Running)"
      "reliable.logged_on no_faults time2 now2 (\<lambda>_. None) cfg2 lf2 LogonSent (worker_log w2) s2 logon n" by metis
  then show ?thesis
    using wf same(1) written(2) by (auto simp: reliable.logged_on_def reliable.in_tune_def)
qed

lemma demo_proper: "proper_config demo_config demo_logon"
  by (simp add: proper_config_def demo_config_def demo_logon_def plain_def fix_eval cong: fix_cong)

lemma demo_logon_encodes: "\<exists>v. encode_message (as_bytes (sc_begin_string demo_config)) [Field 35 []] = Ok v"
  using demo_proper by (simp add: proper_config_def)

theorem journal_survives_session_witness:
  "\<exists>s2 logon. spawn_initiator demo_env demo_config demo_logon (spawn_worker (w_store (s_store (fst demo_start)))) = (s2, Running)
    \<and> s_wire s2 = [logon]"
proof -
  let ?w = "spawn_worker (w_store (s_store (fst demo_start)))"
  obtain v where v: "encode_message (as_bytes (sc_begin_string demo_config)) [Field 35 []] = Ok v"
    using demo_logon_encodes by blast
  have "Suc (Suc (unat (lg_next_event (worker_log ?w)))) < 2 ^ 64" "has_room (worker_log ?w)"
    by (simp_all add: demo_start_def demo_eval worker_log_def log_of_def spawn_worker_def has_room_def fix_eval cong: fix_cong)
  then show ?thesis
    using journal_survives_session [OF demo_reachable [unfolded demo_env_def] fresh_worker refl _ v, of demo_logon
        "\<lambda>_. ''t''" "\<lambda>_. 0"] demo_proper
    unfolding proper_config_def demo_env_def by blast
qed

text \<open>C22: the two ends log on. The initiator, started over a working journal that is fresh or about to be reset,
  sends one Logon; the acceptor of the matching configuration accepts it and answers; the answer
  establishes the session, and both ends agree on the next numbers in both directions. Conditions: identities and
  clock texts hold no delimiter, the custom Logon fields are valid and have no tag 141, the frames
  fit the decoders' buffers, no write fails, none of the request IDs the actor generates is taken, and the event
  counter has room below \<open>2 ^ 64\<close>.\<close>

theorem handshake_establishes:
  assumes "proper_config cfg lf" "\<forall>n. plain (time n) \<and> plain (me_time M n)" "fitting cfg lf time (me_time M)"
    and "\<forall>n. me_write M n = None" "worker_wf w" "w_alive w" "admin_fresh anyone (worker_ledger w)"
    and "Suc (Suc (unat (lg_next_event (worker_log w)))) < 2 ^ 64"
    and "sc_reset_on_logon cfg \<or> lg_out (worker_log w) = [] \<and> lg_next_in (worker_log w) = 1"
    and "E = redb_env (\<lambda>_. no_faults) no_faults time now (\<lambda>_. None)"
  shows "\<exists>s logon m answer s'. spawn_initiator E cfg lf w = (s, Running) \<and> s_wire s = [logon]
    \<and> mock_step M (MockRead logon) (new_mock M (acceptor_of cfg)) = (m, MockRunning)
    \<and> m_established m \<and> m_wire m = [answer]
    \<and> actor_step E (ReadBytes answer) s = (s', Running) \<and> s_phase s' = Established
    \<and> s_next_out s' = m_next_in m \<and> s_next_in s' = m_next_out m"
proof -
  have env: "e_time E = time" "\<And>n. e_write E n = None" using assms(10) by (simp_all add: redb_env_def)
  obtain recovery where recovery: "e_recover E w = Ok recovery"
    using worker_recovers [OF assms(5,6)] assms(10) by metis
  have ledger: "admin_fresh anyone (ledger_of (worker_log w))" using assms(7) by (simp add: worker_ledger_def)
  obtain v where valid: "validate_custom_logon_fields lf = Ok ()" "encode_message (as_bytes (sc_begin_string cfg)) [Field 35 []] = Ok v"
    using assms(1) by (auto simp: proper_config_def)
  have room: "sc_reset_on_logon cfg \<or> has_room (worker_log w)" using assms(9) by (auto simp: has_room_def)
  have one: "logon_number cfg (worker_log w) = 1" using assms(9) by (auto simp: logon_number_def lg_next_out_def)
  from reliable.spawn_logs_on [OF assms(5,6) refl ledger everyone valid assms(8) room _ recovery [unfolded assms(10)]] env(2) assms(10)
  obtain s logon n where "spawn_initiator E cfg lf w = (s, Running)"
      "reliable.logged_on no_faults time now (\<lambda>_. None) cfg lf LogonSent (worker_log w) s logon n"
    by metis
  then have s: "spawn_initiator E cfg lf w = (s, Running)" "reliable.in_tune cfg lf LogonSent [logon] s"
      "lg_next_in (worker_log (s_store s)) = 1" "event_room (worker_log (s_store s))" "length (lg_out (worker_log (s_store s))) = 1"
      "encode_message (as_bytes (sc_begin_string cfg)) (logon_message cfg lf (time n)) = Ok logon"
    using assms(9,10) env(1) one logon_at_one by (auto simp: reliable.logged_on_def split: if_splits)
  have "length logon \<le> 1024 * 1024" using s(6) assms(3) by (auto simp: fitting_def)
  moreover have "plain (time n)" using assms(2) by blast
  ultimately obtain m k answer where m: "mock_step M (MockRead logon) (new_mock M (acceptor_of cfg)) = (m, MockRunning)"
      "m_wire m = [answer]" "encode_message (as_bytes (sc_begin_string cfg)) (logon_answer cfg (me_time M k)) = Ok answer"
      "m_established m" "m_next_in m = 2" "m_next_out m = 2"
    using acceptor_answers [OF s(6) _ assms(1)] assms(4) by metis
  have "length answer \<le> 1024 * 1024" using m(3) assms(3) by (auto simp: fitting_def)
  then obtain s' where s': "actor_step E (ReadBytes answer) s = (s', Running)" "reliable.in_tune cfg lf Established [logon] s'"
      "lg_next_in (worker_log (s_store s')) = 2" "lg_out (worker_log (s_store s')) = lg_out (worker_log (s_store s))"
    using reliable.answer_establishes [OF s(2,3,4) m(3) _ assms(1)] assms(2,10) by metis
  moreover have "s_next_in s' = 2" "s_next_out s' = 2" "s_phase s' = Established"
    using s'(2-4) s(5) by (simp_all add: reliable.in_tune_def lg_next_out_def)
  moreover have "s_wire s = [logon]" using s(2) by (simp add: reliable.in_tune_def)
  ultimately show ?thesis using s(1) m by metis
qed

lemma demo_fitting: "fitting demo_config demo_logon (\<lambda>_. ''t'') (\<lambda>_. ''t'')"
  unfolding fitting_def
  by (simp add: demo_config_def demo_logon_def logon_message_def logon_answer_def logon_header_def logon_body_def fix_eval cong: fix_cong) auto

lemma fresh_log:
  "lg_out (worker_log (spawn_worker fresh_journal)) = []" "lg_next_in (worker_log (spawn_worker fresh_journal)) = 1"
  "lg_next_event (worker_log (spawn_worker fresh_journal)) = 1"
  by (simp_all add: worker_log_def spawn_worker_def log_of_def fresh_journal_def fix_eval cong: fix_cong)

theorem handshake_establishes_witness:
  "\<exists>s logon m answer s'. spawn_initiator demo_env demo_config demo_logon (spawn_worker fresh_journal) = (s, Running)
    \<and> s_wire s = [logon] \<and> mock_step demo_mock_env (MockRead logon) (new_mock demo_mock_env (acceptor_of demo_config)) = (m, MockRunning)
    \<and> m_wire m = [answer] \<and> actor_step demo_env (ReadBytes answer) s = (s', Running) \<and> s_phase s' = Established"
proof -
  have "\<forall>n. plain ''t'' \<and> plain (me_time demo_mock_env n)" "\<forall>n. me_write demo_mock_env n = None"
      "me_time demo_mock_env = (\<lambda>_. ''t'')" "w_alive (spawn_worker fresh_journal)"
    by (simp_all add: demo_mock_env_def plain_def spawn_worker_def)
  then show ?thesis
    using handshake_establishes [OF demo_proper, of "\<lambda>_. ''t''" demo_mock_env "spawn_worker fresh_journal" demo_env "\<lambda>_. 0"]
      demo_fitting fresh_worker fresh_log by (auto simp: demo_env_def)
qed

end
