(* ===== verification/Fix_Fuzz.thy ===== *)
theory Fix_Fuzz
  imports Fix_Codec
begin

text \<open>
  The deterministic campaign of \<open>crates/fix-fuzz/src/lib.rs\<close>: its generator, the input of a case, the
  loop that feeds the decoder, and the statistics. The counters are \<open>usize\<close>, checked as in the dev profile.
\<close>

section \<open>The generator\<close>

record fuzz_config =
  fc_seed :: u64
  fc_cases :: nat
  fc_max_input_bytes :: nat

record fuzz_stats =
  fs_cases :: nat
  fs_framed :: nat
  fs_parsed :: nat
  fs_rejected :: nat

type_synonym 'a fuzz = "(unit, 'a) result"

definition xorshift_next :: "u64 \<Rightarrow> u64" where
  "xorshift_next v0 =
     (let v1 = xor v0 (push_bit 13 v0);
          v2 = xor v1 (drop_bit 7 v1)
      in xor v2 (push_bit 17 v2))"

text \<open>The remainder by zero panics.\<close>

definition random_range :: "u64 \<Rightarrow> nat \<Rightarrow> (u64 \<times> nat) fuzz" where
  "random_range r upper =
     (if upper = 0 then Panic else let r' = xorshift_next r in Ok (r', unat r' mod upper))"

section \<open>The input of a case\<close>

definition corpus :: "bytes list" where
  "corpus =
     [as_bytes ''8=FIX.4.2'' @ [1] @ as_bytes ''9=5'' @ [1] @ as_bytes ''35=0'' @ [1] @ as_bytes ''10=161'' @ [1],
      as_bytes ''8=FIX.4.4'' @ [1] @ as_bytes ''9=17'' @ [1] @ as_bytes ''35=A'' @ [1] @ as_bytes ''95=3'' @ [1]
        @ as_bytes ''96=A'' @ [1] @ as_bytes ''B'' @ [1] @ as_bytes ''10=247'' @ [1]]"

fun random_bytes :: "u64 \<Rightarrow> nat \<Rightarrow> u64 \<times> bytes" where
  "random_bytes r 0 = (r, [])"
| "random_bytes r (Suc n) =
     (let r' = xorshift_next r in case random_bytes r' n of (r'', bs) \<Rightarrow> (r'', ucast r' # bs))"

definition base_input :: "fuzz_config \<Rightarrow> nat \<Rightarrow> u64 \<Rightarrow> (u64 \<times> bytes) fuzz" where
  "base_input cfg case_index r =
     (if case_index mod 3 = 0
      then bindR (random_range r (length corpus)) (\<lambda>(r', i). bindR (index corpus i) (\<lambda>input. Ok (r', input)))
      else bindR (random_range r (max (fc_max_input_bytes cfg) 1)) (\<lambda>(r', n). Ok (random_bytes r' n)))"

text \<open>One flipped bit; then the loop over the mutations of a case.\<close>

definition flip_bit_at :: "bytes \<Rightarrow> u64 \<Rightarrow> (u64 \<times> bytes) fuzz" where
  "flip_bit_at input r =
     bindR (random_range r (length input)) (\<lambda>(r1, i).
     bindR (random_range r1 8) (\<lambda>(r2, bit_index).
     bindR (index input i) (\<lambda>b. Ok (r2, input[i := xor b (push_bit bit_index 1)]))))"

fun mutate :: "nat \<Rightarrow> bytes \<Rightarrow> u64 \<Rightarrow> (u64 \<times> bytes) fuzz" where
  "mutate 0 input r = Ok (r, input)"
| "mutate (Suc n) input r = bindR (flip_bit_at input r) (\<lambda>(r', input'). mutate n input' r')"

definition case_input :: "fuzz_config \<Rightarrow> nat \<Rightarrow> u64 \<Rightarrow> (u64 \<times> bytes) fuzz" where
  "case_input cfg case_index r =
     bindR (base_input cfg case_index r) (\<lambda>(r1, input).
     if input \<noteq> [] \<and> case_index mod 7 \<noteq> 0
     then bindR (random_range r1 8) (\<lambda>(r2, n). mutate (1 + n) input r2)
     else Ok (r1, input))"

section \<open>Feeding the decoder\<close>

definition add_count :: "nat \<Rightarrow> nat \<Rightarrow> nat fuzz" where
  "add_count a b = (if usize_max < a + b then Panic else Ok (a + b))"

text \<open>The loop over the frames of a chunk.\<close>

fun parse_frames :: "bytes list \<Rightarrow> fuzz_stats \<Rightarrow> bool \<Rightarrow> (fuzz_stats \<times> bool) fuzz" where
  "parse_frames [] stats rejected = Ok (stats, rejected)"
| "parse_frames (frame # frames) stats rejected = (case parse_frame frame of
     Ok _ \<Rightarrow> bindR (add_count (fs_parsed stats) 1) (\<lambda>n. parse_frames frames (stats\<lparr>fs_parsed := n\<rparr>) rejected)
   | Err _ \<Rightarrow> parse_frames frames stats True
   | Panic \<Rightarrow> Panic)"

text \<open>The loop \<open>while cursor < input.len()\<close>; the input is what is left of it from the cursor on.\<close>

function feed :: "frame_decoder \<Rightarrow> bytes \<Rightarrow> u64 \<Rightarrow> fuzz_stats \<Rightarrow> bool \<Rightarrow> (u64 \<times> fuzz_stats \<times> bool) fuzz" where
  "feed d input r stats rejected =
     (if input = [] then Ok (r, stats, rejected)
      else case random_range r 31 of
        Ok (r', k) \<Rightarrow>
          (case ingest d (take (1 + k) input) of
             (d', Ok frames) \<Rightarrow>
               (case bindR (add_count (fs_framed stats) (length frames)) (\<lambda>n.
                   parse_frames frames (stats\<lparr>fs_framed := n\<rparr>) rejected) of
                  Ok (stats', rejected') \<Rightarrow> feed d' (drop (1 + k) input) r' stats' rejected'
                | Err e \<Rightarrow> Err e
                | Panic \<Rightarrow> Panic)
           | (d', Err _) \<Rightarrow> Ok (r', stats, True)
           | (d', Panic) \<Rightarrow> Panic)
      | Err e \<Rightarrow> Err e
      | Panic \<Rightarrow> Panic)"
  by pat_completeness auto
termination by (relation "measure (\<lambda>(d, input, r, stats, rejected). length input)") auto

declare feed.simps [simp del]

section \<open>The campaign\<close>

definition run_case :: "fuzz_config \<Rightarrow> nat \<Rightarrow> u64 \<Rightarrow> fuzz_stats \<Rightarrow> (u64 \<times> fuzz_stats) fuzz" where
  "run_case cfg case_index r stats =
     bindR (case_input cfg case_index r) (\<lambda>(r1, input).
     bindR (feed (new_decoder (max (fc_max_input_bytes cfg) 64)) input r1 stats False) (\<lambda>(r2, stats1, rejected).
     bindR (if rejected then add_count (fs_rejected stats1) 1 else Ok (fs_rejected stats1)) (\<lambda>n.
     bindR (add_count (fs_cases stats1) 1) (\<lambda>m. Ok (r2, stats1\<lparr>fs_rejected := n, fs_cases := m\<rparr>)))))"

fun run_cases :: "fuzz_config \<Rightarrow> nat list \<Rightarrow> u64 \<Rightarrow> fuzz_stats \<Rightarrow> fuzz_stats fuzz" where
  "run_cases cfg [] r stats = Ok stats"
| "run_cases cfg (i # rest) r stats = bindR (run_case cfg i r stats) (\<lambda>(r', stats'). run_cases cfg rest r' stats')"

definition run_campaign :: "fuzz_config \<Rightarrow> fuzz_stats fuzz" where
  "run_campaign cfg = run_cases cfg [0..<fc_cases cfg] (max (fc_seed cfg) 1)
     \<lparr>fs_cases = 0, fs_framed = 0, fs_parsed = 0, fs_rejected = 0\<rparr>"

text \<open>The command line of \<open>crates/fix-fuzz/src/main.rs\<close>.\<close>

definition default_config :: fuzz_config where
  "default_config = \<lparr>fc_seed = 0x3c6ef372fe94f82b, fc_cases = 100000, fc_max_input_bytes = 64 * 1024\<rparr>"

definition set_argument :: "string \<Rightarrow> string \<Rightarrow> fuzz_config \<Rightarrow> (string, fuzz_config) result" where
  "set_argument argument v cfg =
     (if argument = ''--seed'' then
        bindR (ok_or ''--seed must be a u64'' (parse_u64 v)) (\<lambda>n. Ok (cfg\<lparr>fc_seed := n\<rparr>))
      else if argument = ''--cases'' then
        bindR (ok_or ''--cases must be an integer'' (parse_u64 v)) (\<lambda>n. Ok (cfg\<lparr>fc_cases := unat n\<rparr>))
      else if argument = ''--max-input-bytes'' then
        bindR (ok_or ''--max-input-bytes must be an integer'' (parse_u64 v)) (\<lambda>n. Ok (cfg\<lparr>fc_max_input_bytes := unat n\<rparr>))
      else Err (''unknown argument '' @ argument))"

fun parse_arguments :: "string list \<Rightarrow> fuzz_config \<Rightarrow> (string, fuzz_config) result" where
  "parse_arguments [] cfg = Ok cfg"
| "parse_arguments [argument] cfg = Err (argument @ '' requires a value'')"
| "parse_arguments (argument # v # rest) cfg = bindR (set_argument argument v cfg) (parse_arguments rest)"

lemmas [fix_eval] = xorshift_next_def random_range_def corpus_def base_input_def flip_bit_at_def case_input_def add_count_def
  run_case_def run_campaign_def

section \<open>The generator never gets stuck\<close>

lemma xor_push_zero:
  assumes "xor x (push_bit k x) = (0 :: 'a::len word)" "0 < k"
  shows "x = 0"
proof (rule bit_eqI)
  fix n
  have "\<not> bit x n"
  proof (induction n rule: less_induct)
    case (less n)
    have "bit (xor x (push_bit k x)) n \<longleftrightarrow> False" using assms(1) by simp
    with less assms(2) show ?case
      by (cases "k \<le> n") (auto simp: bit_simps dest: bit_imp_le_length)
  qed
  then show "bit x n = bit 0 n" by simp
qed

lemma xor_drop_zero:
  assumes "xor x (drop_bit k x) = (0 :: 'a::len word)" "0 < k"
  shows "x = 0"
proof (rule bit_eqI)
  fix n
  have "\<not> bit x (LENGTH('a) - m)" if "m \<le> LENGTH('a)" for m
    using that
  proof (induction m rule: less_induct)
    case (less m)
    have "bit (xor x (drop_bit k x)) (LENGTH('a) - m) \<longleftrightarrow> False" using assms(1) by simp
    moreover have "\<not> bit x (k + (LENGTH('a) - m))"
    proof (cases "k \<le> m")
      case True
      with less.IH [of "m - k"] less.prems assms(2) show ?thesis by (simp add: add.commute)
    qed (use less.prems in \<open>auto dest: bit_imp_le_length\<close>)
    ultimately show ?case by (simp add: bit_simps)
  qed
  from this [of "LENGTH('a) - n"] have "\<not> bit x n"
    by (cases "n < LENGTH('a)") (auto dest: bit_imp_le_length)
  then show "bit x n = bit 0 n" by simp
qed

lemma xorshift_nonzero: "v \<noteq> 0 \<Longrightarrow> xorshift_next v \<noteq> 0"
  unfolding xorshift_next_def Let_def using xor_push_zero [of 17] xor_drop_zero [of 7] xor_push_zero [of 13]
  by (metis zero_less_numeral xor_push_zero xor_drop_zero)

section \<open>What a case counts\<close>

definition in_bounds :: "nat \<Rightarrow> fuzz_stats \<Rightarrow> bool" where
  "in_bounds n stats \<longleftrightarrow> fs_parsed stats \<le> fs_framed stats \<and> fs_framed stats \<le> n"

lemma random_range_Ok [simp]:
  "0 < upper \<Longrightarrow> random_range r upper = Ok (xorshift_next r, unat (xorshift_next r) mod upper)"
  by (simp add: random_range_def Let_def)

lemma ingest_no_panic: "snd (ingest d chunk) \<noteq> Panic"
  using take_frames_no_panic [of "fd_buffer d @ chunk" "fd_max_body_length d"]
  by (cases "take_frames (fd_buffer d @ chunk) (fd_max_body_length d)")
    (auto simp: ingest_def bindR_eqs checked_add_usize_def)

lemma ingest_count:
  assumes "ingest d chunk = (d', Ok fs)"
  shows "length fs + length (fd_buffer d') \<le> length (fd_buffer d) + length chunk"
proof -
  obtain rest r where t: "take_frames (fd_buffer d @ chunk) (fd_max_body_length d) = (rest, r)" by fastforce
  with assms have r: "r = Ok fs" "fd_buffer d' = rest"
    by (auto simp: ingest_def checked_add_usize_def bindR_eqs split: if_splits)
  with take_frames_sound [of "fd_buffer d @ chunk" "fd_max_body_length d" rest fs] t
  have all: "concat fs @ rest = fd_buffer d @ chunk" "list_all (wf_frame (fd_max_body_length d)) fs" by auto
  have "length fs \<le> length (concat fs)"
    using all(2)
  proof (induction fs)
    case (Cons f fs)
    then have "f \<noteq> []" by (auto dest: wf_frame_nonempty)
    with Cons show ?case by (cases f) auto
  qed simp
  moreover have "length (concat fs) + length rest = length (fd_buffer d) + length chunk"
    using arg_cong [OF all(1), of length] by simp
  ultimately show ?thesis using r by simp
qed

lemma parse_frames_bounds:
  assumes "fs_parsed stats + length frames \<le> fs_framed stats" "fs_framed stats \<le> usize_max"
  shows "\<exists>stats' rejected'. parse_frames frames stats rejected = Ok (stats', rejected')
    \<and> fs_parsed stats' \<le> fs_framed stats' \<and> fs_framed stats' = fs_framed stats
    \<and> fs_cases stats' = fs_cases stats \<and> fs_rejected stats' = fs_rejected stats"
  using assms
proof (induction frames arbitrary: stats rejected)
  case (Cons frame frames)
  show ?case
  proof (cases "parse_frame frame")
    case (Ok m)
    with Cons.prems have "add_count (fs_parsed stats) 1 = Ok (Suc (fs_parsed stats))" by (simp add: add_count_def)
    with Ok Cons.IH [of "stats\<lparr>fs_parsed := Suc (fs_parsed stats)\<rparr>" rejected] Cons.prems show ?thesis by simp
  next
    case (Err e)
    with Cons.IH [of stats True] Cons.prems show ?thesis by simp
  qed (simp add: parse_frame_no_panic)
qed simp

lemma feed_bounds:
  assumes "in_bounds n stats" "n + length (fd_buffer d) + length input \<le> usize_max"
  shows "\<exists>r' stats' rejected'. feed d input r stats rejected = Ok (r', stats', rejected')
    \<and> in_bounds (n + length (fd_buffer d) + length input) stats'
    \<and> fs_cases stats' = fs_cases stats \<and> fs_rejected stats' = fs_rejected stats"
  using assms
proof (induction d input r stats rejected arbitrary: n rule: feed.induct)
  case (1 d input r stats rejected)
  show ?case
  proof (cases "input = []")
    case True
    with 1 show ?thesis by (auto simp: feed.simps in_bounds_def)
  next
    case False
    let ?k = "unat (xorshift_next r) mod 31" and ?r = "xorshift_next r"
    obtain d' x where i: "ingest d (take (1 + ?k) input) = (d', x)" by fastforce
    show ?thesis
    proof (cases x)
      case (Ok frames)
      have count: "length frames + length (fd_buffer d') \<le> length (fd_buffer d) + length (take (1 + ?k) input)"
        using ingest_count i Ok by blast
      let ?s = "stats\<lparr>fs_framed := fs_framed stats + length frames\<rparr>"
      have room: "fs_framed stats + length frames \<le> usize_max"
        using count 1(2,3) by (auto simp: in_bounds_def min_def split: if_splits)
      have add: "add_count (fs_framed stats) (length frames) = Ok (fs_framed stats + length frames)"
        using room by (simp add: add_count_def)
      obtain s' rej' where p: "parse_frames frames ?s rejected = Ok (s', rej')" "fs_parsed s' \<le> fs_framed s'"
          "fs_framed s' = fs_framed stats + length frames" "fs_cases s' = fs_cases stats" "fs_rejected s' = fs_rejected stats"
        using parse_frames_bounds [of ?s frames rejected] room 1(2) by (auto simp: in_bounds_def)
      let ?n = "n + length frames"
      have total: "?n + length (fd_buffer d') + length (drop (1 + ?k) input) \<le> n + length (fd_buffer d) + length input"
        using count by simp
      have "in_bounds ?n s'" using p 1(2) by (auto simp: in_bounds_def)
      moreover have "?n + length (fd_buffer d') + length (drop (1 + ?k) input) \<le> usize_max"
        using total 1(3) by linarith
      ultimately obtain r' s'' rej'' where f: "feed d' (drop (1 + ?k) input) ?r s' rej' = Ok (r', s'', rej'')"
          "in_bounds (?n + length (fd_buffer d') + length (drop (1 + ?k) input)) s''"
          "fs_cases s'' = fs_cases s'" "fs_rejected s'' = fs_rejected s'"
        using 1(1) [OF False, of "(?r, ?k)" ?r ?k d' x frames "(s', rej')" s' rej' ?n] i Ok add p(1)
        by auto
      then have "feed d input r stats rejected = Ok (r', s'', rej'')"
        using False i Ok add p(1) by (subst feed.simps) simp
      with f p total show ?thesis by (auto simp: in_bounds_def)
    next
      case (Err e)
      with False i 1(2) show ?thesis by (subst feed.simps) (auto simp: in_bounds_def)
    next
      case Panic
      with i ingest_no_panic [of d "take (1 + ?k) input"] have False by simp
      then show ?thesis ..
    qed
  qed
qed

lemma random_bytes_length: "length (snd (random_bytes r n)) = n"
  by (induction n arbitrary: r) (auto simp: Let_def split: prod.splits dest: arg_cong [of _ _ "length \<circ> snd"])

lemma mutate_length:
  assumes "input \<noteq> []"
  shows "\<exists>r' input'. mutate n input r = Ok (r', input') \<and> length input' = length input"
  using assms
proof (induction n arbitrary: input r)
  case (Suc n)
  have "\<exists>r' input'. flip_bit_at input r = Ok (r', input') \<and> length input' = length input"
    using Suc.prems by (simp add: flip_bit_at_def index_def)
  then obtain r' input' where f: "flip_bit_at input r = Ok (r', input')" "length input' = length input" by blast
  with Suc.prems have "input' \<noteq> []" by auto
  from Suc.IH [OF this, of r'] f show ?case by auto
qed simp

lemma corpus_facts: "0 < length corpus" "\<forall>c \<in> set corpus. length c \<le> 64"
  by (simp_all add: corpus_def)

lemma case_input_length:
  "\<exists>r' input. case_input cfg i r = Ok (r', input) \<and> length input \<le> max (fc_max_input_bytes cfg) 64"
proof -
  have "\<exists>r' input. base_input cfg i r = Ok (r', input) \<and> length input \<le> max (fc_max_input_bytes cfg) 64"
  proof (cases "i mod 3 = 0")
    case True
    have "corpus ! (unat (xorshift_next r) mod length corpus) \<in> set corpus"
      by (rule nth_mem [OF mod_less_divisor [OF corpus_facts(1)]])
    then have "length (corpus ! (unat (xorshift_next r) mod length corpus)) \<le> 64" using corpus_facts(2) by blast
    moreover have "unat (xorshift_next r) mod length corpus < length corpus" by (rule mod_less_divisor [OF corpus_facts(1)])
    ultimately show ?thesis using True corpus_facts(1) by (simp add: base_input_def index_def)
  next
    case False
    let ?m = "max (fc_max_input_bytes cfg) 1"
    have "unat (xorshift_next r) mod ?m < ?m" by (rule mod_less_divisor) simp
    then have "unat (xorshift_next r) mod ?m \<le> max (fc_max_input_bytes cfg) 64" by linarith
    then have "length (snd (random_bytes (xorshift_next r) (unat (xorshift_next r) mod ?m))) \<le> max (fc_max_input_bytes cfg) 64"
      by (simp only: random_bytes_length)
    then show ?thesis using False by (cases "random_bytes (xorshift_next r) (unat (xorshift_next r) mod ?m)")
        (simp add: base_input_def)
  qed
  then obtain r1 input where b: "base_input cfg i r = Ok (r1, input)" "length input \<le> max (fc_max_input_bytes cfg) 64" by blast
  show ?thesis
  proof (cases "input \<noteq> [] \<and> i mod 7 \<noteq> 0")
    case True
    with b mutate_length [of input "1 + unat (xorshift_next r1) mod 8" "xorshift_next r1"] show ?thesis
      by (auto simp: case_input_def simp del: mutate.simps)
  qed (use b in \<open>auto simp: case_input_def\<close>)
qed

section \<open>Property\<close>

lemma run_case_bounds:
  assumes "in_bounds n stats" "n + max (fc_max_input_bytes cfg) 64 \<le> usize_max"
    and "fs_rejected stats \<le> fs_cases stats" "fs_cases stats < usize_max"
  shows "\<exists>r' stats'. run_case cfg i r stats = Ok (r', stats') \<and> in_bounds (n + max (fc_max_input_bytes cfg) 64) stats'
    \<and> fs_cases stats' = Suc (fs_cases stats) \<and> fs_rejected stats' \<le> fs_cases stats'"
proof -
  obtain r1 input where c: "case_input cfg i r = Ok (r1, input)" "length input \<le> max (fc_max_input_bytes cfg) 64"
    using case_input_length by blast
  let ?d = "new_decoder (max (fc_max_input_bytes cfg) 64)"
  have "n + length (fd_buffer ?d) + length input \<le> usize_max" using c(2) assms(2) by (simp add: new_decoder_def)
  from feed_bounds [OF assms(1) this, of r1 False] obtain r2 s' rej where
    f: "feed ?d input r1 stats False = Ok (r2, s', rej)" "in_bounds (n + length (fd_buffer ?d) + length input) s'"
      "fs_cases s' = fs_cases stats" "fs_rejected s' = fs_rejected stats" by blast
  have "in_bounds (n + max (fc_max_input_bytes cfg) 64) s'" using f(2) c(2) by (auto simp: in_bounds_def new_decoder_def)
  then show ?thesis
    using c f assms(3,4) by (auto simp: run_case_def add_count_def in_bounds_def)
qed

lemma run_cases_bounds:
  assumes "in_bounds n stats" "n + length is * max (fc_max_input_bytes cfg) 64 \<le> usize_max"
    and "fs_rejected stats \<le> fs_cases stats" "fs_cases stats + length is \<le> usize_max"
  shows "\<exists>stats'. run_cases cfg is r stats = Ok stats' \<and> in_bounds (n + length is * max (fc_max_input_bytes cfg) 64) stats'
    \<and> fs_cases stats' = fs_cases stats + length is \<and> fs_rejected stats' \<le> fs_cases stats'"
  using assms
proof (induction "is" arbitrary: n r stats)
  case (Cons i rest)
  let ?b = "max (fc_max_input_bytes cfg) 64"
  obtain r' s' where c: "run_case cfg i r stats = Ok (r', s')" "in_bounds (n + ?b) s'"
      "fs_cases s' = Suc (fs_cases stats)" "fs_rejected s' \<le> fs_cases s'"
    using run_case_bounds [of n stats cfg i r] Cons.prems by auto
  from Cons.IH [OF c(2), of r'] Cons.prems c obtain s'' where "run_cases cfg rest r' s' = Ok s''"
      "in_bounds (n + ?b + length rest * ?b) s''" "fs_cases s'' = fs_cases s' + length rest" "fs_rejected s'' \<le> fs_cases s''"
    by (auto simp: add.assoc)
  with c show ?case by (simp add: add.assoc)
qed simp

text \<open>C34: a campaign completes. Whatever the seed, the campaign ends without a panic, in the decoder, the parser
  or its own arithmetic, as long as the bytes it feeds can be counted; every case is counted, no case
  is rejected twice, and no more frames are parsed than were framed or bytes were fed.\<close>

theorem campaign_completes:
  assumes "fc_cases cfg * max (fc_max_input_bytes cfg) 64 \<le> usize_max"
  shows "\<exists>stats. run_campaign cfg = Ok stats \<and> fs_cases stats = fc_cases cfg \<and> fs_rejected stats \<le> fc_cases cfg
    \<and> fs_parsed stats \<le> fs_framed stats \<and> fs_framed stats \<le> fc_cases cfg * max (fc_max_input_bytes cfg) 64"
proof -
  have "fc_cases cfg * 1 \<le> fc_cases cfg * max (fc_max_input_bytes cfg) 64" by (intro mult_le_mono2) simp
  with assms have "fc_cases cfg \<le> usize_max" by linarith
  moreover have "in_bounds 0 \<lparr>fs_cases = 0, fs_framed = 0, fs_parsed = 0, fs_rejected = 0\<rparr>" by (simp add: in_bounds_def)
  ultimately obtain stats where "run_cases cfg [0..<fc_cases cfg] (max (fc_seed cfg) 1)
        \<lparr>fs_cases = 0, fs_framed = 0, fs_parsed = 0, fs_rejected = 0\<rparr> = Ok stats"
      "in_bounds (fc_cases cfg * max (fc_max_input_bytes cfg) 64) stats" "fs_cases stats = fc_cases cfg"
      "fs_rejected stats \<le> fs_cases stats"
    using assms run_cases_bounds [of 0 "\<lparr>fs_cases = 0, fs_framed = 0, fs_parsed = 0, fs_rejected = 0\<rparr>"
      "[0..<fc_cases cfg]" cfg "max (fc_seed cfg) 1"] by auto
  then show ?thesis by (auto simp: run_campaign_def in_bounds_def)
qed

theorem campaign_completes_witness:
  "\<exists>stats. run_campaign \<lparr>fc_seed = 0x3c6ef372fe94f82b, fc_cases = 100000, fc_max_input_bytes = 65536\<rparr> = Ok stats
    \<and> fs_cases stats = 100000"
  using campaign_completes [of "\<lparr>fc_seed = 0x3c6ef372fe94f82b, fc_cases = 100000, fc_max_input_bytes = 65536\<rparr>"]
  by (auto simp: usize_max_def)

end
