(* ===== verification/Fix_Cfg.thy ===== *)
theory Fix_Cfg
  imports Fix_Prelude "HOL-Library.Char_ord" "HOL-Library.List_Lexorder"
begin

text \<open>
  The configuration files of \<open>crates/fix-session/src/quickfix_cfg.rs\<close>: \<open>[DEFAULT]\<close> and named
  sections of \<open>KEY=VALUE\<close> lines, and the two descriptions read from them, that of an initiator
  (\<open>parse_client_cfg\<close>) and that of an acceptor (\<open>parse_acceptor_cfg\<close>).

  A \<open>BTreeMap\<close> is its entries in strictly ascending order of the keys; strings are ordered by
  their bytes, which the lexicographic order of \<open>List_Lexorder\<close> on \<open>Char_ord\<close> is. The messages
  of the parser are values of \<open>cfg_error\<close>; \<open>cfg_error_string\<close> is their text. \<open>Decimal::from_str\<close>
  of rust_decimal is a parameter.
\<close>

section \<open>Ordered tables\<close>

type_synonym table = "(string \<times> string) list"

text \<open>\<open>BTreeMap::insert\<close>, \<open>BTreeMap::get\<close>, \<open>entry(..).or_default()\<close> and \<open>extend\<close>.\<close>

fun bt_insert :: "'k::linorder \<Rightarrow> 'v \<Rightarrow> ('k \<times> 'v) list \<Rightarrow> ('k \<times> 'v) list" where
  "bt_insert k v [] = [(k, v)]"
| "bt_insert k v ((l, w) # m) =
     (if k < l then (k, v) # (l, w) # m else if k = l then (k, v) # m else (l, w) # bt_insert k v m)"

definition bt_get :: "'k \<Rightarrow> ('k \<times> 'v) list \<Rightarrow> 'v option" where
  "bt_get k m = map_of m k"

definition bt_or_default :: "'k::linorder \<Rightarrow> 'v \<Rightarrow> ('k \<times> 'v) list \<Rightarrow> ('k \<times> 'v) list" where
  "bt_or_default k v m = (case bt_get k m of None \<Rightarrow> bt_insert k v m | Some _ \<Rightarrow> m)"

definition bt_extend :: "('k::linorder \<times> 'v) list \<Rightarrow> ('k \<times> 'v) list \<Rightarrow> ('k \<times> 'v) list" where
  "bt_extend m own = fold (\<lambda>(k, v). bt_insert k v) own m"

definition bt_ordered :: "('k::linorder \<times> 'v) list \<Rightarrow> bool" where
  "bt_ordered m \<longleftrightarrow> sorted_wrt (<) (map fst m)"

section \<open>Text\<close>

abbreviation LF :: char where "LF \<equiv> CHR 0x0A"
abbreviation CR :: char where "CR \<equiv> CHR 0x0D"

definition ends_with :: "'a list \<Rightarrow> 'a list \<Rightarrow> bool" where
  "ends_with s p = starts_with (rev s) (rev p)"

definition strip_prefix :: "string \<Rightarrow> string \<Rightarrow> string option" where
  "strip_prefix p s = (if starts_with s p then Some (drop (length p) s) else None)"

definition strip_suffix :: "string \<Rightarrow> string \<Rightarrow> string option" where
  "strip_suffix p s = (if ends_with s p then Some (take (length s - length p) s) else None)"

definition split_once :: "char \<Rightarrow> string \<Rightarrow> (string \<times> string) option" where
  "split_once c s = (case dropWhile (\<lambda>x. x \<noteq> c) s of [] \<Rightarrow> None | _ # rest \<Rightarrow> Some (takeWhile (\<lambda>x. x \<noteq> c) s, rest))"

text \<open>\<open>str::lines\<close>: a line ends at a line feed, which is dropped with a carriage return before it.\<close>

definition strip_cr :: "string \<Rightarrow> string" where
  "strip_cr line = (case strip_suffix [CR] line of None \<Rightarrow> line | Some l \<Rightarrow> l)"

function str_lines :: "string \<Rightarrow> string list" where
  "str_lines s =
     (if s = [] then []
      else case dropWhile (\<lambda>c. c \<noteq> LF) s of
        [] \<Rightarrow> [s]
      | _ # rest \<Rightarrow> strip_cr (takeWhile (\<lambda>c. c \<noteq> LF) s) # str_lines rest)"
  by pat_completeness auto

termination
proof (relation "measure length")
  fix s :: string and x rest
  assume "dropWhile (\<lambda>c. c \<noteq> LF) s = x # rest"
  then have "length (x # rest) \<le> length s" by (metis length_dropWhile_le)
  then show "(rest, s) \<in> measure length" by simp
qed simp

declare str_lines.simps [simp del]

text \<open>\<open>str::trim\<close>: the characters with the property White\_Space, in UTF-8.\<close>

definition whitespace :: "string list" where
  "whitespace = [[CHR 0x09], [LF], [CHR 0x0B], [CHR 0x0C], [CR], [CHR 0x20], [CHR 0xC2, CHR 0x85], [CHR 0xC2, CHR 0xA0],
     [CHR 0xE1, CHR 0x9A, CHR 0x80],
     [CHR 0xE2, CHR 0x80, CHR 0x80], [CHR 0xE2, CHR 0x80, CHR 0x81], [CHR 0xE2, CHR 0x80, CHR 0x82],
     [CHR 0xE2, CHR 0x80, CHR 0x83], [CHR 0xE2, CHR 0x80, CHR 0x84], [CHR 0xE2, CHR 0x80, CHR 0x85],
     [CHR 0xE2, CHR 0x80, CHR 0x86], [CHR 0xE2, CHR 0x80, CHR 0x87], [CHR 0xE2, CHR 0x80, CHR 0x88],
     [CHR 0xE2, CHR 0x80, CHR 0x89], [CHR 0xE2, CHR 0x80, CHR 0x8A], [CHR 0xE2, CHR 0x80, CHR 0xA8],
     [CHR 0xE2, CHR 0x80, CHR 0xA9], [CHR 0xE2, CHR 0x80, CHR 0xAF], [CHR 0xE2, CHR 0x81, CHR 0x9F],
     [CHR 0xE3, CHR 0x80, CHR 0x80]]"

function trim_with :: "string list \<Rightarrow> string \<Rightarrow> string" where
  "trim_with pats s = (case find (\<lambda>p. p \<noteq> [] \<and> starts_with s p) pats of
     None \<Rightarrow> s
   | Some p \<Rightarrow> trim_with pats (drop (length p) s))"
  by pat_completeness auto

termination
proof (relation "measure (length \<circ> snd)")
  fix pats :: "string list" and s p
  assume "find (\<lambda>p. p \<noteq> [] \<and> starts_with s p) pats = Some p"
  then have "p \<noteq> []" "starts_with s p" by (auto simp: find_Some_iff)
  then have "s \<noteq> []" by (cases s; cases p) auto
  with \<open>p \<noteq> []\<close> show "((pats, drop (length p) s), pats, s) \<in> measure (length \<circ> snd)" by simp
qed simp

declare trim_with.simps [simp del]

definition trim_start :: "string \<Rightarrow> string" where
  "trim_start s = trim_with whitespace s"

definition trim_end :: "string \<Rightarrow> string" where
  "trim_end s = rev (trim_with (map rev whitespace) (rev s))"

definition trim :: "string \<Rightarrow> string" where
  "trim s = trim_end (trim_start s)"

definition ascii_lower :: "char \<Rightarrow> char" where
  "ascii_lower c = (if 65 \<le> (of_char c :: nat) \<and> (of_char c :: nat) \<le> 90 then char_of (of_char c + 32 :: nat) else c)"

definition to_ascii_lowercase :: "string \<Rightarrow> string" where
  "to_ascii_lowercase s = map ascii_lower s"

definition eq_ignore_ascii_case :: "string \<Rightarrow> string \<Rightarrow> bool" where
  "eq_ignore_ascii_case s t \<longleftrightarrow> to_ascii_lowercase s = to_ascii_lowercase t"

subsection \<open>Lossy decoding\<close>

text \<open>\<open>String::from_utf8_lossy\<close>: every maximal ill-formed piece becomes U+FFFD.\<close>

definition replacement :: bytes where
  "replacement = [239, 191, 189]"

definition utf8_lead :: "nat \<Rightarrow> u8 \<Rightarrow> bool" where
  "utf8_lead n b \<longleftrightarrow> (if n = 2 then 194 \<le> b \<and> b \<le> 223 else if n = 3 then 224 \<le> b \<and> b \<le> 239 else 240 \<le> b \<and> b \<le> 244)"

fun lossy :: "bytes \<Rightarrow> bytes" where
  "lossy [] = []"
| "lossy (b0 # bs) =
     (if b0 < 128 then b0 # lossy bs
      else if utf8_lead 2 b0 then
        (case bs of
           b1 # bs1 \<Rightarrow> if utf8_cont b1 then b0 # b1 # lossy bs1 else replacement @ lossy bs
         | [] \<Rightarrow> replacement)
      else if utf8_lead 3 b0 then
        (case bs of
           b1 # bs1 \<Rightarrow>
             if utf8_head3 b0 b1 then
               (case bs1 of
                  b2 # bs2 \<Rightarrow> if utf8_cont b2 then b0 # b1 # b2 # lossy bs2 else replacement @ lossy bs1
                | [] \<Rightarrow> replacement)
             else replacement @ lossy bs
         | [] \<Rightarrow> replacement)
      else if utf8_lead 4 b0 then
        (case bs of
           b1 # bs1 \<Rightarrow>
             if utf8_head4 b0 b1 then
               (case bs1 of
                  b2 # bs2 \<Rightarrow>
                    if utf8_cont b2 then
                      (case bs2 of
                         b3 # bs3 \<Rightarrow> if utf8_cont b3 then b0 # b1 # b2 # b3 # lossy bs3 else replacement @ lossy bs2
                       | [] \<Rightarrow> replacement)
                    else replacement @ lossy bs1
                | [] \<Rightarrow> replacement)
             else replacement @ lossy bs
         | [] \<Rightarrow> replacement)
      else replacement @ lossy bs)"

declare lossy.simps(2) [simp del]

definition from_utf8_lossy :: "bytes \<Rightarrow> string" where
  "from_utf8_lossy bs = str_of_bytes (lossy bs)"

text \<open>The file system is the result of \<open>fs::read\<close>.\<close>

definition read_cfg_lossy :: "(string, bytes) result \<Rightarrow> string \<Rightarrow> (string, string) result" where
  "read_cfg_lossy file path = bindR (map_err (\<lambda>e. path @ '': '' @ e) file) (\<lambda>raw.
     case from_utf8 raw of Some text \<Rightarrow> Ok text | None \<Rightarrow> Ok (from_utf8_lossy raw))"

section \<open>Errors\<close>

datatype cfg_error =
    ExpectedKeyValue nat string
  | NoSession string
  | ManySessions string nat
  | DictionaryUnsupported
  | MissingKey string
  | NotANumber string string
  | NotADecimal string string
  | NotYesNo string string
  | InvalidLogonTag string
  | InvalidLogonValue u32
  | LogonConflict string u32
  | NotPositive string
  | PortTooLarge string

text \<open>The argument \<open>debug\<close> is the quoting of a string by \<open>{:?}\<close>.\<close>

fun cfg_error_string :: "(string \<Rightarrow> string) \<Rightarrow> cfg_error \<Rightarrow> string" where
  "cfg_error_string debug (ExpectedKeyValue n raw) = ''line '' @ dec n @ '': expected KEY=VALUE, got '' @ debug raw"
| "cfg_error_string debug (NoSession t) = ''no [section] with ConnectionType='' @ t @ '' found''"
| "cfg_error_string debug (ManySessions t n) = ''expected exactly one ConnectionType='' @ t @ '' session, found '' @ dec n"
| "cfg_error_string debug DictionaryUnsupported =
     ''UseDataDictionary=Y is not supported yet; set it to N for tag-only parsing''"
| "cfg_error_string debug (MissingKey k) = ''missing required key '' @ k"
| "cfg_error_string debug (NotANumber k v) = ''key '' @ k @ '' is not a number: '' @ v"
| "cfg_error_string debug (NotADecimal k v) = ''key '' @ k @ '' is not a decimal: '' @ v"
| "cfg_error_string debug (NotYesNo k v) = ''key '' @ k @ '' must be Y or N, got '' @ v"
| "cfg_error_string debug (InvalidLogonTag t) = ''invalid LogonField tag '' @ debug t"
| "cfg_error_string debug (InvalidLogonValue t) = ''LogonField.'' @ dec (unat t) @ '' has an invalid value''"
| "cfg_error_string debug (LogonConflict k t) = k @ '' conflicts with LogonField.'' @ dec (unat t)"
| "cfg_error_string debug (NotPositive k) = k @ '' must be positive''"
| "cfg_error_string debug (PortTooLarge k) = k @ '' must fit in u16''"

section \<open>Sections\<close>

text \<open>What a line is, by the tests of \<open>merged_sections\<close> in their order.\<close>

datatype cfg_item = Ignored | Header string | Assign string string | Unreadable

definition item_of :: "string \<Rightarrow> cfg_item" where
  "item_of raw_line =
     (let line = trim raw_line in
      if line = [] \<or> starts_with line ''#'' \<or> starts_with line '';'' then Ignored
      else case Option.bind (strip_prefix ''['' line) (strip_suffix '']'') of
        Some name \<Rightarrow> Header (trim name)
      | None \<Rightarrow>
          (case split_once (CHR ''='') line of
             None \<Rightarrow> Unreadable
           | Some (key, value) \<Rightarrow> Assign (trim key) (trim value)))"

record merge_state =
  ms_default :: table
  ms_sections :: "(string \<times> table) list"
  ms_current :: "string option"

definition cfg_line :: "nat \<Rightarrow> string \<Rightarrow> merge_state \<Rightarrow> (cfg_error, merge_state) result" where
  "cfg_line n raw_line ms =
     (case item_of raw_line of
        Ignored \<Rightarrow> Ok ms
      | Header name \<Rightarrow>
          Ok (ms\<lparr>ms_current := Some name, ms_sections := bt_or_default name [] (ms_sections ms)\<rparr>)
      | Unreadable \<Rightarrow> Err (ExpectedKeyValue (n + 1) raw_line)
      | Assign key value \<Rightarrow>
          (if ms_current ms \<noteq> None \<and> ms_current ms \<noteq> Some ''DEFAULT'' then
             (case bt_get (the (ms_current ms)) (ms_sections ms) of
                None \<Rightarrow> Panic
              | Some own \<Rightarrow> Ok (ms\<lparr>ms_sections := bt_insert (the (ms_current ms)) (bt_insert key value own) (ms_sections ms)\<rparr>))
           else Ok (ms\<lparr>ms_default := bt_insert key value (ms_default ms)\<rparr>)))"

fun cfg_lines :: "nat \<Rightarrow> string list \<Rightarrow> merge_state \<Rightarrow> (cfg_error, merge_state) result" where
  "cfg_lines n [] ms = Ok ms"
| "cfg_lines n (raw_line # rest) ms = bindR (cfg_line n raw_line ms) (cfg_lines (Suc n) rest)"

definition merge_start :: merge_state where
  "merge_start = \<lparr>ms_default = [], ms_sections = [], ms_current = None\<rparr>"

definition combine :: "merge_state \<Rightarrow> (string \<times> table) list" where
  "combine ms = map (\<lambda>(name, own). (name, bt_extend (ms_default ms) own))
     (filter (\<lambda>(name, own). name \<noteq> ''DEFAULT'') (ms_sections ms))"

definition merged_sections :: "string \<Rightarrow> (cfg_error, (string \<times> table) list) result" where
  "merged_sections text = bindR (cfg_lines 0 (str_lines text) merge_start) (\<lambda>ms. Ok (combine ms))"

definition connects_as :: "string \<Rightarrow> table \<Rightarrow> bool" where
  "connects_as connection_type keys =
     (case bt_get ''ConnectionType'' keys of None \<Rightarrow> False | Some value \<Rightarrow> eq_ignore_ascii_case value connection_type)"

definition select_session :: "(string \<times> table) list \<Rightarrow> string \<Rightarrow> (cfg_error, table) result" where
  "select_session sections connection_type =
     (case filter (\<lambda>(name, keys). connects_as connection_type keys) sections of
        [] \<Rightarrow> Err (NoSession connection_type)
      | [(name, keys)] \<Rightarrow> Ok keys
      | several \<Rightarrow> Err (ManySessions connection_type (length several)))"

section \<open>Keys\<close>

definition present :: "table \<Rightarrow> string \<Rightarrow> string option" where
  "present keys key = (case bt_get key keys of None \<Rightarrow> None | Some value \<Rightarrow> if value \<noteq> [] then Some value else None)"

definition required :: "table \<Rightarrow> string \<Rightarrow> (cfg_error, string) result" where
  "required keys key = ok_or (MissingKey key) (present keys key)"

definition parsed_u64 :: "table \<Rightarrow> string \<Rightarrow> u64 \<Rightarrow> (cfg_error, u64) result" where
  "parsed_u64 keys key fallback =
     (case present keys key of None \<Rightarrow> Ok fallback | Some value \<Rightarrow> ok_or (NotANumber key value) (parse_u64 value))"

definition parsed_decimal :: "(string \<Rightarrow> 'd option) \<Rightarrow> table \<Rightarrow> string \<Rightarrow> string \<Rightarrow> (cfg_error, 'd) result" where
  "parsed_decimal decimal keys key fallback =
     (case present keys key of
        None \<Rightarrow> (case decimal fallback of None \<Rightarrow> Panic | Some d \<Rightarrow> Ok d)
      | Some value \<Rightarrow> ok_or (NotADecimal key value) (decimal value))"

definition parsed_bool :: "table \<Rightarrow> string \<Rightarrow> bool \<Rightarrow> (cfg_error, bool) result" where
  "parsed_bool keys key fallback =
     (case present keys key of
        None \<Rightarrow> Ok fallback
      | Some value \<Rightarrow>
          if to_ascii_lowercase value \<in> {''y'', ''yes'', ''true''} then Ok True
          else if to_ascii_lowercase value \<in> {''n'', ''no'', ''false''} then Ok False
          else Err (NotYesNo key value))"

text \<open>\<open>u64::try_into::<u16>\<close>.\<close>

definition port_of :: "string \<Rightarrow> u64 \<Rightarrow> (cfg_error, 16 word) result" where
  "port_of key n = (if unat n < 2 ^ 16 then Ok (ucast n) else Err (PortTooLarge key))"

section \<open>The initiator\<close>

record 'd initiator_session =
  is_begin_string :: string
  is_sender_comp_id :: string
  is_target_comp_id :: string
  is_host :: string
  is_port :: "16 word"
  is_heartbeat_interval_secs :: u64
  is_reconnect_interval_secs :: u64
  is_connect_timeout_ms :: u64
  is_logon_fields :: "(u32 \<times> string) list"
  is_max_quantity :: 'd
  is_max_notional :: 'd
  is_allow_market_orders :: bool
  is_max_messages_per_second :: u32
  is_reset_seq_num_flag :: bool
  is_file_log_path :: "string option"
  is_file_store_path :: "string option"

definition logon_field_prefix :: string where
  "logon_field_prefix = ''LogonField.''"

fun custom_logon_fields :: "table \<Rightarrow> (cfg_error, (u32 \<times> string) list) result" where
  "custom_logon_fields [] = Ok []"
| "custom_logon_fields ((key, value) # rest) =
     (case strip_prefix logon_field_prefix key of
        None \<Rightarrow> custom_logon_fields rest
      | Some text \<Rightarrow>
          bindR (ok_or (InvalidLogonTag text) (parse_u32 text)) (\<lambda>tag.
          if tag = 0 \<or> value = [] then Err (InvalidLogonValue tag)
          else bindR (custom_logon_fields rest) (\<lambda>fs. Ok ((tag, value) # fs))))"

fun add_credentials ::
    "table \<Rightarrow> (u32 \<times> string) list \<Rightarrow> (u32 \<times> string) list \<Rightarrow> (cfg_error, (u32 \<times> string) list) result" where
  "add_credentials keys [] fs = Ok fs"
| "add_credentials keys ((tag, key) # rest) fs =
     (case present keys key of
        None \<Rightarrow> add_credentials keys rest fs
      | Some value \<Rightarrow>
          if tag \<in> set (map fst fs) then Err (LogonConflict key tag)
          else add_credentials keys rest (fs @ [(tag, value)]))"

definition credential_keys :: "(u32 \<times> string) list" where
  "credential_keys = [(553, ''Account''), (554, ''Password'')]"

definition parse_client_cfg :: "(string \<Rightarrow> 'd option) \<Rightarrow> string \<Rightarrow> (cfg_error, 'd initiator_session) result" where
  "parse_client_cfg decimal text =
     bindR (merged_sections text) (\<lambda>sections.
     bindR (select_session sections ''initiator'') (\<lambda>keys.
     if (case bt_get ''UseDataDictionary'' keys of None \<Rightarrow> False | Some value \<Rightarrow> eq_ignore_ascii_case value ''Y'')
     then Err DictionaryUnsupported
     else
       bindR (custom_logon_fields keys) (\<lambda>custom.
       bindR (add_credentials keys credential_keys custom) (\<lambda>logon_fields.
       bindR (parsed_u64 keys ''HeartBtInt'' 30) (\<lambda>heartbeat.
       if heartbeat = 0 then Err (NotPositive ''HeartBtInt'') else
       bindR (parsed_u64 keys ''MaxMessagesPerSecond'' 20) (\<lambda>rate.
       if rate = 0 then Err (NotPositive ''MaxMessagesPerSecond'') else
       bindR (required keys ''BeginString'') (\<lambda>begin_string.
       bindR (required keys ''SenderCompID'') (\<lambda>sender.
       bindR (required keys ''TargetCompID'') (\<lambda>target.
       bindR (required keys ''SocketConnectHost'') (\<lambda>host.
       bindR (bindR (parsed_u64 keys ''SocketConnectPort'' 0) (port_of ''SocketConnectPort'')) (\<lambda>port.
       bindR (parsed_u64 keys ''ReconnectInterval'' 10) (\<lambda>reconnect.
       bindR (parsed_u64 keys ''ConnectTimeoutMs'' 5000) (\<lambda>connect_timeout.
       bindR (parsed_decimal decimal keys ''MaxQuantity'' ''10000'') (\<lambda>max_quantity.
       bindR (parsed_decimal decimal keys ''MaxNotional'' ''100000000'') (\<lambda>max_notional.
       bindR (parsed_bool keys ''AllowMarketOrders'' False) (\<lambda>allow_market.
       bindR (parsed_bool keys ''ResetSeqNumFlag'' False) (\<lambda>reset.
       Ok \<lparr>is_begin_string = begin_string, is_sender_comp_id = sender, is_target_comp_id = target, is_host = host,
          is_port = port, is_heartbeat_interval_secs = heartbeat, is_reconnect_interval_secs = reconnect,
          is_connect_timeout_ms = connect_timeout, is_logon_fields = sort_key fst logon_fields,
          is_max_quantity = max_quantity, is_max_notional = max_notional, is_allow_market_orders = allow_market,
          is_max_messages_per_second = ucast rate, is_reset_seq_num_flag = reset,
          is_file_log_path = present keys ''FileLogPath'',
          is_file_store_path = present keys ''FileStorePath''\<rparr>)))))))))))))))))"

section \<open>The acceptor\<close>

record acceptor_session =
  as_begin_string :: string
  as_sender_comp_id :: string
  as_target_comp_id :: string
  as_host :: string
  as_port :: "16 word"
  as_heartbeat_interval_secs :: u64
  as_log_dir :: "string option"

definition parse_acceptor_cfg :: "string \<Rightarrow> (cfg_error, acceptor_session) result" where
  "parse_acceptor_cfg text =
     bindR (merged_sections text) (\<lambda>sections.
     bindR (select_session sections ''acceptor'') (\<lambda>keys.
     bindR (parsed_u64 keys ''HeartBtInt'' 30) (\<lambda>heartbeat.
     if heartbeat = 0 then Err (NotPositive ''HeartBtInt'') else
     bindR (required keys ''BeginString'') (\<lambda>begin_string.
     bindR (required keys ''SenderCompID'') (\<lambda>sender.
     bindR (required keys ''TargetCompID'') (\<lambda>target.
     bindR (bindR (parsed_u64 keys ''SocketAcceptPort'' 0) (port_of ''SocketAcceptPort'')) (\<lambda>port.
     Ok \<lparr>as_begin_string = begin_string, as_sender_comp_id = sender, as_target_comp_id = target,
        as_host = (case present keys ''SocketAcceptHost'' of None \<Rightarrow> ''127.0.0.1'' | Some h \<Rightarrow> h),
        as_port = port, as_heartbeat_interval_secs = heartbeat,
        as_log_dir = present keys ''FileLogPath''\<rparr>)))))))"

section \<open>Lossy decoding keeps the ASCII text\<close>

lemma utf8_not_ascii:
  "utf8_head3 b0 b1 \<Longrightarrow> \<not> b1 < 128" "utf8_head4 b0 b1 \<Longrightarrow> \<not> b1 < 128" "utf8_cont b \<Longrightarrow> \<not> b < 128"
  by (auto simp: utf8_head3_def utf8_head4_def utf8_cont_def word_le_nat_alt word_less_nat_alt split: if_splits)

lemma replacement_not_ascii: "filter (\<lambda>b. b < 128) replacement = []"
  by (simp add: replacement_def)

text \<open>Whatever the encoding of the file, its ASCII characters come through in order: line feeds, keys and
  ASCII values survive, only the bytes outside ASCII are replaced.\<close>

lemma lossy_ascii: "filter (\<lambda>b. b < 128) (lossy bs) = filter (\<lambda>b. b < 128) bs"
proof (induction bs rule: length_induct)
  case (1 bs)
  then have IH: "length ys < length bs \<Longrightarrow> filter (\<lambda>b. b < 128) (lossy ys) = filter (\<lambda>b. b < 128) ys" for ys
    by blast
  show ?case
  proof (cases bs)
    case (Cons b0 bs')
    show ?thesis unfolding Cons lossy.simps(2)
      by (simp add: IH Cons replacement_not_ascii utf8_not_ascii split: list.split)
  qed simp
qed

lemma utf8_valid_lead:
  "utf8_valid (b0 # bs) \<longleftrightarrow>
     (if b0 < 128 then utf8_valid bs
      else if utf8_lead 2 b0 then (case bs of b1 # bs1 \<Rightarrow> utf8_cont b1 \<and> utf8_valid bs1 | _ \<Rightarrow> False)
      else if utf8_lead 3 b0 then
        (case bs of b1 # b2 # bs2 \<Rightarrow> utf8_head3 b0 b1 \<and> utf8_cont b2 \<and> utf8_valid bs2 | _ \<Rightarrow> False)
      else if utf8_lead 4 b0 then
        (case bs of b1 # b2 # b3 # bs3 \<Rightarrow> utf8_head4 b0 b1 \<and> utf8_cont b2 \<and> utf8_cont b3 \<and> utf8_valid bs3
         | _ \<Rightarrow> False)
      else False)"
proof -
  have "utf8_head3 b0 b1 \<Longrightarrow> utf8_lead 3 b0" "utf8_head4 b0 b1 \<Longrightarrow> utf8_lead 4 b0" for b1
    by (auto simp: utf8_head3_def utf8_head4_def utf8_lead_def word_le_nat_alt split: if_splits)
  moreover have "utf8_lead 2 b0 \<longleftrightarrow> 194 \<le> b0 \<and> b0 \<le> 223" "b0 < 240 \<Longrightarrow> \<not> utf8_lead 4 b0"
    "\<not> b0 < 240 \<Longrightarrow> \<not> utf8_lead 3 b0"
    by (auto simp: utf8_lead_def word_le_nat_alt word_less_nat_alt)
  ultimately show ?thesis
    by (cases "b0 < 240") (simp_all add: utf8_valid.simps(2) split: list.split, blast+)
qed

lemma lossy_valid: "utf8_valid bs \<Longrightarrow> lossy bs = bs"
proof (induction bs rule: length_induct)
  case (1 bs)
  then have IH: "length ys < length bs \<Longrightarrow> utf8_valid ys \<Longrightarrow> lossy ys = ys" for ys
    by blast
  show ?case
  proof (cases bs)
    case (Cons b0 bs')
    with 1(2) show ?thesis unfolding Cons lossy.simps(2) utf8_valid_lead
      by (simp add: IH Cons split: list.split_asm if_split_asm)
  qed simp
qed

section \<open>The laws of an ordered table\<close>

text \<open>What the parser relies on: an insertion is a map update and keeps the table in order.\<close>

locale ordered_table =
  fixes ins :: "'k \<Rightarrow> 'v \<Rightarrow> 'm \<Rightarrow> 'm" and look :: "'m \<Rightarrow> 'k \<Rightarrow> 'v option" and ok :: "'m \<Rightarrow> bool"
  assumes look_ins: "look (ins k v m) = (look m)(k \<mapsto> v)"
    and ok_ins: "ok m \<Longrightarrow> ok (ins k v m)"
begin

lemma ok_fold: "ok m \<Longrightarrow> ok (fold (\<lambda>(k, v). ins k v) kvs m)"
  by (induction kvs arbitrary: m) (auto simp: ok_ins)

lemma look_fold: "look (fold (\<lambda>(k, v). ins k v) kvs m) = look m ++ map_of (rev kvs)"
proof (induction kvs arbitrary: m)
  case (Cons kv kvs)
  obtain k v where "kv = (k, v)" by fastforce
  with Cons [of "ins k v m"] show ?case
    by (auto simp: look_ins map_add_def fun_eq_iff split: option.splits)
qed simp

end

lemma map_of_bt_insert: "map_of (bt_insert k v m) = (map_of m)(k \<mapsto> v)"
  by (induction k v m rule: bt_insert.induct) (auto simp: fun_eq_iff)

lemma keys_bt_insert [simp]: "fst ` set (bt_insert k v m) = insert k (fst ` set m)"
  by (induction k v m rule: bt_insert.induct) auto

lemma values_bt_insert: "x \<in> set (bt_insert k v m) \<Longrightarrow> x = (k, v) \<or> x \<in> set m"
  by (induction k v m rule: bt_insert.induct) (auto split: if_splits)

lemma bt_ordered_insert: "bt_ordered m \<Longrightarrow> bt_ordered (bt_insert k v m)"
proof (induction k v m rule: bt_insert.induct)
  case (2 k v l w m)
  then show ?case by (auto simp: bt_ordered_def dest!: values_bt_insert)
qed (simp add: bt_ordered_def)

interpretation bt: ordered_table bt_insert map_of bt_ordered
  by unfold_locales (simp_all add: map_of_bt_insert bt_ordered_insert)

lemma bt_ordered_distinct: "bt_ordered m \<Longrightarrow> distinct (map fst m)"
  by (simp add: bt_ordered_def strict_sorted_iff)

lemma bt_ordered_filter: "bt_ordered m \<Longrightarrow> bt_ordered (filter P m)"
  by (induction m) (auto simp: bt_ordered_def)

lemma bt_extend_get: "bt_ordered own \<Longrightarrow> map_of (bt_extend m own) = map_of m ++ map_of own"
proof -
  assume "bt_ordered own"
  then have "map_of (rev own) = map_of own"
    by (intro map_of_inject_set [THEN iffD2]) (simp_all add: bt_ordered_distinct rev_map [symmetric])
  then show ?thesis by (simp add: bt_extend_def bt.look_fold)
qed

lemma bt_extend_ordered: "bt_ordered m \<Longrightarrow> bt_ordered (bt_extend m own)"
  unfolding bt_extend_def by (rule bt.ok_fold)

section \<open>What a file says\<close>

text \<open>
  The reference reading: every assignment belongs to the last header above it, to \<open>DEFAULT\<close> when
  there is none, and the last assignment of a key in a section counts.
\<close>

fun section_after :: "string \<Rightarrow> cfg_item \<Rightarrow> string" where
  "section_after sec (Header n) = n"
| "section_after sec _ = sec"

fun assignments :: "string \<Rightarrow> cfg_item list \<Rightarrow> ((string \<times> string) \<times> string) list" where
  "assignments sec [] = []"
| "assignments sec (Assign k v # rest) = ((sec, k), v) # assignments sec rest"
| "assignments sec (i # rest) = assignments (section_after sec i) rest"

definition says :: "cfg_item list \<Rightarrow> string \<Rightarrow> string \<Rightarrow> string option" where
  "says items sec k = map_of (rev (assignments ''DEFAULT'' items)) (sec, k)"

text \<open>What a section says of a key, with \<open>DEFAULT\<close> behind it.\<close>

definition effective :: "cfg_item list \<Rightarrow> string \<Rightarrow> string \<Rightarrow> string option" where
  "effective items sec k = (case says items sec k of Some v \<Rightarrow> Some v | None \<Rightarrow> says items ''DEFAULT'' k)"

definition current_section :: "merge_state \<Rightarrow> string" where
  "current_section ms = (case ms_current ms of None \<Rightarrow> ''DEFAULT'' | Some n \<Rightarrow> n)"

definition meaning :: "merge_state \<Rightarrow> (string \<times> string) \<Rightarrow> string option" where
  "meaning ms = (\<lambda>(sec, k). if sec = ''DEFAULT'' then map_of (ms_default ms) k
     else Option.bind (map_of (ms_sections ms) sec) (\<lambda>own. map_of own k))"

definition merge_ok :: "merge_state \<Rightarrow> bool" where
  "merge_ok ms \<longleftrightarrow> bt_ordered (ms_default ms) \<and> bt_ordered (ms_sections ms)
     \<and> (\<forall>own \<in> snd ` set (ms_sections ms). bt_ordered own)
     \<and> (\<forall>n. ms_current ms = Some n \<longrightarrow> n \<in> fst ` set (ms_sections ms))"

lemma bt_ordered_Nil [simp]: "bt_ordered []"
  by (simp add: bt_ordered_def)

lemma map_of_Some_iff: "bt_ordered m \<Longrightarrow> map_of m k = Some v \<longleftrightarrow> (k, v) \<in> set m"
  by (simp add: bt_ordered_distinct)

lemma key_found: "k \<in> fst ` set m \<Longrightarrow> \<exists>v. map_of m k = Some v"
  by (metis map_of_eq_None_iff not_None_eq)

text \<open>One line takes the meaning one step further and never meets the missing section of the \<open>expect\<close>.\<close>

lemma cfg_line_step:
  assumes "merge_ok ms" "item_of raw_line \<noteq> Unreadable"
  obtains ms' where "cfg_line n raw_line ms = Ok ms'" "merge_ok ms'"
    "current_section ms' = section_after (current_section ms) (item_of raw_line)"
    "meaning ms' = meaning ms ++ map_of (rev (assignments (current_section ms) [item_of raw_line]))"
    "fst ` set (ms_sections ms') = fst ` set (ms_sections ms) \<union> {h. item_of raw_line = Header h}"
proof (cases "item_of raw_line")
  case Ignored
  with assms that show ?thesis by (simp add: cfg_line_def)
next
  case (Header name)
  show ?thesis
  proof (cases "map_of (ms_sections ms) name")
    case None
    with Header assms(1) show ?thesis
      by (intro that [of "ms\<lparr>ms_current := Some name, ms_sections := bt_insert name [] (ms_sections ms)\<rparr>"])
        (auto simp: cfg_line_def bt_or_default_def bt_get_def merge_ok_def bt_ordered_insert current_section_def
          meaning_def map_of_bt_insert fun_eq_iff dest!: values_bt_insert split: option.splits)
  next
    case (Some own)
    then have "name \<in> fst ` set (ms_sections ms)" by (force dest: map_of_SomeD)
    with Header Some assms(1) show ?thesis
      by (intro that [of "ms\<lparr>ms_current := Some name\<rparr>"])
        (auto simp: cfg_line_def bt_or_default_def bt_get_def merge_ok_def current_section_def meaning_def)
  qed
next
  case (Assign key v)
  show ?thesis
  proof (cases "current_section ms = ''DEFAULT''")
    case True
    then have "\<not> (ms_current ms \<noteq> None \<and> ms_current ms \<noteq> Some ''DEFAULT'')"
      by (auto simp: current_section_def split: option.splits)
    with Assign True assms(1) show ?thesis
      by (intro that [of "ms\<lparr>ms_default := bt_insert key v (ms_default ms)\<rparr>"])
        (auto simp: cfg_line_def merge_ok_def bt_ordered_insert current_section_def meaning_def map_of_bt_insert
          fun_eq_iff split: option.splits)
  next
    case False
    then obtain sec where sec: "ms_current ms = Some sec" "sec \<noteq> ''DEFAULT''"
      by (auto simp: current_section_def split: option.splits)
    with assms(1) obtain own where own: "map_of (ms_sections ms) sec = Some own"
      by (metis key_found merge_ok_def)
    then have "bt_ordered own" using assms(1) by (force simp: merge_ok_def dest: map_of_SomeD)
    with Assign sec own assms(1) show ?thesis
      by (intro that [of "ms\<lparr>ms_sections := bt_insert sec (bt_insert key v own) (ms_sections ms)\<rparr>"])
        (auto simp: cfg_line_def merge_ok_def bt_get_def bt_ordered_insert current_section_def meaning_def
          map_of_bt_insert fun_eq_iff dest!: values_bt_insert split: option.splits)
  qed
qed (use assms in simp)

lemma assignments_Cons: "assignments sec (i # rest) = assignments sec [i] @ assignments (section_after sec i) rest"
  by (cases i) simp_all

lemma cfg_lines_run:
  assumes "merge_ok ms" "\<forall>l \<in> set ls. item_of l \<noteq> Unreadable"
  obtains ms' where "cfg_lines n ls ms = Ok ms'" "merge_ok ms'"
    "meaning ms' = meaning ms ++ map_of (rev (assignments (current_section ms) (map item_of ls)))"
    "fst ` set (ms_sections ms') = fst ` set (ms_sections ms) \<union> {h. Header h \<in> set (map item_of ls)}"
  using assms
proof (induction ls arbitrary: n ms thesis)
  case Nil
  then show ?case by simp
next
  case (Cons l ls)
  then have "item_of l \<noteq> Unreadable" by simp
  from cfg_line_step [OF Cons.prems(2) this, of n] obtain ms1 where ms1: "cfg_line n l ms = Ok ms1" "merge_ok ms1"
    "current_section ms1 = section_after (current_section ms) (item_of l)"
    "meaning ms1 = meaning ms ++ map_of (rev (assignments (current_section ms) [item_of l]))"
    "fst ` set (ms_sections ms1) = fst ` set (ms_sections ms) \<union> {h. item_of l = Header h}" by blast
  from Cons.IH [OF _ ms1(2), of "Suc n"] Cons.prems(3) obtain ms2 where ms2: "cfg_lines (Suc n) ls ms1 = Ok ms2" "merge_ok ms2"
    "meaning ms2 = meaning ms1 ++ map_of (rev (assignments (current_section ms1) (map item_of ls)))"
    "fst ` set (ms_sections ms2) = fst ` set (ms_sections ms1) \<union> {h. Header h \<in> set (map item_of ls)}" by auto
  show ?case
  proof (rule Cons.prems(1))
    show "cfg_lines n (l # ls) ms = Ok ms2" using ms1(1) ms2(1) by simp
    show "merge_ok ms2" by (rule ms2(2))
    show "meaning ms2 = meaning ms ++ map_of (rev (assignments (current_section ms) (map item_of (l # ls))))"
      by (simp add: ms2(3) ms1(3,4) assignments_Cons [of _ _ "map item_of ls"] del: assignments.simps)
    show "fst ` set (ms_sections ms2) = fst ` set (ms_sections ms) \<union> {h. Header h \<in> set (map item_of (l # ls))}"
      by (auto simp: ms2(4) ms1(5))
  qed
qed

lemma cfg_lines_unreadable:
  assumes "merge_ok ms" "i < length ls" "item_of (ls ! i) = Unreadable" "\<forall>j < i. item_of (ls ! j) \<noteq> Unreadable"
  shows "cfg_lines n ls ms = Err (ExpectedKeyValue (n + i + 1) (ls ! i))"
  using assms
proof (induction ls arbitrary: n i ms)
  case (Cons l ls)
  show ?case
  proof (cases i)
    case 0
    with Cons.prems(3) show ?thesis by (simp add: cfg_line_def)
  next
    case (Suc j)
    then have "0 < i" by simp
    from Cons.prems(4) [rule_format, OF this] have "item_of l \<noteq> Unreadable" by simp
    then obtain ms1 where ms1: "cfg_line n l ms = Ok ms1" "merge_ok ms1"
      by (rule cfg_line_step [OF Cons.prems(1), of l n])
    have "\<forall>m < j. item_of (ls ! m) \<noteq> Unreadable"
    proof (intro allI impI)
      fix m assume "m < j"
      with Suc have "Suc m < i" by simp
      from Cons.prems(4) [rule_format, OF this] show "item_of (ls ! m) \<noteq> Unreadable" by simp
    qed
    moreover have "j < length ls" "item_of (ls ! j) = Unreadable" using Cons.prems(2,3) Suc by simp_all
    ultimately have "cfg_lines (Suc n) ls ms1 = Err (ExpectedKeyValue (Suc n + j + 1) (ls ! j))"
      using Cons.IH [OF ms1(2)] by blast
    then show ?thesis by (simp add: ms1(1) Suc)
  qed
qed simp

lemma merge_start_ok: "merge_ok merge_start" "current_section merge_start = ''DEFAULT''" "meaning merge_start = Map.empty"
  by (simp_all add: merge_ok_def merge_start_def current_section_def meaning_def fun_eq_iff)

lemma combined_meaning:
  assumes "merge_ok ms" "(name, t) \<in> set (combine ms)"
  shows "bt_ordered t"
    and "map_of t k = (case meaning ms (name, k) of None \<Rightarrow> meaning ms (''DEFAULT'', k) | Some v \<Rightarrow> Some v)"
proof -
  from assms(2) obtain own where own: "(name, own) \<in> set (ms_sections ms)" "name \<noteq> ''DEFAULT''"
      "t = bt_extend (ms_default ms) own"
    by (auto simp: combine_def)
  then have "bt_ordered own" "map_of (ms_sections ms) name = Some own"
    using assms(1) by (auto simp: merge_ok_def map_of_Some_iff)
  with own assms(1) show "bt_ordered t"
      "map_of t k = (case meaning ms (name, k) of None \<Rightarrow> meaning ms (''DEFAULT'', k) | Some v \<Rightarrow> Some v)"
    by (auto simp: merge_ok_def bt_extend_ordered bt_extend_get meaning_def map_add_def split: option.splits)
qed

lemma combine_ordered: "merge_ok ms \<Longrightarrow> bt_ordered (combine ms)"
proof -
  assume "merge_ok ms"
  then have "bt_ordered (filter (\<lambda>(name, own). name \<noteq> ''DEFAULT'') (ms_sections ms))"
    by (simp add: merge_ok_def bt_ordered_filter)
  then show ?thesis by (simp add: combine_def bt_ordered_def comp_def split_beta)
qed

lemma combine_names: "fst ` set (combine ms) = fst ` set (ms_sections ms) - {''DEFAULT''}"
  by (force simp: combine_def)

text \<open>The tables of a file all of whose lines are readable.\<close>

lemma readable_merged:
  assumes "Unreadable \<notin> set (map item_of (str_lines text))"
  obtains tables where "merged_sections text = Ok tables" "bt_ordered tables"
    "fst ` set tables = {n. Header n \<in> set (map item_of (str_lines text))} - {''DEFAULT''}"
    "\<And>name t. (name, t) \<in> set tables \<Longrightarrow> bt_ordered t"
    "\<And>name t k. (name, t) \<in> set tables \<Longrightarrow> bt_get k t = effective (map item_of (str_lines text)) name k"
proof -
  from assms have "\<forall>l \<in> set (str_lines text). item_of l \<noteq> Unreadable" by force
  from cfg_lines_run [OF merge_start_ok(1) this, of 0, unfolded merge_start_ok]
  obtain ms where ms: "cfg_lines 0 (str_lines text) merge_start = Ok ms"
      "merge_ok ms" "meaning ms = map_of (rev (assignments ''DEFAULT'' (map item_of (str_lines text))))"
      "fst ` set (ms_sections ms) = {h. Header h \<in> set (map item_of (str_lines text))}"
    by (simp add: merge_start_def) blast
  show ?thesis
  proof (rule that)
    show "merged_sections text = Ok (combine ms)" by (simp add: merged_sections_def ms(1))
    show "bt_ordered (combine ms)" by (rule combine_ordered [OF ms(2)])
    show "fst ` set (combine ms) = {n. Header n \<in> set (map item_of (str_lines text))} - {''DEFAULT''}"
      by (simp add: combine_names ms(4))
  next
    fix name t k assume t: "(name, t) \<in> set (combine ms)"
    show "bt_ordered t" by (rule combined_meaning(1) [OF ms(2) t])
    from combined_meaning(2) [OF ms(2) t, of k] show "bt_get k t = effective (map item_of (str_lines text)) name k"
      by (simp add: bt_get_def effective_def says_def ms(3) split: option.split)
  qed
qed

lemma unreadable_refused:
  assumes "Unreadable \<in> set (map item_of (str_lines text))"
  obtains i where "i < length (str_lines text)" "item_of (str_lines text ! i) = Unreadable"
    "\<forall>j < i. item_of (str_lines text ! j) \<noteq> Unreadable"
    "merged_sections text = Err (ExpectedKeyValue (i + 1) (str_lines text ! i))"
proof -
  from assms have "\<exists>l \<in> set (str_lines text). item_of l = Unreadable" by force
  then have "\<exists>i. i < length (str_lines text) \<and> item_of (str_lines text ! i) = Unreadable"
    by (metis in_set_conv_nth)
  then obtain i where i: "i < length (str_lines text)" "item_of (str_lines text ! i) = Unreadable"
      "\<forall>j < i. item_of (str_lines text ! j) \<noteq> Unreadable"
    by (subst (asm) exists_least_iff) (auto dest: order.strict_trans)
  have "merged_sections text = Err (ExpectedKeyValue (i + 1) (str_lines text ! i))"
    by (simp add: merged_sections_def cfg_lines_unreadable [OF merge_start_ok(1) i])
  with i that show ?thesis by blast
qed

lemma merged_no_panic [simp]: "merged_sections text \<noteq> Panic"
  by (cases "Unreadable \<in> set (map item_of (str_lines text))") (metis unreadable_refused readable_merged result.distinct)+

section \<open>What an accepted session holds\<close>

text \<open>\<open>read k\<close> is the value the file gives to the key \<open>k\<close> in the section of the session; an empty value counts
  as none.\<close>

definition nonempty :: "(string \<Rightarrow> string option) \<Rightarrow> string \<Rightarrow> string option" where
  "nonempty read k = (case read k of None \<Rightarrow> None | Some v \<Rightarrow> if v = [] then None else Some v)"

definition number :: "(string \<Rightarrow> string option) \<Rightarrow> string \<Rightarrow> u64 \<Rightarrow> u64 option" where
  "number read k fallback = (case nonempty read k of None \<Rightarrow> Some fallback | Some v \<Rightarrow> parse_u64 v)"

definition yes_no :: "(string \<Rightarrow> string option) \<Rightarrow> string \<Rightarrow> bool option" where
  "yes_no read k = (case nonempty read k of None \<Rightarrow> Some False
     | Some v \<Rightarrow>
         if to_ascii_lowercase v \<in> {''y'', ''yes'', ''true''} then Some True
         else if to_ascii_lowercase v \<in> {''n'', ''no'', ''false''} then Some False
         else None)"

definition logon_reads :: "(string \<Rightarrow> string option) \<Rightarrow> (u32 \<times> string) set" where
  "logon_reads read = {(tag, v). \<exists>text. read (logon_field_prefix @ text) = Some v \<and> parse_u32 text = Some tag}
     \<union> {(tag, v). \<exists>k. (tag, k) \<in> set credential_keys \<and> nonempty read k = Some v}"

definition describes :: "(string \<Rightarrow> 'd option) \<Rightarrow> (string \<Rightarrow> string option) \<Rightarrow> 'd initiator_session \<Rightarrow> bool" where
  "describes decimal read s \<longleftrightarrow>
     nonempty read ''BeginString'' = Some (is_begin_string s)
     \<and> nonempty read ''SenderCompID'' = Some (is_sender_comp_id s)
     \<and> nonempty read ''TargetCompID'' = Some (is_target_comp_id s)
     \<and> nonempty read ''SocketConnectHost'' = Some (is_host s)
     \<and> (\<forall>v. nonempty read ''SocketConnectPort'' = Some v \<longrightarrow> parse_u64 v = Some (ucast (is_port s)))
     \<and> number read ''HeartBtInt'' 30 = Some (is_heartbeat_interval_secs s)
     \<and> number read ''ReconnectInterval'' 10 = Some (is_reconnect_interval_secs s)
     \<and> number read ''ConnectTimeoutMs'' 5000 = Some (is_connect_timeout_ms s)
     \<and> (\<exists>n. number read ''MaxMessagesPerSecond'' 20 = Some n \<and> 0 < n
          \<and> (unat n < 2 ^ 32 \<longrightarrow> unat (is_max_messages_per_second s) = unat n))
     \<and> decimal (case nonempty read ''MaxQuantity'' of None \<Rightarrow> ''10000'' | Some v \<Rightarrow> v) = Some (is_max_quantity s)
     \<and> decimal (case nonempty read ''MaxNotional'' of None \<Rightarrow> ''100000000'' | Some v \<Rightarrow> v) = Some (is_max_notional s)
     \<and> yes_no read ''AllowMarketOrders'' = Some (is_allow_market_orders s)
     \<and> yes_no read ''ResetSeqNumFlag'' = Some (is_reset_seq_num_flag s)
     \<and> set (is_logon_fields s) = logon_reads read
     \<and> is_file_log_path s = nonempty read ''FileLogPath''
     \<and> is_file_store_path s = nonempty read ''FileStorePath''"

text \<open>Where the session is \<^emph>\<open>not\<close> what the file says: a missing port, which the documentation requires,
  is taken for 0, and a rate limit that does not fit into 32 bits loses its upper bits.\<close>

definition deviates :: "(string \<Rightarrow> string option) \<Rightarrow> 'd initiator_session \<Rightarrow> bool" where
  "deviates read s \<longleftrightarrow> (nonempty read ''SocketConnectPort'' = None \<longrightarrow> is_port s = 0)
     \<and> (\<forall>n. number read ''MaxMessagesPerSecond'' 20 = Some n \<longrightarrow> 2 ^ 32 \<le> unat n
          \<longrightarrow> unat (is_max_messages_per_second s) = unat n mod 2 ^ 32)"

definition initiator_wf :: "'d initiator_session \<Rightarrow> bool" where
  "initiator_wf s \<longleftrightarrow> is_begin_string s \<noteq> [] \<and> is_sender_comp_id s \<noteq> [] \<and> is_target_comp_id s \<noteq> [] \<and> is_host s \<noteq> []
     \<and> 0 < is_heartbeat_interval_secs s
     \<and> sorted (map fst (is_logon_fields s))
     \<and> (\<forall>(tag, v) \<in> set (is_logon_fields s). tag \<noteq> 0 \<and> v \<noteq> [])"

lemma present_nonempty: "present keys k = nonempty (\<lambda>k. bt_get k keys) k"
  by (simp add: present_def nonempty_def split: option.split)

lemma present_not_empty [simp]: "present keys k \<noteq> Some []"
  by (simp add: present_def split: option.split)

lemma no_panics [simp]:
  "select_session sections t \<noteq> Panic" "custom_logon_fields keys \<noteq> Panic" "add_credentials keys cs fs \<noteq> Panic"
  "parsed_u64 keys k n \<noteq> Panic" "required keys k \<noteq> Panic" "parsed_bool keys k b \<noteq> Panic" "port_of k n \<noteq> Panic"
  "decimal fallback \<noteq> None \<Longrightarrow> parsed_decimal decimal keys k fallback \<noteq> Panic"
proof -
  show "custom_logon_fields keys \<noteq> Panic"
    by (induction keys rule: custom_logon_fields.induct) (auto simp: bindR_eq_Panic split: option.split)
  show "add_credentials keys cs fs \<noteq> Panic"
    by (induction keys cs fs rule: add_credentials.induct) (auto split: option.split)
qed (auto simp: select_session_def parsed_u64_def required_def parsed_bool_def port_of_def parsed_decimal_def
    split: list.splits option.splits)

lemma nonempty_not_Nil: "nonempty read k = Some v \<Longrightarrow> v \<noteq> []"
  by (auto simp: nonempty_def split: option.splits if_splits)

lemma value_Ok:
  "required keys k = Ok v \<longleftrightarrow> nonempty (\<lambda>k. bt_get k keys) k = Some v"
  "parsed_u64 keys k n = Ok m \<longleftrightarrow> number (\<lambda>k. bt_get k keys) k n = Some m"
  "parsed_bool keys k False = Ok b \<longleftrightarrow> yes_no (\<lambda>k. bt_get k keys) k = Some b"
  "parsed_decimal decimal keys k fallback = Ok d
     \<longleftrightarrow> decimal (case nonempty (\<lambda>k. bt_get k keys) k of None \<Rightarrow> fallback | Some v \<Rightarrow> v) = Some d"
  by (auto simp: required_def parsed_u64_def number_def parsed_decimal_def parsed_bool_def yes_no_def present_nonempty
      split: option.splits)

lemma port_of_Ok: "port_of k n = Ok p \<Longrightarrow> n = ucast p"
proof -
  assume "port_of k n = Ok p"
  then have n: "unat n < 2 ^ 16" "p = ucast n" by (auto simp: port_of_def split: if_splits)
  then have "unat (ucast p :: u64) = unat n" by (simp add: unsigned_ucast_eq unsigned_take_bit_eq take_bit_nat_eq_self)
  then show "n = ucast p" by (simp only: word_unat_eq_iff)
qed

lemma number_port:
  "number read k 0 = Some (ucast (p :: 16 word)) \<Longrightarrow>
     (nonempty read k = None \<longrightarrow> p = 0) \<and> (\<forall>v. nonempty read k = Some v \<longrightarrow> parse_u64 v = Some (ucast p))"
proof -
  have "p = 0" if "0 = (ucast p :: u64)"
  proof -
    have "unat p < 2 ^ 16" using unsigned_less [where w = p and 'a = nat] by simp
    then have "unat (ucast p :: u64) = unat p"
      by (simp add: unsigned_ucast_eq unsigned_take_bit_eq take_bit_nat_eq_self)
    with that show ?thesis by (metis unat_eq_zero)
  qed
  then show "number read k 0 = Some (ucast p) \<Longrightarrow> ?thesis" by (auto simp: number_def split: option.splits)
qed

lemma unat_ucast_u32: "unat (ucast (n :: u64) :: u32) = unat n mod 2 ^ 32"
  by (simp add: unsigned_ucast_eq unsigned_take_bit_eq take_bit_eq_mod)

lemma strip_prefix_Some [simp]: "strip_prefix p s = Some r \<longleftrightarrow> s = p @ r"
  by (auto simp: strip_prefix_def starts_with_iff) (metis append_take_drop_id)

lemma custom_logon_fields_Ok:
  "custom_logon_fields keys = Ok fs \<Longrightarrow>
     set fs = {(tag, v). \<exists>text. (logon_field_prefix @ text, v) \<in> set keys \<and> parse_u32 text = Some tag}
     \<and> (\<forall>(tag, v) \<in> set fs. tag \<noteq> 0 \<and> v \<noteq> [])"
proof (induction keys arbitrary: fs)
  case (Cons kv keys)
  obtain key v where kv: "kv = (key, v)" by fastforce
  show ?case
  proof (cases "strip_prefix logon_field_prefix key")
    case None
    then have "\<forall>rest. key \<noteq> logon_field_prefix @ rest" by (metis option.distinct(1) strip_prefix_Some)
    with Cons kv None show ?thesis by auto
  next
    case (Some digits)
    with Cons.prems kv obtain tag gs where g: "parse_u32 digits = Some tag" "tag \<noteq> 0" "v \<noteq> []"
        "custom_logon_fields keys = Ok gs" "fs = (tag, v) # gs"
      by (auto simp: bindR_eq_Ok split: if_splits)
    from Some have "key = logon_field_prefix @ digits" by simp
    with Cons.IH [OF g(4)] g kv show ?thesis by auto
  qed
qed simp

lemma add_credentials_Ok:
  "add_credentials keys cs fs = Ok gs \<Longrightarrow>
     set gs = set fs \<union> {(tag, v). \<exists>k. (tag, k) \<in> set cs \<and> present keys k = Some v}"
  by (induction keys cs fs rule: add_credentials.induct) (auto split: option.splits if_splits)

lemma select_session_Ok:
  "select_session sections t = Ok keys \<longleftrightarrow> (\<exists>name. filter (\<lambda>(name, keys). connects_as t keys) sections = [(name, keys)])"
  by (auto simp: select_session_def split: list.splits)

text \<open>The sections that declare themselves initiators.\<close>

definition initiators :: "cfg_item list \<Rightarrow> string set" where
  "initiators items = {n. Header n \<in> set items \<and> n \<noteq> ''DEFAULT''
     \<and> (case effective items n ''ConnectionType'' of None \<Rightarrow> False | Some v \<Rightarrow> eq_ignore_ascii_case v ''initiator'')}"

lemma merged_initiator:
  assumes "merged_sections text = Ok tables"
    and only: "filter (\<lambda>(name, keys). connects_as ''initiator'' keys) tables = [(name, keys)]"
  shows "bt_ordered keys" "(\<lambda>k. bt_get k keys) = effective (map item_of (str_lines text)) name"
    "initiators (map item_of (str_lines text)) = {name}"
proof -
  have "Unreadable \<notin> set (map item_of (str_lines text))"
    using assms(1) by (metis unreadable_refused result.distinct(1))
  then obtain ts where ts: "merged_sections text = Ok ts"
    "fst ` set ts = {n. Header n \<in> set (map item_of (str_lines text))} - {''DEFAULT''}"
    "\<And>name t. (name, t) \<in> set ts \<Longrightarrow> bt_ordered t"
    "\<And>name t k. (name, t) \<in> set ts \<Longrightarrow> bt_get k t = effective (map item_of (str_lines text)) name k"
    by (metis readable_merged)
  have hit: "(n, t) \<in> set tables \<and> connects_as ''initiator'' t \<longleftrightarrow> n = name \<and> t = keys" for n t
    using arg_cong [OF only, of set] by (auto simp: set_eq_iff)
  have [simp]: "ts = tables" using ts(1) assms(1) by simp
  have in_tables: "(name, keys) \<in> set tables" using hit by blast
  then show "bt_ordered keys" "(\<lambda>k. bt_get k keys) = effective (map item_of (str_lines text)) name"
    using ts(3,4) by (auto simp: fun_eq_iff)
  have conn: "connects_as ''initiator'' t \<longleftrightarrow> (case effective (map item_of (str_lines text)) n ''ConnectionType'' of
      None \<Rightarrow> False | Some v \<Rightarrow> eq_ignore_ascii_case v ''initiator'')" if "(n, t) \<in> set tables" for n t
    using ts(4) [of n t "''ConnectionType''"] that by (simp add: connects_as_def)
  have "n \<in> initiators (map item_of (str_lines text)) \<longleftrightarrow> (\<exists>t. (n, t) \<in> set tables \<and> connects_as ''initiator'' t)" for n
  proof -
    have "n \<in> fst ` set tables \<longleftrightarrow> Header n \<in> set (map item_of (str_lines text)) \<and> n \<noteq> ''DEFAULT''"
      using ts(2) by simp
    moreover have "n \<in> fst ` set tables \<longleftrightarrow> (\<exists>t. (n, t) \<in> set tables)" by force
    ultimately show ?thesis unfolding initiators_def using conn [of n] by blast
  qed
  then show "initiators (map item_of (str_lines text)) = {name}" using hit by auto
qed

lemma parse_client_described:
  assumes "select_session sections ''initiator'' = Ok keys" "bt_ordered keys"
    and "merged_sections text = Ok sections" "parse_client_cfg decimal text = Ok s"
  shows "describes decimal (\<lambda>k. bt_get k keys) s \<and> deviates (\<lambda>k. bt_get k keys) s \<and> initiator_wf s"
proof -
  from assms(1,3,4) obtain custom fields where
    fields: "custom_logon_fields keys = Ok custom" "add_credentials keys credential_keys custom = Ok fields"
      "is_logon_fields s = sort_key fst fields"
    by (auto simp: parse_client_cfg_def bindR_eq_Ok split: if_splits option.splits)
  have get: "bt_get k keys = Some v \<longleftrightarrow> (k, v) \<in> set keys" for k v
    by (simp add: bt_get_def map_of_Some_iff [OF assms(2)])
  have logon: "set (is_logon_fields s) = logon_reads (\<lambda>k. bt_get k keys)"
    using custom_logon_fields_Ok [OF fields(1)] add_credentials_Ok [OF fields(2)]
    by (simp add: fields(3) logon_reads_def get present_nonempty)
  have "set fields = set custom \<union> {(tag, v). \<exists>k. (tag, k) \<in> set credential_keys \<and> present keys k = Some v}"
    by (rule add_credentials_Ok [OF fields(2)])
  moreover have "\<forall>(tag, v) \<in> set custom. tag \<noteq> 0 \<and> v \<noteq> []" using custom_logon_fields_Ok [OF fields(1)] by blast
  ultimately have ok: "\<forall>(tag, v) \<in> set (is_logon_fields s). tag \<noteq> 0 \<and> v \<noteq> []"
    by (auto simp: fields(3) credential_keys_def)
  have sorted: "sorted (map fst (is_logon_fields s))" by (simp add: fields(3))
  note parsed = assms(4) [unfolded parse_client_cfg_def assms(3) assms(1) fields(1,2) bindR_simps]
  show ?thesis
    using parsed logon ok sorted unfolding describes_def deviates_def initiator_wf_def
    by (clarsimp simp: bindR_eq_Ok value_Ok present_nonempty word_neq_0_conv nonempty_not_Nil unat_ucast_u32
        dest!: port_of_Ok number_port split: if_splits)
qed

lemma parse_client_reads:
  assumes "parse_client_cfg decimal text = Ok s"
  obtains name where "initiators (map item_of (str_lines text)) = {name}"
    "describes decimal (effective (map item_of (str_lines text)) name) s"
    "deviates (effective (map item_of (str_lines text)) name) s" "initiator_wf s"
proof -
  from assms obtain tables keys where m: "merged_sections text = Ok tables" "select_session tables ''initiator'' = Ok keys"
    by (auto simp: parse_client_cfg_def bindR_eq_Ok)
  then obtain name where "filter (\<lambda>(name, keys). connects_as ''initiator'' keys) tables = [(name, keys)]"
    by (auto simp: select_session_Ok)
  with merged_initiator [OF m(1) this] parse_client_described [OF m(2) _ m(1) assms] that show ?thesis by auto
qed

section \<open>Properties\<close>

definition client_text :: string where
  "client_text = ''[DEFAULT]'' @ LF # ''Password=p'' @ LF # ''HeartBtInt=30'' @ LF # ''[t]'' @ LF # ''BeginString=FIX.4.4'' @ LF #
     ''TargetCompID = T'' @ LF # ''SenderCompID=S'' @ LF # ''ConnectionType=Initiator'' @ LF # ''LogonField.50=1'' @ LF #
     ''HeartBtInt=9'' @ LF # ''SocketConnectHost=h''"

lemmas cfg_eval = str_lines.simps strip_cr_def strip_suffix_def strip_prefix_def ends_with_def split_once_def
  item_of_def trim_def trim_start_def trim_end_def trim_with.simps whitespace_def

lemma client_items:
  "map item_of (str_lines client_text) =
     [Header ''DEFAULT'', Assign ''Password'' ''p'', Assign ''HeartBtInt'' ''30'', Header ''t'', Assign ''BeginString'' ''FIX.4.4'',
      Assign ''TargetCompID'' ''T'', Assign ''SenderCompID'' ''S'', Assign ''ConnectionType'' ''Initiator'',
      Assign ''LogonField.50'' ''1'', Assign ''HeartBtInt'' ''9'', Assign ''SocketConnectHost'' ''h'']"
  by (simp add: client_text_def cfg_eval)

definition client_session :: "string initiator_session" where
  "client_session = \<lparr>is_begin_string = ''FIX.4.4'', is_sender_comp_id = ''S'', is_target_comp_id = ''T'', is_host = ''h'',
     is_port = 0, is_heartbeat_interval_secs = 9, is_reconnect_interval_secs = 10, is_connect_timeout_ms = 5000,
     is_logon_fields = [(50, ''1''), (554, ''p'')], is_max_quantity = ''10000'', is_max_notional = ''100000000'',
     is_allow_market_orders = False, is_max_messages_per_second = 20, is_reset_seq_num_flag = False,
     is_file_log_path = None, is_file_store_path = None\<rparr>"

lemma client_parsed: "parse_client_cfg Some client_text = Ok client_session"
proof -
  have "merged_sections client_text = Ok [(''t'', [(''BeginString'', ''FIX.4.4''), (''ConnectionType'', ''Initiator''),
      (''HeartBtInt'', ''9''), (''LogonField.50'', ''1''), (''Password'', ''p''), (''SenderCompID'', ''S''),
      (''SocketConnectHost'', ''h''), (''TargetCompID'', ''T'')])]"
    by (simp add: merged_sections_def client_text_def cfg_eval merge_start_def cfg_line_def bt_or_default_def bt_get_def
        combine_def bt_extend_def)
  then show ?thesis
    by (simp add: parse_client_cfg_def select_session_def connects_as_def bt_get_def present_def required_def parsed_u64_def
        parsed_decimal_def parsed_bool_def port_of_def eq_ignore_ascii_case_def to_ascii_lowercase_def ascii_lower_def
        char_of_eval logon_field_prefix_def strip_prefix_def credential_keys_def parse_u32_def parse_u64_def parse_uint_def
        dec_value_def digit_value_def is_digit_unat client_session_def)
qed

text \<open>C37: the sections the parser returns are what the file says, whatever the order of its parts. A line that is
  neither blank, a comment, a header nor an assignment is refused with its number and text, the first of
  them; otherwise there is one table for every header other than DEFAULT, in the order of the names, and a
  key in it has the last value assigned under that header, or else the last one assigned under DEFAULT.\<close>

theorem cfg_sections_meaning:
  "if Unreadable \<in> set (map item_of (str_lines text))
   then \<exists>i < length (str_lines text). item_of (str_lines text ! i) = Unreadable
     \<and> (\<forall>j < i. item_of (str_lines text ! j) \<noteq> Unreadable)
     \<and> merged_sections text = Err (ExpectedKeyValue (i + 1) (str_lines text ! i))
   else \<exists>tables. merged_sections text = Ok tables \<and> bt_ordered tables
     \<and> fst ` set tables = {n. Header n \<in> set (map item_of (str_lines text))} - {''DEFAULT''}
     \<and> (\<forall>(name, t) \<in> set tables. bt_ordered t \<and> (\<forall>k. bt_get k t = effective (map item_of (str_lines text)) name k))"
proof (cases "Unreadable \<in> set (map item_of (str_lines text))")
  case True
  show ?thesis by (rule unreadable_refused [OF True]) (use True in auto)
next
  case False
  show ?thesis by (rule readable_merged [OF False]) (use False in auto)
qed

theorem cfg_sections_meaning_witness:
  "\<exists>t. merged_sections client_text = Ok [(''t'', t)] \<and> bt_get ''HeartBtInt'' t = Some ''9'' \<and> bt_get ''Password'' t = Some ''p''"
proof -
  have "Unreadable \<notin> set (map item_of (str_lines client_text))" unfolding client_items by simp
  then obtain tables where t: "merged_sections client_text = Ok tables" "bt_ordered tables"
      "fst ` set tables = {n. Header n \<in> set (map item_of (str_lines client_text))} - {''DEFAULT''}"
      "\<forall>(name, t) \<in> set tables. bt_ordered t \<and> (\<forall>k. bt_get k t = effective (map item_of (str_lines client_text)) name k)"
    using cfg_sections_meaning [of client_text] by (simp only: if_False) blast
  then have "fst ` set tables = {''t''}" unfolding client_items by auto
  with t(2) obtain own where own: "tables = [(''t'', own)]"
    by (cases tables; cases "tl tables") (auto simp: bt_ordered_def)
  from t(4) [unfolded own client_items] have "bt_get k own = effective
     [Header ''DEFAULT'', Assign ''Password'' ''p'', Assign ''HeartBtInt'' ''30'', Header ''t'', Assign ''BeginString'' ''FIX.4.4'',
      Assign ''TargetCompID'' ''T'', Assign ''SenderCompID'' ''S'', Assign ''ConnectionType'' ''Initiator'',
      Assign ''LogonField.50'' ''1'', Assign ''HeartBtInt'' ''9'', Assign ''SocketConnectHost'' ''h''] ''t'' k" for k
    by simp
  then show ?thesis by (intro exI [of _ own]) (simp add: t(1) own effective_def says_def)
qed

text \<open>C38: how a client configuration is read, and the two places where it is not read as documented. The parser never
  panics; an accepted file declares exactly one initiator section, every field of the session is the value
  the file gives to its key there (the documented default when it gives none), and the session is well formed: its identities
  and its host are not empty, the heartbeat is positive, and the Logon fields are in the order of their tags.
  The exceptions are the port and the rate limit: a missing SocketConnectPort, which the documentation of fixd
  lists as required, is accepted as port 0, and a MaxMessagesPerSecond of \<open>2 ^ 32\<close> or more is cut to its
  lower 32 bits; below that the limit is the file's number.\<close>

theorem client_cfg_typed:
  assumes "decimal ''10000'' \<noteq> None" "decimal ''100000000'' \<noteq> None"
  shows "parse_client_cfg decimal text \<noteq> Panic
    \<and> (\<forall>s. parse_client_cfg decimal text = Ok s \<longrightarrow>
         (\<exists>name. initiators (map item_of (str_lines text)) = {name}
            \<and> describes decimal (effective (map item_of (str_lines text)) name) s
            \<and> deviates (effective (map item_of (str_lines text)) name) s \<and> initiator_wf s))"
proof (intro conjI allI impI)
  show "parse_client_cfg decimal text \<noteq> Panic"
    by (simp add: parse_client_cfg_def bindR_eq_Panic assms)
  fix s assume "parse_client_cfg decimal text = Ok s"
  then show "\<exists>name. initiators (map item_of (str_lines text)) = {name}
      \<and> describes decimal (effective (map item_of (str_lines text)) name) s
      \<and> deviates (effective (map item_of (str_lines text)) name) s \<and> initiator_wf s"
    by (rule parse_client_reads) blast
qed

theorem client_cfg_typed_witness:
  "\<exists>name. initiators (map item_of (str_lines client_text)) = {name}
    \<and> describes Some (effective (map item_of (str_lines client_text)) name) client_session
    \<and> deviates (effective (map item_of (str_lines client_text)) name) client_session \<and> initiator_wf client_session"
proof -
  from client_cfg_typed [of Some client_text] show ?thesis by (simp add: client_parsed)
qed

end
