(* ===== verification/Fix_Ipc.thy ===== *)
theory Fix_Ipc
  imports Fix_Bytes
begin

text \<open>
  The framing of \<open>crates/fix-ipc/src/lib.rs\<close>: a JSON value behind its length in four big-endian bytes.

  \<open>serde_json\<close> is a parameter: \<open>to_vec\<close> and \<open>from_slice\<close>. A stream is the bytes that are on it; what
  its three calls (two \<open>write_all\<close> and the \<open>flush\<close>) do is \<open>faults\<close>: \<open>Some (k, m)\<close> fails call \<open>n\<close> with the
  text \<open>m\<close> after \<open>k\<close> bytes of it went out.
\<close>

section \<open>Frames\<close>

datatype ipc_error = FrameTooLarge nat nat | IpcIo string | IpcJson string

fun ipc_error_string :: "ipc_error \<Rightarrow> string" where
  "ipc_error_string (FrameTooLarge actual maximum) =
     ''IPC frame length '' @ dec actual @ '' exceeds maximum '' @ dec maximum"
| "ipc_error_string (IpcIo m) = ''IPC I/O error: '' @ m"
| "ipc_error_string (IpcJson m) = ''IPC JSON error: '' @ m"

type_synonym ipc_faults = "nat \<Rightarrow> (nat \<times> string) option"

definition u32_max :: nat where
  "u32_max = 2 ^ 32 - 1"

definition write_all :: "ipc_faults \<Rightarrow> nat \<Rightarrow> bytes \<Rightarrow> bytes \<Rightarrow> bytes \<times> (ipc_error, unit) result" where
  "write_all faults n data out = (case faults n of
     None \<Rightarrow> (out @ data, Ok ())
   | Some (k, m) \<Rightarrow> (out @ take k data, Err (IpcIo m)))"

definition write_json_frame ::
    "('a \<Rightarrow> (string, bytes) result) \<Rightarrow> ipc_faults \<Rightarrow> 'a \<Rightarrow> nat \<Rightarrow> bytes \<Rightarrow> bytes \<times> (ipc_error, unit) result" where
  "write_json_frame to_vec faults v maximum out =
     (case map_err IpcJson (to_vec v) of
        Err e \<Rightarrow> (out, Err e)
      | Panic \<Rightarrow> (out, Panic)
      | Ok payload \<Rightarrow>
          if maximum < length payload \<or> u32_max < length payload
          then (out, Err (FrameTooLarge (length payload) maximum))
          else
            (case write_all faults 0 (be_bytes 4 (length payload)) out of
               (out1, Ok _) \<Rightarrow>
                 (case write_all faults 1 payload out1 of
                    (out2, Ok _) \<Rightarrow> write_all faults 2 [] out2
                  | failed \<Rightarrow> failed)
             | failed \<Rightarrow> failed))"

text \<open>\<open>read_exact\<close> on a stream that ends after the given bytes.\<close>

definition read_exact :: "nat \<Rightarrow> bytes \<Rightarrow> bytes \<times> (ipc_error, bytes) result" where
  "read_exact n input =
     (if length input < n then ([], Err (IpcIo ''early eof'')) else (drop n input, Ok (take n input)))"

definition read_json_frame ::
    "(bytes \<Rightarrow> (string, 'a) result) \<Rightarrow> nat \<Rightarrow> bytes \<Rightarrow> bytes \<times> (ipc_error, 'a) result" where
  "read_json_frame from_slice maximum input =
     (case read_exact 4 input of
        (input1, Ok header) \<Rightarrow>
          if maximum < be_value header
          then (input1, Err (FrameTooLarge (be_value header) maximum))
          else
            (case read_exact (be_value header) input1 of
               (input2, Ok payload) \<Rightarrow> (input2, map_err IpcJson (from_slice payload))
             | (input2, Err e) \<Rightarrow> (input2, Err e)
             | (input2, Panic) \<Rightarrow> (input2, Panic))
      | (input1, Err e) \<Rightarrow> (input1, Err e)
      | (input1, Panic) \<Rightarrow> (input1, Panic))"

definition endpoint_for_profile :: "string \<Rightarrow> string" where
  "endpoint_for_profile profile = ''/tmp/fixd.'' @ profile @ ''.sock''"

section \<open>The listener\<close>

text \<open>
  \<open>LocalListener::bind\<close> on Unix, and its \<open>drop\<close>. The file system is what stands at the path; \<open>faults n\<close>
  is the error of the \<open>n\<close>th system call (\<open>symlink_metadata\<close>, \<open>remove_file\<close>, \<open>bind\<close>, \<open>set_permissions\<close>), and
  \<open>busy\<close> the system's error for a path that is taken. A new socket has the mode \<open>umask\<close> leaves.
\<close>

datatype path_entry = Absent | SocketFile nat | OtherFile

definition bind_listener ::
    "(nat \<Rightarrow> string option) \<Rightarrow> string \<Rightarrow> nat \<Rightarrow> string \<Rightarrow> path_entry \<Rightarrow> path_entry \<times> (ipc_error, unit) result" where
  "bind_listener faults busy umask path entry =
     (let seen = entry \<noteq> Absent \<and> faults 0 = None in
      if seen \<and> entry = OtherFile
      then (entry, Err (IpcIo (''refusing to replace non-socket IPC path '' @ path)))
      else
        (case (if seen then faults 1 else None) of
           Some m \<Rightarrow> (entry, Err (IpcIo m))
         | None \<Rightarrow>
             let free = (if seen then Absent else entry) in
             if free \<noteq> Absent then (free, Err (IpcIo busy))
             else (case faults 2 of
                Some m \<Rightarrow> (free, Err (IpcIo m))
              | None \<Rightarrow>
                  (case faults 3 of
                     Some m \<Rightarrow> (SocketFile umask, Err (IpcIo m))
                   | None \<Rightarrow> (SocketFile 384, Ok ())))))"

definition drop_listener :: "(nat \<Rightarrow> string option) \<Rightarrow> path_entry \<Rightarrow> path_entry" where
  "drop_listener faults entry = (if faults 0 = None then Absent else entry)"

text \<open>Binding never touches a file that is not a socket, and a bound path is a socket of its owner alone.\<close>

lemma bind_listener_safe:
  assumes "bind_listener faults busy umask path entry = (entry', r)"
  shows "entry = OtherFile \<Longrightarrow> entry' = OtherFile \<and> r \<noteq> Ok ()" "r = Ok () \<Longrightarrow> entry' = SocketFile 384"
  using assms by (auto simp: bind_listener_def Let_def split: if_splits option.splits)

section \<open>Streams of frames\<close>

text \<open>The frames of a list of values on one stream, written and read one after the other.\<close>

fun write_frames ::
    "('a \<Rightarrow> (string, bytes) result) \<Rightarrow> nat \<Rightarrow> 'a list \<Rightarrow> bytes \<Rightarrow> bytes \<times> (ipc_error, unit) result" where
  "write_frames to_vec maximum [] out = (out, Ok ())"
| "write_frames to_vec maximum (v # vs) out = (case write_json_frame to_vec (\<lambda>_. None) v maximum out of
     (out', Ok _) \<Rightarrow> write_frames to_vec maximum vs out'
   | failed \<Rightarrow> failed)"

fun read_frames ::
    "(bytes \<Rightarrow> (string, 'a) result) \<Rightarrow> nat \<Rightarrow> nat \<Rightarrow> bytes \<Rightarrow> bytes \<times> (ipc_error, 'a list) result" where
  "read_frames from_slice maximum 0 input = (input, Ok [])"
| "read_frames from_slice maximum (Suc n) input = (case read_json_frame from_slice maximum input of
     (input', Ok v) \<Rightarrow> (case read_frames from_slice maximum n input' of (rest, r) \<Rightarrow> (rest, bindR r (\<lambda>vs. Ok (v # vs))))
   | (input', Err e) \<Rightarrow> (input', Err e)
   | (input', Panic) \<Rightarrow> (input', Panic))"

lemmas [fix_eval] = u32_max_def write_all_def write_json_frame_def read_exact_def read_json_frame_def

section \<open>One frame\<close>

lemma u32_max_numeral: "u32_max = 4294967295"
  by (simp add: u32_max_def)

lemma write_frame_Ok:
  "write_json_frame to_vec (\<lambda>_. None) v maximum out = (out', Ok u) \<longleftrightarrow>
     (\<exists>payload. to_vec v = Ok payload \<and> length payload \<le> maximum \<and> length payload \<le> u32_max
        \<and> out' = out @ be_bytes 4 (length payload) @ payload)"
  by (auto simp: write_json_frame_def write_all_def not_less split: result.splits)

lemma read_frame_written:
  assumes "length payload \<le> maximum" "length payload \<le> u32_max"
  shows "read_json_frame from_slice maximum (be_bytes 4 (length payload) @ payload @ rest)
    = (rest, map_err IpcJson (from_slice payload))"
proof -
  have "length payload < 256 ^ 4" using assms(2) by (simp add: u32_max_def)
  then show ?thesis using assms(1) by (simp add: read_json_frame_def read_exact_def)
qed

section \<open>Properties\<close>

text \<open>C31: the framing is transparent. Values that serde prints and parses back, written one after the other
  on a stream, are read back in the same order, and what follows them stays on the stream.\<close>

theorem frames_round_trip:
  assumes "write_frames to_vec maximum vs [] = (wire, Ok ())"
    and "\<forall>v \<in> set vs. \<forall>payload. to_vec v = Ok payload \<longrightarrow> from_slice payload = Ok v"
  shows "read_frames from_slice maximum (length vs) (wire @ rest) = (rest, Ok vs)"
proof -
  have "\<exists>sent. wire = out @ sent \<and> read_frames from_slice maximum (length vs) (sent @ rest) = (rest, Ok vs)"
    if "write_frames to_vec maximum vs out = (wire, Ok ())" for out
    using that assms(2)
  proof (induction vs arbitrary: out)
    case (Cons v vs)
    obtain out' x where x: "write_json_frame to_vec (\<lambda>_. None) v maximum out = (out', x)" by fastforce
    with Cons.prems(1) have "x = Ok ()" by (auto split: result.splits)
    with x obtain payload where p: "to_vec v = Ok payload" "length payload \<le> maximum" "length payload \<le> u32_max"
        "out' = out @ be_bytes 4 (length payload) @ payload"
      by (auto simp: write_frame_Ok)
    from Cons.prems(1) x \<open>x = Ok ()\<close> have "write_frames to_vec maximum vs out' = (wire, Ok ())" by simp
    with Cons.IH [of out'] Cons.prems(2) obtain sent
      where sent: "wire = out' @ sent" "read_frames from_slice maximum (length vs) (sent @ rest) = (rest, Ok vs)" by auto
    have "from_slice payload = Ok v" using Cons.prems(2) p(1) by simp
    with sent(2) read_frame_written [OF p(2,3), of from_slice "sent @ rest"] show ?case
      by (intro exI [of _ "be_bytes 4 (length payload) @ payload @ sent"]) (simp add: sent(1) p(4))
  qed simp
  from this [OF assms(1)] show ?thesis by auto
qed

theorem frames_round_trip_witness:
  "read_frames (\<lambda>bs. Ok (str_of_bytes bs)) 16 2 (be_bytes 4 2 @ as_bytes ''hi'' @ be_bytes 4 3 @ as_bytes ''you'' @ [7])
    = ([7], Ok [''hi'', ''you''])"
proof -
  have "write_frames (\<lambda>s. Ok (as_bytes s)) 16 [''hi'', ''you''] []
      = (be_bytes 4 2 @ as_bytes ''hi'' @ be_bytes 4 3 @ as_bytes ''you'', Ok ())"
    by (simp add: write_json_frame_def write_all_def u32_max_numeral numeral_2_eq_2 numeral_3_eq_3)
  from frames_round_trip [OF this, of "\<lambda>bs. Ok (str_of_bytes bs)" "[7]"] show ?thesis by (simp only: list.size) (simp add: numeral_2_eq_2)
qed

text \<open>C32: a frame is bounded on both sides. A value longer than the maximum is refused before a byte is
  written, whatever the stream would have done; the reader takes at most the header and the maximum from the
  stream whatever the peer sends, and refuses a longer announced length without touching the payload.\<close>

theorem frames_bounded:
  assumes "to_vec v = Ok payload" "maximum < length payload" "maximum < claimed" "claimed \<le> u32_max"
  shows "write_json_frame to_vec faults v maximum out = (out, Err (FrameTooLarge (length payload) maximum))
    \<and> length input \<le> length (fst (read_json_frame from_slice maximum input)) + 4 + maximum
    \<and> read_json_frame from_slice maximum (be_bytes 4 claimed @ rest) = (rest, Err (FrameTooLarge claimed maximum))"
proof -
  have "claimed < 256 ^ 4" using assms(4) by (simp add: u32_max_def)
  then show ?thesis using assms
    by (auto simp: write_json_frame_def read_json_frame_def read_exact_def split: result.splits)
qed

theorem frames_bounded_witness:
  "read_json_frame (\<lambda>bs. Ok (str_of_bytes bs)) 2 (be_bytes 4 3 @ as_bytes ''you'')
    = (as_bytes ''you'', Err (FrameTooLarge 3 2))"
  using frames_bounded [of "\<lambda>s. Ok (as_bytes s)" "''you''" "as_bytes ''you''" 2 3 "\<lambda>_. None" "[]" "[]" "\<lambda>bs. Ok (str_of_bytes bs)" "as_bytes ''you''"]
  by (simp add: u32_max_numeral)

end
