(* ===== verification/Fix_Logging.thy ===== *)
theory Fix_Logging
  imports Fix_Session
begin

text \<open>
  The log files of \<open>crates/fix-session/src/logging.rs\<close>: one file of wire messages and one of events
  per weekday, opened at the first write and again when the date has changed.

  A \<open>Date\<close> is its Julian day number. A write asks the clock up to three times: for the date of the
  check, for the date under which the files are opened and for the text of the timestamp; these are
  its \<open>moment\<close>. The disk takes what is written (the code ignores the results of writing); opening a file
  may fail, which panics.
\<close>

section \<open>The logger\<close>

record open_logs =
  ol_day :: nat
  ol_messages :: string
  ol_events :: string

record logger =
  lg_dir :: string
  lg_prefix :: string
  lg_open :: "open_logs option"
  lg_files :: "string \<Rightarrow> bytes"

record moment =
  mo_check :: nat
  mo_open :: nat
  mo_stamp :: string

definition weekday_token :: "nat \<Rightarrow> string" where
  "weekday_token day = [''Mon'', ''Tue'', ''Wed'', ''Thu'', ''Fri'', ''Sat'', ''Sun''] ! (day mod 7)"

definition new_logger :: "string \<Rightarrow> string \<Rightarrow> (string \<Rightarrow> bytes) \<Rightarrow> logger option" where
  "new_logger dir prefix disk = Some \<lparr>lg_dir = dir, lg_prefix = prefix, lg_open = None, lg_files = disk\<rparr>"

definition disabled_logger :: "logger option" where
  "disabled_logger = None"

text \<open>\<open>Path::join\<close>.\<close>

definition path_join :: "string \<Rightarrow> string \<Rightarrow> string" where
  "path_join directory file =
     (if starts_with file ''/'' then file
      else if directory = [] \<or> last directory = CHR ''/'' then directory @ file
      else directory @ ''/'' @ file)"

definition log_path :: "logger \<Rightarrow> string \<Rightarrow> nat \<Rightarrow> string" where
  "log_path l kind day = path_join (lg_dir l) (lg_prefix l @ ''_'' @ kind @ ''_'' @ weekday_token day @ ''-0.log'')"

definition open_files :: "(string \<Rightarrow> bool) \<Rightarrow> nat \<Rightarrow> logger \<Rightarrow> (unit, logger) result" where
  "open_files openable day l =
     (let messages = log_path l ''Messages'' day; events = log_path l ''Event'' day in
      if openable messages \<and> openable events
      then Ok (l\<lparr>lg_open := Some \<lparr>ol_day = day, ol_messages = messages, ol_events = events\<rparr>\<rparr>)
      else Panic)"

definition ensure_current :: "(string \<Rightarrow> bool) \<Rightarrow> moment \<Rightarrow> logger \<Rightarrow> (unit, logger) result" where
  "ensure_current openable t l = (case lg_open l of
     Some logs \<Rightarrow> if ol_day logs = mo_check t then Ok l else open_files openable (mo_open t) l
   | None \<Rightarrow> open_files openable (mo_open t) l)"

definition append_file :: "string \<Rightarrow> bytes \<Rightarrow> logger \<Rightarrow> logger" where
  "append_file path data l = l\<lparr>lg_files := (lg_files l)(path := lg_files l path @ data)\<rparr>"

definition write_message_line :: "(string \<Rightarrow> bool) \<Rightarrow> moment \<Rightarrow> string \<Rightarrow> bytes \<Rightarrow> logger \<Rightarrow> (unit, logger) result" where
  "write_message_line openable t direction wire l =
     bindR (ensure_current openable t l) (\<lambda>l.
     case lg_open l of
       None \<Rightarrow> Ok l
     | Some logs \<Rightarrow> Ok (append_file (ol_messages logs) (as_bytes (mo_stamp t @ '': '' @ direction @ '' '') @ wire @ [10]) l))"

definition write_event_line :: "(string \<Rightarrow> bool) \<Rightarrow> moment \<Rightarrow> string \<Rightarrow> string \<Rightarrow> logger \<Rightarrow> (unit, logger) result" where
  "write_event_line openable t level m l =
     bindR (ensure_current openable t l) (\<lambda>l.
     case lg_open l of
       None \<Rightarrow> Ok l
     | Some logs \<Rightarrow> Ok (append_file (ol_events logs) (as_bytes (mo_stamp t @ '': '' @ level @ '' '' @ m) @ [10]) l))"

text \<open>The methods of \<open>SessionLogger\<close>; the constructors of \<open>log_line\<close> are named after them.\<close>

fun log_write :: "(string \<Rightarrow> bool) \<Rightarrow> moment \<Rightarrow> log_line \<Rightarrow> logger option \<Rightarrow> (unit, logger option) result" where
  "log_write openable t line None = Ok None"
| "log_write openable t (Incoming wire) (Some l) = bindR (write_message_line openable t ''incoming'' wire l) (\<lambda>l. Ok (Some l))"
| "log_write openable t (Outgoing wire) (Some l) = bindR (write_message_line openable t ''outgoing'' wire l) (\<lambda>l. Ok (Some l))"
| "log_write openable t (Info m) (Some l) = bindR (write_event_line openable t ''INFO'' m l) (\<lambda>l. Ok (Some l))"
| "log_write openable t (Error m) (Some l) = bindR (write_event_line openable t ''ERROR'' m l) (\<lambda>l. Ok (Some l))"

fun log_run :: "(string \<Rightarrow> bool) \<Rightarrow> (moment \<times> log_line) list \<Rightarrow> logger option \<Rightarrow> (unit, logger option) result" where
  "log_run openable [] l = Ok l"
| "log_run openable ((t, line) # rest) l = bindR (log_write openable t line l) (log_run openable rest)"

section \<open>What the files hold\<close>

fun line_kind :: "log_line \<Rightarrow> string" where
  "line_kind (Incoming _) = ''Messages''"
| "line_kind (Outgoing _) = ''Messages''"
| "line_kind _ = ''Event''"

fun line_text :: "moment \<Rightarrow> log_line \<Rightarrow> bytes" where
  "line_text t (Incoming wire) = as_bytes (mo_stamp t @ '': incoming '') @ wire @ [10]"
| "line_text t (Outgoing wire) = as_bytes (mo_stamp t @ '': outgoing '') @ wire @ [10]"
| "line_text t (Info m) = as_bytes (mo_stamp t @ '': INFO '' @ m) @ [10]"
| "line_text t (Error m) = as_bytes (mo_stamp t @ '': ERROR '' @ m) @ [10]"

text \<open>The two names of the open files are those of its day.\<close>

definition logger_ok :: "logger \<Rightarrow> bool" where
  "logger_ok l \<longleftrightarrow> (\<forall>logs. lg_open l = Some logs \<longrightarrow>
     ol_messages logs = log_path l ''Messages'' (ol_day logs) \<and> ol_events logs = log_path l ''Event'' (ol_day logs))"

lemma log_path_update [simp]: "log_path (l\<lparr>lg_open := x\<rparr>) = log_path l" "log_path (l\<lparr>lg_files := y\<rparr>) = log_path l"
  by (simp_all add: log_path_def fun_eq_iff)

lemma ensure_current_ok:
  assumes "logger_ok l" "mo_check t = mo_open t" "ensure_current openable t l = Ok k"
  obtains logs where "lg_open k = Some logs" "ol_messages logs = log_path l ''Messages'' (mo_check t)"
    "ol_events logs = log_path l ''Event'' (mo_check t)" "lg_files k = lg_files l" "log_path k = log_path l" "logger_ok k"
proof -
  have opened: "\<exists>logs. lg_open k = Some logs \<and> ol_messages logs = log_path l ''Messages'' d
      \<and> ol_events logs = log_path l ''Event'' d \<and> lg_files k = lg_files l \<and> log_path k = log_path l \<and> logger_ok k"
    if "open_files openable d l = Ok k" for d
    using that by (auto simp: open_files_def Let_def logger_ok_def split: if_splits)
  show ?thesis
  proof (cases "\<exists>logs. lg_open l = Some logs \<and> ol_day logs = mo_check t")
    case True
    then obtain logs where "lg_open l = Some logs" "ol_day logs = mo_check t" by blast
    with assms show ?thesis by (intro that [of logs]) (auto simp: ensure_current_def logger_ok_def)
  next
    case False
    with assms(3) have "open_files openable (mo_check t) l = Ok k"
      by (auto simp: ensure_current_def assms(2) split: option.splits if_splits)
    from opened [OF this] that show ?thesis by blast
  qed
qed

lemma log_write_ok:
  assumes "logger_ok l" "mo_check t = mo_open t" "log_write openable t line (Some l) = Ok r"
  obtains k where "r = Some k" "logger_ok k" "log_path k = log_path l"
    "lg_files k = (lg_files l)(log_path l (line_kind line) (mo_check t) :=
       lg_files l (log_path l (line_kind line) (mo_check t)) @ line_text t line)"
proof -
  have appended: "logger_ok (append_file path data k) \<and> log_path (append_file path data k) = log_path k" if "logger_ok k" for path data k
    using that by (simp add: append_file_def logger_ok_def)
  obtain k where k: "ensure_current openable t l = Ok k"
    using assms(3) by (cases line) (auto simp: write_message_line_def write_event_line_def bindR_eq_Ok)
  from ensure_current_ok [OF assms(1,2) k]
  obtain logs where logs: "lg_open k = Some logs" "ol_messages logs = log_path l ''Messages'' (mo_check t)"
    "ol_events logs = log_path l ''Event'' (mo_check t)" "lg_files k = lg_files l" "log_path k = log_path l" "logger_ok k" .
  have "r = Some (append_file (log_path l (line_kind line) (mo_check t)) (line_text t line) k)"
    using assms(3) logs(1-3) by (cases line) (auto simp: write_message_line_def write_event_line_def k)
  then show ?thesis
  proof (rule that)
    show "logger_ok (append_file (log_path l (line_kind line) (mo_check t)) (line_text t line) k)"
      "log_path (append_file (log_path l (line_kind line) (mo_check t)) (line_text t line) k) = log_path l"
      using appended [OF logs(6)] logs(5) by simp_all
  qed (simp add: append_file_def logs(4))
qed

text \<open>
  After a run that did not panic every file holds what it held before and then, in order, the lines of its
  kind written on a day with its weekday. In particular nothing is ever overwritten, and the file
  of a weekday also holds the lines of that weekday a week before.
\<close>

lemma log_run_files:
  assumes "logger_ok l" "\<forall>(t, line) \<in> set run. mo_check t = mo_open t" "log_run openable run (Some l) = Ok r"
  shows "\<exists>k. r = Some k \<and> lg_files k path = lg_files l path @
    concat (map (\<lambda>(t, line). line_text t line) (filter (\<lambda>(t, line). log_path l (line_kind line) (mo_check t) = path) run))"
  using assms
proof (induction run arbitrary: l)
  case (Cons e run)
  obtain t line where e: "e = (t, line)" by fastforce
  with Cons.prems obtain r1 where r1: "log_write openable t line (Some l) = Ok r1" "log_run openable run r1 = Ok r"
    by (auto simp: bindR_eq_Ok)
  from e Cons.prems(2) have "mo_check t = mo_open t" by simp
  from log_write_ok [OF Cons.prems(1) this r1(1)] obtain k where k: "r1 = Some k" "logger_ok k" "log_path k = log_path l"
    "lg_files k = (lg_files l)(log_path l (line_kind line) (mo_check t) :=
       lg_files l (log_path l (line_kind line) (mo_check t)) @ line_text t line)" by blast
  from Cons.IH [OF k(2) _ r1(2) [unfolded k(1)]] Cons.prems(2) show ?case
    by (auto simp: k(3,4) e)
qed auto

end
