(* ===== verification/Fix_Daemon.thy ===== *)
theory Fix_Daemon
  imports Fix_Gateway Fix_Cfg Fix_Ipc Fix_Logging
begin

text \<open>
  The daemon of \<open>crates/fixd\<close>: \<open>run_quickfix_daemon\<close>, which turns a configuration file into the
  parts of the running system, \<open>run_connection_manager\<close>, which keeps a session in the slot of the
  control service, and the loop that serves one control client.

  The file system, the store's \<open>open\<close>, the listener and serde are parameters. The manager's awaits
  (a dial, an event or a status poll of the session, the end of a sleep) are its inputs.
\<close>

section \<open>Starting\<close>

record transport_config =
  tc_host :: string
  tc_port :: "16 word"
  tc_connect_timeout_ms :: u64
  tc_reconnect_initial_ms :: u64
  tc_reconnect_max_ms :: u64

datatype daemon_error = ConfigError string string | DaemonIo string | DaemonStore string | DaemonIpc string

fun daemon_error_string :: "daemon_error \<Rightarrow> string" where
  "daemon_error_string (ConfigError code m) = code @ '': '' @ m"
| "daemon_error_string (DaemonIo m) = ''I/O error: '' @ m"
| "daemon_error_string (DaemonStore m) = ''store error: '' @ m"
| "daemon_error_string (DaemonIpc m) = ''IPC error: '' @ m"

text \<open>What the daemon asks the operating system while it starts.\<close>

record 'st host =
  os_read :: "string \<Rightarrow> (string, bytes) result"
  os_debug :: "string \<Rightarrow> string"
  os_create_parent :: "string \<Rightarrow> (string, unit) result"
  os_open_store :: "string \<Rightarrow> (string, 'st) result"
  os_bind :: "string \<Rightarrow> (string, unit) result"

record ('st, 'd) daemon =
  dm_transport :: transport_config
  dm_session :: session_config
  dm_logon_fields :: "field list"
  dm_store :: 'st
  dm_service :: "'d service"
  dm_log_directory :: string
  dm_log_prefix :: string
  dm_endpoint :: string

definition mul64 :: "u64 \<Rightarrow> u64 \<Rightarrow> ('e, u64) result" where
  "mul64 a b = (if unat a * unat b < 2 ^ 64 then Ok (a * b) else Panic)"

definition profile_name :: "'d initiator_session \<Rightarrow> string" where
  "profile_name s = is_sender_comp_id s @ ''-'' @ is_target_comp_id s"

definition logon_fields_of :: "'d initiator_session \<Rightarrow> field list" where
  "logon_fields_of s = map (\<lambda>(tag, v). Field tag (as_bytes v)) (is_logon_fields s)"

definition database_of :: "'d initiator_session \<Rightarrow> string option \<Rightarrow> string" where
  "database_of s database = (case database of
     Some path \<Rightarrow> path
   | None \<Rightarrow> path_join (case is_file_store_path s of None \<Rightarrow> ''data'' | Some d \<Rightarrow> d) (profile_name s @ ''.redb''))"

definition log_directory_of :: "'d initiator_session \<Rightarrow> string option \<Rightarrow> string" where
  "log_directory_of s log_dir = (case log_dir of
     Some d \<Rightarrow> d
   | None \<Rightarrow> (case is_file_log_path s of None \<Rightarrow> ''logs'' | Some d \<Rightarrow> d))"

definition planner_of :: "'d initiator_session \<Rightarrow> 'd planner" where
  "planner_of s = \<lparr>pl_profile = profile_name s, pl_runtime_mode = RuntimeCertification,
     pl_policy = \<lparr>po_max_quantity = is_max_quantity s, po_max_notional = is_max_notional s,
       po_allow_market_orders = is_allow_market_orders s,
       po_max_messages_per_second = is_max_messages_per_second s\<rparr>\<rparr>"

definition transport_of :: "'d initiator_session \<Rightarrow> (daemon_error, transport_config) result" where
  "transport_of s =
     bindR (mul64 (is_reconnect_interval_secs s) 1000) (\<lambda>initial.
     bindR (mul64 (is_reconnect_interval_secs s) 1000) (\<lambda>maximum.
     Ok \<lparr>tc_host = is_host s, tc_port = is_port s, tc_connect_timeout_ms = is_connect_timeout_ms s,
        tc_reconnect_initial_ms = initial, tc_reconnect_max_ms = maximum\<rparr>))"

definition session_config_of :: "'d initiator_session \<Rightarrow> session_config" where
  "session_config_of s = \<lparr>sc_begin_string = is_begin_string s, sc_sender_comp_id = is_sender_comp_id s,
     sc_target_comp_id = is_target_comp_id s, sc_heartbeat_interval_secs = is_heartbeat_interval_secs s,
     sc_reset_on_logon = is_reset_seq_num_flag s\<rparr>"

definition invalid_config :: "string \<Rightarrow> daemon_error" where
  "invalid_config m = ConfigError ''INVALID_CONFIG'' m"

text \<open>\<open>run_quickfix_daemon\<close> up to its accept loop.\<close>

definition start_daemon ::
    "'st host \<Rightarrow> (string \<Rightarrow> 'd option) \<Rightarrow> string \<Rightarrow> string option \<Rightarrow> string option \<Rightarrow> (daemon_error, ('st, 'd) daemon) result" where
  "start_daemon os decimal cfg_path log_dir database =
     bindR (map_err DaemonIo (read_cfg_lossy (os_read os cfg_path) cfg_path)) (\<lambda>text.
     bindR (map_err (\<lambda>e. invalid_config (''quickfix cfg: '' @ cfg_error_string (os_debug os) e)) (parse_client_cfg decimal text)) (\<lambda>s.
     bindR (map_err (\<lambda>e. invalid_config (session_error_string e)) (validate_custom_logon_fields (logon_fields_of s))) (\<lambda>_.
     bindR (map_err DaemonIo (os_create_parent os (database_of s database))) (\<lambda>_.
     bindR (map_err DaemonStore (os_open_store os (database_of s database))) (\<lambda>store.
     bindR (transport_of s) (\<lambda>transport.
     bindR (map_err DaemonIpc (os_bind os (endpoint_for_profile (profile_name s)))) (\<lambda>_.
     Ok \<lparr>dm_transport = transport, dm_session = session_config_of s, dm_logon_fields = logon_fields_of s,
        dm_store = store, dm_service = \<lparr>sv_planner = planner_of s, sv_has_store = True\<rparr>,
        dm_log_directory = log_directory_of s log_dir,
        dm_log_prefix = is_begin_string s @ ''-'' @ is_sender_comp_id s @ ''-'' @ is_target_comp_id s,
        dm_endpoint = endpoint_for_profile (profile_name s)\<rparr>)))))))"

section \<open>The connection manager\<close>

text \<open>
  A \<open>Duration\<close> is a number of milliseconds here; \<open>checked_mul\<close> fails when the seconds of the product
  exceed a \<open>u64\<close>. The manager is polymorphic in the session handle \<open>'h\<close>.
\<close>

definition double_duration :: "nat \<Rightarrow> nat option" where
  "double_duration d = (if 2 * d div 1000 < 2 ^ 64 then Some (2 * d) else None)"

datatype stage = Dialing | Serving bool | Sleeping

record 'h manager =
  mg_stage :: stage
  mg_slot :: "'h option"
  mg_delay :: nat
  mg_sleeps :: "nat list"
  mg_log :: "log_line list"
  mg_peer :: string

datatype recv_result = Received session_event | Lagged | RecvClosed

datatype 'h manager_input =
    DialFailed
  | Dialed string 'h
  | EventArrived recv_result
  | Polled "(session_error, session_status) result"
  | Slept

definition start_manager :: "transport_config \<Rightarrow> 'h manager" where
  "start_manager T = \<lparr>mg_stage = Dialing, mg_slot = None, mg_delay = unat (tc_reconnect_initial_ms T),
     mg_sleeps = [], mg_log = [], mg_peer = []\<rparr>"

text \<open>To the \<open>sleep\<close> at the end of the outer loop, from a failed dial and from the end of a session.\<close>

definition go_to_sleep :: "'h manager \<Rightarrow> 'h manager" where
  "go_to_sleep m = m\<lparr>mg_stage := Sleeping, mg_sleeps := mg_sleeps m @ [mg_delay m]\<rparr>"

definition end_session :: "transport_config \<Rightarrow> bool \<Rightarrow> 'h manager \<Rightarrow> 'h manager" where
  "end_session T established m =
     go_to_sleep (m\<lparr>mg_slot := None,
       mg_log := mg_log m @ [Info ''Disconnecting'', Info (mg_peer m @ '' OnDisconnected'')],
       mg_delay := (if established then unat (tc_reconnect_initial_ms T) else mg_delay m)\<rparr>)"

fun terminal :: "session_phase \<Rightarrow> bool" where
  "terminal Disconnected = True"
| "terminal Blocked = True"
| "terminal _ = False"

definition on_event :: "transport_config \<Rightarrow> bool \<Rightarrow> recv_result \<Rightarrow> 'h manager \<Rightarrow> 'h manager" where
  "on_event T established e m = (case e of
     Received (PhaseChanged phase) \<Rightarrow>
       if phase = Established then m\<lparr>mg_stage := Serving True, mg_delay := unat (tc_reconnect_initial_ms T)\<rparr>
       else if terminal phase then end_session T established m
       else m
   | Received TransportClosed \<Rightarrow> end_session T established m
   | Received (ProtocolError _) \<Rightarrow> m
   | Lagged \<Rightarrow> m
   | RecvClosed \<Rightarrow> end_session T established m)"

definition on_poll :: "transport_config \<Rightarrow> bool \<Rightarrow> (session_error, session_status) result \<Rightarrow> 'h manager \<Rightarrow> 'h manager" where
  "on_poll T established r m = (case r of
     Ok status \<Rightarrow> if terminal (ss_phase status) then end_session T established m else m
   | Err _ \<Rightarrow> end_session T established m
   | Panic \<Rightarrow> m)"

definition after_sleep :: "transport_config \<Rightarrow> 'h manager \<Rightarrow> 'h manager" where
  "after_sleep T m = m\<lparr>mg_stage := Dialing,
     mg_delay := min (case double_duration (mg_delay m) of Some d \<Rightarrow> d | None \<Rightarrow> unat (tc_reconnect_max_ms T))
       (unat (tc_reconnect_max_ms T))\<rparr>"

text \<open>One await of the manager; the inputs that the stage does not wait for have no effect.\<close>

fun manager_step :: "transport_config \<Rightarrow> 'h manager_input \<Rightarrow> 'h manager \<Rightarrow> 'h manager" where
  "manager_step T DialFailed m = (if mg_stage m = Dialing then go_to_sleep m else m)"
| "manager_step T (Dialed peer h) m =
     (if mg_stage m = Dialing
      then m\<lparr>mg_stage := Serving False, mg_slot := Some h, mg_peer := peer, mg_log := mg_log m @ [Info (peer @ '' OnConnected'')]\<rparr>
      else m)"
| "manager_step T (EventArrived e) m = (case mg_stage m of Serving established \<Rightarrow> on_event T established e m | _ \<Rightarrow> m)"
| "manager_step T (Polled r) m = (case mg_stage m of Serving established \<Rightarrow> on_poll T established r m | _ \<Rightarrow> m)"
| "manager_step T Slept m = (if mg_stage m = Sleeping then after_sleep T m else m)"

section \<open>Serving a control client\<close>

definition frame_limit :: nat where
  "frame_limit = 256 * 1024"

lemma read_frame_consumes: "read_json_frame from_slice maximum input = (rest, Ok v) \<Longrightarrow> length rest < length input"
  by (auto simp: read_json_frame_def read_exact_def split: result.splits if_splits)

text \<open>
  The requests that arrive on the stream are answered one after the other. A timeout of a read is the
  end of the input, one of a write a fault of the stream: in each case the loop returns. \<open>between\<close> and
  \<open>faults\<close> are what the actor and the stream do during the request with the given number.
\<close>

function serve_client ::
    "('d::{linorder, zero}) externals \<Rightarrow> 'st env \<Rightarrow> 'd service \<Rightarrow> (bytes \<Rightarrow> (string, control_request) result)
      \<Rightarrow> (control_response \<Rightarrow> (string, bytes) result) \<Rightarrow> (nat \<Rightarrow> actor_input list) \<Rightarrow> (nat \<Rightarrow> ipc_faults)
      \<Rightarrow> nat \<Rightarrow> bytes \<Rightarrow> bytes \<Rightarrow> 'st world \<Rightarrow> bytes \<times> 'st world" where
  "serve_client X E sv from_slice to_vec between faults n input out w =
     (case read_json_frame from_slice frame_limit input of
        (input', Ok request) \<Rightarrow>
          (case execute X E sv (between n) request w of
             (w', Some response) \<Rightarrow>
               (case write_json_frame to_vec (faults n) response frame_limit out of
                  (out', Ok _) \<Rightarrow> serve_client X E sv from_slice to_vec between faults (Suc n) input' out' w'
                | (out', _) \<Rightarrow> (out', w'))
           | (w', None) \<Rightarrow> (out, w'))
      | (_, _) \<Rightarrow> (out, w))"
  by pat_completeness auto

termination
  by (relation "measure (\<lambda>(X, E, sv, f, t, b, faults, n, input, out, w). length input)")
    (auto simp: read_frame_consumes [OF sym])

declare serve_client.simps [simp del]

text \<open>At most 64 clients are served at a time; a further one is dropped.\<close>

definition client_slots :: nat where
  "client_slots = 64"

datatype client_event = ClientAccepted | ClientDone

fun count_clients :: "client_event \<Rightarrow> nat \<Rightarrow> nat" where
  "count_clients ClientAccepted n = (if n < client_slots then Suc n else n)"
| "count_clients ClientDone n = n - 1"

section \<open>The manager's states\<close>

text \<open>\<open>managed T m n\<close>: the manager can be in \<open>m\<close> when it has slept \<open>n\<close> times since it started or since a
  session was last established.\<close>

definition sleeps_after :: "'h manager \<Rightarrow> 'h manager_input \<Rightarrow> nat \<Rightarrow> nat" where
  "sleeps_after m i n = (case mg_stage m of
     Dialing \<Rightarrow> n
   | Serving _ \<Rightarrow> if i = EventArrived (Received (PhaseChanged Established)) then 0 else n
   | Sleeping \<Rightarrow> if i = Slept then Suc n else n)"

inductive managed :: "transport_config \<Rightarrow> 'h manager \<Rightarrow> nat \<Rightarrow> bool" for T where
  managed_start: "managed T (start_manager T) 0"
| managed_step: "managed T m n \<Longrightarrow> managed T (manager_step T i m) (sleeps_after m i n)"

definition backoff :: "transport_config \<Rightarrow> nat \<Rightarrow> nat" where
  "backoff T n = (if n = 0 then unat (tc_reconnect_initial_ms T)
     else min (unat (tc_reconnect_initial_ms T) * 2 ^ n) (unat (tc_reconnect_max_ms T)))"

definition manager_ok :: "transport_config \<Rightarrow> 'h manager \<Rightarrow> nat \<Rightarrow> bool" where
  "manager_ok T m n \<longleftrightarrow> (mg_slot m \<noteq> None \<longleftrightarrow> (\<exists>e. mg_stage m = Serving e))
     \<and> (mg_stage m = Serving True \<longrightarrow> n = 0)
     \<and> mg_delay m = backoff T n
     \<and> set (mg_sleeps m) \<subseteq> range (backoff T)"

lemma backoff_0 [simp]: "backoff T 0 = unat (tc_reconnect_initial_ms T)"
  by (simp add: backoff_def)

lemma backoff_Suc:
  "min (case double_duration (backoff T n) of Some d \<Rightarrow> d | None \<Rightarrow> unat (tc_reconnect_max_ms T)) (unat (tc_reconnect_max_ms T))
    = backoff T (Suc n)"
proof -
  have "unat (tc_reconnect_max_ms T) < 2 * d" if "\<not> 2 * d div 1000 < 2 ^ 64" for d
    using that unat_u64_less [of "tc_reconnect_max_ms T"] by simp
  then have "min (case double_duration d of Some x \<Rightarrow> x | None \<Rightarrow> unat (tc_reconnect_max_ms T)) (unat (tc_reconnect_max_ms T))
      = min (2 * d) (unat (tc_reconnect_max_ms T))" for d
    by (simp add: double_duration_def)
  then show ?thesis by (auto simp: backoff_def min_def)
qed

lemma end_session_ok:
  assumes "manager_ok T m n" "mg_stage m = Serving e"
  shows "manager_ok T (end_session T e m) n"
  using assms by (auto simp: manager_ok_def end_session_def go_to_sleep_def) (metis backoff_0 rangeI)

lemma on_event_ok:
  assumes "manager_ok T m n" "mg_stage m = Serving b"
  shows "manager_ok T (on_event T b e m) (if e = Received (PhaseChanged Established) then 0 else n)"
proof (cases "e = Received (PhaseChanged Established)")
  case True
  with assms show ?thesis by (auto simp: on_event_def manager_ok_def)
next
  case False
  with assms end_session_ok [OF assms] show ?thesis
    by (auto simp: on_event_def split: recv_result.splits session_event.splits)
qed

lemma manager_step_ok:
  assumes "manager_ok T m n"
  shows "manager_ok T (manager_step T i m) (sleeps_after m i n)"
proof (cases i)
  case (EventArrived e)
  with assms on_event_ok [OF assms, of _ e] show ?thesis by (auto simp: sleeps_after_def split: stage.splits)
next
  case (Polled r)
  with assms end_session_ok [OF assms] show ?thesis
    by (auto simp: sleeps_after_def on_poll_def split: stage.splits result.splits)
next
  case Slept
  with assms show ?thesis
    by (auto simp: manager_ok_def after_sleep_def backoff_Suc sleeps_after_def split: stage.splits)
qed (use assms in \<open>auto simp: manager_ok_def go_to_sleep_def sleeps_after_def split: stage.splits\<close>)

lemma managed_ok: "managed T m n \<Longrightarrow> manager_ok T m n"
proof (induction rule: managed.induct)
  case managed_start
  show ?case by (simp add: manager_ok_def start_manager_def)
next
  case (managed_step m n i)
  then show ?case by (intro manager_step_ok)
qed

section \<open>What the parts hold\<close>

lemma validate_logon_Ok:
  "validate_logon_from seen fs = Ok () \<longleftrightarrow> distinct (map field_tag fs) \<and> set seen \<inter> field_tag ` set fs = {}
     \<and> (\<forall>f \<in> set fs. field_tag f \<notin> logon_managed_tags \<and> SOH \<notin> set (field_value f))"
  by (induction fs arbitrary: seen) auto

lemma mul64_Ok: "mul64 a b = Ok c \<longleftrightarrow> unat a * unat b < 2 ^ 64 \<and> c = a * b"
  by (auto simp: mul64_def)

lemma mul64_unat: "mul64 a b = Ok c \<Longrightarrow> unat c = unat a * unat b"
  by (auto simp: mul64_Ok unat_word_ariths)

lemma transport_parts:
  "transport_of s = Ok T \<Longrightarrow> tc_host T = is_host s \<and> tc_port T = is_port s
     \<and> tc_connect_timeout_ms T = is_connect_timeout_ms s
     \<and> unat (tc_reconnect_initial_ms T) = unat (is_reconnect_interval_secs s) * 1000"
  by (auto simp: transport_of_def bindR_eq_Ok dest!: mul64_unat)

text \<open>Both bounds of the delay are the same number, so it never grows.\<close>

lemma constant_backoff: "transport_of s = Ok T \<Longrightarrow> backoff T n = unat (is_reconnect_interval_secs s) * 1000"
proof -
  assume T: "transport_of s = Ok T"
  then have "unat (tc_reconnect_initial_ms T) = unat (is_reconnect_interval_secs s) * 1000"
      "unat (tc_reconnect_max_ms T) = unat (is_reconnect_interval_secs s) * 1000"
    by (auto simp: transport_of_def bindR_eq_Ok dest!: mul64_unat)
  moreover have "d \<le> d * 2 ^ n" for d :: nat by simp
  ultimately show ?thesis by (simp add: backoff_def min_absorb2)
qed

text \<open>The status the handle of the slot reports.\<close>

lemma slot_status:
  assumes "w_slot w = Some (s, r)" "handle_status E w = (w', status)"
  shows "status = (if r = Running then Ok (session_status_of s) else Err ActorStopped)"
proof (cases "r = Running")
  case True
  obtain x where x: "call E Status w = (w', x)" "status = status_reply x" using assms(2) by (auto split: prod.splits)
  from call_running(1) [OF assms(1) [unfolded True] _ x(1)]
  have "x = Ok (AStatus (session_status_of (s\<lparr>s_store := w_shared w, s_tick := w_clock w\<rparr>)))" by simp
  with x(2) True show ?thesis by (simp add: status_reply_def session_status_of_def)
next
  case False
  with assms call_stopped [of w E Status] show ?thesis by (auto simp: status_reply_def)
qed

section \<open>Properties\<close>

text \<open>\<open>configured\<close>: the parts of the daemon are what the file says, \<open>read\<close> being the values of its
  initiator section.\<close>

definition configured :: "(string \<Rightarrow> 'd option) \<Rightarrow> (string \<Rightarrow> string option) \<Rightarrow> ('st, 'd) daemon \<Rightarrow> bool" where
  "configured decimal read d \<longleftrightarrow>
     (let session = dm_session d; planner = sv_planner (dm_service d); policy = pl_policy planner in
      nonempty read ''BeginString'' = Some (sc_begin_string session)
      \<and> nonempty read ''SenderCompID'' = Some (sc_sender_comp_id session)
      \<and> nonempty read ''TargetCompID'' = Some (sc_target_comp_id session)
      \<and> nonempty read ''SocketConnectHost'' = Some (tc_host (dm_transport d))
      \<and> (\<forall>v. nonempty read ''SocketConnectPort'' = Some v \<longrightarrow> parse_u64 v = Some (ucast (tc_port (dm_transport d))))
      \<and> number read ''ConnectTimeoutMs'' 5000 = Some (tc_connect_timeout_ms (dm_transport d))
      \<and> (\<exists>n. number read ''ReconnectInterval'' 10 = Some n
           \<and> unat (tc_reconnect_initial_ms (dm_transport d)) = unat n * 1000)
      \<and> number read ''HeartBtInt'' 30 = Some (sc_heartbeat_interval_secs session)
      \<and> yes_no read ''ResetSeqNumFlag'' = Some (sc_reset_on_logon session)
      \<and> decimal (case nonempty read ''MaxQuantity'' of None \<Rightarrow> ''10000'' | Some v \<Rightarrow> v) = Some (po_max_quantity policy)
      \<and> decimal (case nonempty read ''MaxNotional'' of None \<Rightarrow> ''100000000'' | Some v \<Rightarrow> v) = Some (po_max_notional policy)
      \<and> yes_no read ''AllowMarketOrders'' = Some (po_allow_market_orders policy)
      \<and> (\<exists>n. number read ''MaxMessagesPerSecond'' 20 = Some n \<and> 0 < n
           \<and> (unat n < 2 ^ 32 \<longrightarrow> unat (po_max_messages_per_second policy) = unat n))
      \<and> set (dm_logon_fields d) = (\<lambda>(tag, v). Field tag (as_bytes v)) ` logon_reads read
      \<and> pl_profile planner = sc_sender_comp_id session @ ''-'' @ sc_target_comp_id session
      \<and> pl_runtime_mode planner = RuntimeCertification \<and> sv_has_store (dm_service d)
      \<and> dm_endpoint d = endpoint_for_profile (pl_profile planner))"

text \<open>C35: a daemon that starts is the daemon its file describes, and one its session can work with. Its
  identities, host and port, timeout, heartbeat, initial reconnect delay, order limits, market-order flag and Logon fields are the file's
  values (or the documented defaults), its profile and endpoint are those a client derives from the two CompIDs, and the
  Logon fields pass the check that every Logon repeats, in strictly ascending order of their tags. Two
  values are the file's only with a proviso, and the theorem says what they are otherwise: a port the file
  does not give is 0, and the limit of messages per second is the file's number when that fits into
  32 bits and its lower 32 bits when it does not. How the reconnect delay grows is not part of this.\<close>

theorem daemon_starts_as_configured:
  assumes "start_daemon os decimal cfg_path log_dir database = Ok d"
  shows "\<exists>text name. read_cfg_lossy (os_read os cfg_path) cfg_path = Ok text
     \<and> initiators (map item_of (str_lines text)) = {name}
     \<and> configured decimal (effective (map item_of (str_lines text)) name) d
     \<and> 0 < sc_heartbeat_interval_secs (dm_session d)
     \<and> validate_custom_logon_fields (dm_logon_fields d) = Ok ()
     \<and> sorted_wrt (<) (map field_tag (dm_logon_fields d))
     \<and> (nonempty (effective (map item_of (str_lines text)) name) ''SocketConnectPort'' = None
          \<longrightarrow> tc_port (dm_transport d) = 0)
     \<and> (\<forall>n. number (effective (map item_of (str_lines text)) name) ''MaxMessagesPerSecond'' 20 = Some n
          \<longrightarrow> 2 ^ 32 \<le> unat n
          \<longrightarrow> unat (po_max_messages_per_second (pl_policy (sv_planner (dm_service d)))) = unat n mod 2 ^ 32)"
proof -
  from assms obtain content s where s: "read_cfg_lossy (os_read os cfg_path) cfg_path = Ok content"
      "parse_client_cfg decimal content = Ok s" "validate_custom_logon_fields (logon_fields_of s) = Ok ()"
      "transport_of s = Ok (dm_transport d)" "dm_session d = session_config_of s" "dm_logon_fields d = logon_fields_of s"
      "dm_service d = \<lparr>sv_planner = planner_of s, sv_has_store = True\<rparr>"
      "dm_endpoint d = endpoint_for_profile (profile_name s)"
    by (auto simp: start_daemon_def bindR_eq_Ok)
  note transport = transport_parts [OF s(4)]
  from parse_client_reads [OF s(2)] obtain name where r: "initiators (map item_of (str_lines content)) = {name}"
      "describes decimal (effective (map item_of (str_lines content)) name) s" "initiator_wf s"
      "deviates (effective (map item_of (str_lines content)) name) s" by blast
  let ?read = "effective (map item_of (str_lines content)) name"
  have tags: "map field_tag (dm_logon_fields d) = map fst (is_logon_fields s)"
    by (simp add: s logon_fields_of_def split_beta comp_def)
  have "distinct (map field_tag (dm_logon_fields d))"
    using s by (simp add: validate_custom_logon_fields_def validate_logon_Ok)
  then have "sorted_wrt (<) (map field_tag (dm_logon_fields d))"
    using r(3) tags by (simp add: strict_sorted_iff initiator_wf_def)
  moreover have "configured decimal ?read d"
    using r(2) by (simp add: configured_def Let_def s transport session_config_of_def planner_of_def profile_name_def describes_def
        logon_fields_of_def)
  moreover have "0 < sc_heartbeat_interval_secs (dm_session d)"
    using r(3) by (simp add: s session_config_of_def initiator_wf_def)
  moreover have "po_max_messages_per_second (pl_policy (sv_planner (dm_service d))) = is_max_messages_per_second s"
    by (simp add: s planner_of_def)
  moreover have "validate_custom_logon_fields (dm_logon_fields d) = Ok ()" by (simp add: s)
  ultimately show ?thesis
    using r(1,4) s(1) transport unfolding deviates_def by (intro exI [of _ content] exI [of _ name]) simp
qed

definition demo_os :: "nat host" where
  "demo_os = \<lparr>os_read = \<lambda>_. Ok (as_bytes client_text), os_debug = \<lambda>s. s, os_create_parent = \<lambda>_. Ok (),
     os_open_store = \<lambda>_. Ok 0, os_bind = \<lambda>_. Ok ()\<rparr>"

theorem daemon_starts_as_configured_witness:
  "\<exists>d :: (nat, string) daemon. start_daemon demo_os Some ''c.cfg'' None None = Ok d \<and> dm_endpoint d = ''/tmp/fixd.S-T.sock''
    \<and> configured Some (effective (map item_of (str_lines client_text)) ''t'') d
    \<and> 0 < sc_heartbeat_interval_secs (dm_session d) \<and> validate_custom_logon_fields (dm_logon_fields d) = Ok ()"
proof -
  have "utf8_valid (as_bytes client_text)" by (rule utf8_valid_ascii) (simp add: client_text_def)
  then have read: "read_cfg_lossy (os_read demo_os ''c.cfg'') ''c.cfg'' = Ok client_text"
    by (simp add: read_cfg_lossy_def demo_os_def from_utf8_def)
  moreover have "validate_custom_logon_fields (logon_fields_of client_session) = Ok ()"
    by (simp add: validate_custom_logon_fields_def logon_fields_of_def client_session_def logon_managed_tags_def)
  moreover have "transport_of client_session \<noteq> Panic" "\<And>e. transport_of client_session \<noteq> Err e"
    by (simp_all add: transport_of_def mul64_def client_session_def)
  then obtain T where "transport_of client_session = Ok T" by (cases "transport_of client_session") auto
  ultimately have "\<exists>d :: (nat, string) daemon. start_daemon demo_os Some ''c.cfg'' None None = Ok d
      \<and> dm_endpoint d = ''/tmp/fixd.S-T.sock''"
    by (simp add: start_daemon_def client_parsed) (simp add: demo_os_def endpoint_for_profile_def profile_name_def client_session_def)
  then obtain d :: "(nat, string) daemon" where "start_daemon demo_os Some ''c.cfg'' None None = Ok d"
    "dm_endpoint d = ''/tmp/fixd.S-T.sock''" by blast
  moreover from daemon_starts_as_configured [OF this(1)] obtain name where
    "initiators (map item_of (str_lines client_text)) = {name}"
    "configured Some (effective (map item_of (str_lines client_text)) name) d"
    "0 < sc_heartbeat_interval_secs (dm_session d)" "validate_custom_logon_fields (dm_logon_fields d) = Ok ()"
    using read by auto
  moreover from this(1) have "name = ''t''" unfolding client_items by (auto simp: initiators_def set_eq_iff)
  ultimately show ?thesis by blast
qed

text \<open>C39: the connection manager keeps the slot and the delay right in every state it can reach. The slot
  of the control service holds a session exactly while the manager serves one; the next sleep is the
  initial delay, doubled for every sleep since a session was last established and cut at the maximum; and
  every sleep it ever took was such a delay.\<close>

theorem manager_keeps_slot_and_backoff:
  assumes "managed T m n"
  shows "(mg_slot m \<noteq> None \<longleftrightarrow> (\<exists>e. mg_stage m = Serving e))
    \<and> mg_delay m = (if n = 0 then unat (tc_reconnect_initial_ms T)
        else min (unat (tc_reconnect_initial_ms T) * 2 ^ n) (unat (tc_reconnect_max_ms T)))
    \<and> (\<forall>d \<in> set (mg_sleeps m). \<exists>k. d = (if k = 0 then unat (tc_reconnect_initial_ms T)
        else min (unat (tc_reconnect_initial_ms T) * 2 ^ k) (unat (tc_reconnect_max_ms T))))
    \<and> (\<forall>d \<in> set (mg_sleeps m). d \<le> max (unat (tc_reconnect_initial_ms T)) (unat (tc_reconnect_max_ms T)))"
proof -
  have ok: "manager_ok T m n" by (rule managed_ok [OF assms])
  then have sleeps: "\<forall>d \<in> set (mg_sleeps m). \<exists>k. d = backoff T k" by (auto simp: manager_ok_def)
  moreover have "backoff T k \<le> max (unat (tc_reconnect_initial_ms T)) (unat (tc_reconnect_max_ms T))" for k
    by (auto simp: backoff_def intro: le_trans [OF min.cobounded2 max.cobounded2])
  ultimately have "\<forall>d \<in> set (mg_sleeps m). d \<le> max (unat (tc_reconnect_initial_ms T)) (unat (tc_reconnect_max_ms T))"
    by metis
  with sleeps ok show ?thesis by (simp add: manager_ok_def backoff_def [abs_def])
qed

theorem manager_keeps_slot_and_backoff_witness:
  "let T = \<lparr>tc_host = ''h'', tc_port = 1, tc_connect_timeout_ms = 5, tc_reconnect_initial_ms = 100,
     tc_reconnect_max_ms = 300\<rparr>;
     m = manager_step T Slept (manager_step T DialFailed (manager_step T Slept (manager_step T DialFailed
       (start_manager T :: nat manager))))
   in mg_delay m = 300 \<and> mg_slot m = None"
proof -
  let ?T = "\<lparr>tc_host = ''h'', tc_port = 1, tc_connect_timeout_ms = 5, tc_reconnect_initial_ms = 100,
     tc_reconnect_max_ms = 300\<rparr>"
  let ?m0 = "start_manager ?T :: nat manager"
  let ?m2 = "manager_step ?T Slept (manager_step ?T DialFailed ?m0)"
  let ?m4 = "manager_step ?T Slept (manager_step ?T DialFailed ?m2)"
  have "managed ?T ?m4 (sleeps_after (manager_step ?T DialFailed ?m2) Slept (sleeps_after ?m2 DialFailed
      (sleeps_after (manager_step ?T DialFailed ?m0) Slept (sleeps_after ?m0 DialFailed 0))))"
    by (intro managed.intros)
  then have "managed ?T ?m4 2"
    by (simp add: sleeps_after_def start_manager_def go_to_sleep_def after_sleep_def numeral_2_eq_2)
  from manager_keeps_slot_and_backoff [OF this]
  show ?thesis by (simp add: Let_def start_manager_def go_to_sleep_def after_sleep_def)
qed

text \<open>A dead session leaves the slot and a live one stays: when the manager polls the session it serves,
  the slot is cleared exactly when the session's actor has ended or its phase is terminal; then the
  manager sleeps the delay of its state, and after that sleep and a successful dial the slot holds the new
  session.\<close>

theorem dead_session_replaced:
  assumes "mg_stage m = Serving e"
    and "w_slot w = Some (s, r)" "handle_status E w = (w', status)"
  shows "let polled = manager_step T (Polled status) m in
    if r = Running \<and> s_phase s \<notin> {Disconnected, Blocked} then polled = m
    else mg_slot polled = None
      \<and> mg_sleeps polled = mg_sleeps m @ [if e then unat (tc_reconnect_initial_ms T) else mg_delay m]
      \<and> mg_slot (manager_step T (Dialed peer h) (manager_step T Slept polled)) = Some h"
proof -
  have "terminal p \<longleftrightarrow> p \<in> {Disconnected, Blocked}" for p by (cases p) simp_all
  with assms(1) slot_status [OF assms(2,3)] show ?thesis
    by (simp add: Let_def on_poll_def session_status_of_def end_session_def go_to_sleep_def after_sleep_def)
qed

theorem dead_session_replaced_witness:
  "let T = \<lparr>tc_host = ''h'', tc_port = 1, tc_connect_timeout_ms = 5, tc_reconnect_initial_ms = 100,
     tc_reconnect_max_ms = 300\<rparr>;
     served = manager_step T (Dialed ''p'' (0 :: nat)) (start_manager T)
   in mg_slot served = Some 0 \<and> mg_slot (manager_step T (Polled (Err ActorStopped)) served) = None"
proof -
  let ?T = "\<lparr>tc_host = ''h'', tc_port = 1, tc_connect_timeout_ms = 5, tc_reconnect_initial_ms = 100,
     tc_reconnect_max_ms = 300\<rparr>"
  let ?m = "manager_step ?T (Dialed ''p'' (0 :: nat)) (start_manager ?T)"
  let ?w = "\<lparr>w_slot = Some (fst demo_start, Finished), w_shared = s_store (fst demo_start), w_limiter = new_limiter, w_clock = 9\<rparr>"
  have m: "mg_stage ?m = Serving False" "mg_slot ?m = Some 0" by (simp_all add: start_manager_def)
  obtain w' status where st: "handle_status demo_env ?w = (w', status)" by fastforce
  from slot_status [OF _ st, of "fst demo_start" Finished] have "status = Err ActorStopped" by simp
  with dead_session_replaced [OF m(1) _ st, of "fst demo_start" Finished ?T "''p''" 1] m(2) show ?thesis
    by (simp add: Let_def)
qed

section \<open>One request on a stream\<close>

text \<open>A client that sends one request and closes its side gets the service's response and nothing else.\<close>

lemma serve_one:
  assumes "from_slice payload = Ok request" "length payload \<le> frame_limit"
    and "execute X E sv (between n) request w = (w', Some response)"
    and "to_vec response = Ok answer" "length answer \<le> frame_limit" "faults n = (\<lambda>_. None)"
  shows "serve_client X E sv from_slice to_vec between faults n (be_bytes 4 (length payload) @ payload) out w
    = (out @ be_bytes 4 (length answer) @ answer, w')"
proof -
  have limit: "frame_limit \<le> u32_max" by (simp add: frame_limit_def u32_max_def)
  have "read_json_frame from_slice frame_limit (be_bytes 4 (length payload) @ payload) = ([], Ok request)"
    using read_frame_written [of payload frame_limit from_slice "[]", OF assms(2) le_trans [OF assms(2) limit]]
    by (simp only: append_Nil2 assms(1) map_err_simps)
  moreover have "write_json_frame to_vec (\<lambda>_. None) response frame_limit out = (out @ be_bytes 4 (length answer) @ answer, Ok ())"
    using le_trans [OF assms(5) limit] assms(4,5) by (simp add: write_frame_Ok del: be_bytes.simps)
  moreover have "serve_client X E sv from_slice to_vec between faults (Suc n) [] out' w' = (out', w')" for out'
    by (subst serve_client.simps) (simp add: read_json_frame_def read_exact_def)
  ultimately show ?thesis by (subst serve_client.simps) (simp only: assms(3,6) prod.case result.case option.case)
qed

lemma count_clients_bounded: "fold count_clients events 0 \<le> client_slots"
proof -
  have "fold count_clients events n \<le> client_slots" if "n \<le> client_slots" for n
    using that
  proof (induction events arbitrary: n)
    case (Cons e events)
    then show ?case by (cases e) simp_all
  qed simp
  then show ?thesis by simp
qed

end
