(* ===== verification/Fix_Client.thy ===== *)
theory Fix_Client
  imports Fix_Daemon
begin

text \<open>
  The command-line client of \<open>crates/fixctl/src/main.rs\<close>: the request a command line becomes, its
  exchange with the daemon over one stream, and the exit status.

  What the process asks its surroundings is \<open>ctl_host\<close>: standard input, files, serde, the clock, the
  process number and the connection. A connection is what the peer answers to everything that is sent.
  The command line is the value clap parses it to.
\<close>

section \<open>The command line\<close>

datatype ctl_mode = ModeDryRun | ModeCertification | ModeLive

fun execution_mode_of :: "ctl_mode \<Rightarrow> execution_mode" where
  "execution_mode_of ModeDryRun = DryRun"
| "execution_mode_of ModeCertification = Certification"
| "execution_mode_of ModeLive = Live"

datatype ctl_command =
    CtlInvoke bool
  | CtlStatus
  | CtlLogout "string option"
  | CtlNew string ctl_mode "string option"
  | CtlCancel string ctl_mode "string option"
  | CtlReplace string ctl_mode "string option"

record ctl_arguments =
  ca_profile :: "string option"
  ca_endpoint :: "string option"
  ca_command :: ctl_command

record ctl_host =
  ch_stdin :: "(string, string) result"
  ch_read :: "string \<Rightarrow> (string, bytes) result"
  ch_request :: "string \<Rightarrow> (string, control_request) result"
  ch_new_order :: "bytes \<Rightarrow> (string, new_order_single) result"
  ch_cancel_order :: "bytes \<Rightarrow> (string, cancel_order) result"
  ch_replace_order :: "bytes \<Rightarrow> (string, replace_order) result"
  ch_millis :: nat
  ch_pid :: nat
  ch_connect :: "string \<Rightarrow> (string, bytes \<Rightarrow> bytes) result"
  ch_faults :: ipc_faults
  ch_to_vec :: "control_request \<Rightarrow> (string, bytes) result"
  ch_from_slice :: "bytes \<Rightarrow> (string, control_response) result"
  ch_to_string :: "control_response \<Rightarrow> (string, string) result"

section \<open>The request\<close>

definition generated_request_id :: "ctl_host \<Rightarrow> string \<Rightarrow> string" where
  "generated_request_id H prefix = prefix @ ''-'' @ dec (ch_millis H) @ ''-'' @ dec (ch_pid H)"

definition request_id_or :: "ctl_host \<Rightarrow> string \<Rightarrow> string option \<Rightarrow> string" where
  "request_id_or H prefix given = (case given of None \<Rightarrow> generated_request_id H prefix | Some i \<Rightarrow> i)"

definition ctl_request :: "string \<Rightarrow> string \<Rightarrow> execution_mode \<Rightarrow> control_command \<Rightarrow> control_request" where
  "ctl_request profile i mode command = \<lparr>rq_version = 1, rq_request_id = i, rq_profile = profile,
     rq_execution_mode = mode, rq_command = command, rq_auth = None\<rparr>"

definition order_input :: "ctl_host \<Rightarrow> (bytes \<Rightarrow> (string, 'a) result) \<Rightarrow> string \<Rightarrow> (string, 'a) result" where
  "order_input H parse path = bindR (ch_read H path) parse"

fun build_request :: "ctl_host \<Rightarrow> string \<Rightarrow> ctl_command \<Rightarrow> (string, control_request) result" where
  "build_request H profile (CtlInvoke stdin) =
     (if \<not> stdin then Err ''invoke requires --stdin'' else bindR (ch_stdin H) (ch_request H))"
| "build_request H profile CtlStatus = Ok (ctl_request profile (generated_request_id H ''status'') Inspect SessionStatus)"
| "build_request H profile (CtlLogout i) =
     Ok (ctl_request profile (request_id_or H ''logout'' i) Certification SessionLogout)"
| "build_request H profile (CtlNew path mode i) =
     bindR (order_input H (ch_new_order H) path) (\<lambda>order.
     Ok (ctl_request profile (request_id_or H ''order'' i) (execution_mode_of mode) (NewOrderSingle order)))"
| "build_request H profile (CtlCancel path mode i) =
     bindR (order_input H (ch_cancel_order H) path) (\<lambda>order.
     Ok (ctl_request profile (request_id_or H ''cancel'' i) (execution_mode_of mode) (CancelOrder order)))"
| "build_request H profile (CtlReplace path mode i) =
     bindR (order_input H (ch_replace_order H) path) (\<lambda>order.
     Ok (ctl_request profile (request_id_or H ''replace'' i) (execution_mode_of mode) (ReplaceOrder order)))"

section \<open>The exchange\<close>

definition invoke :: "ctl_host \<Rightarrow> string \<Rightarrow> control_request \<Rightarrow> (string, control_response) result" where
  "invoke H endpoint request =
     bindR (map_err (\<lambda>e. ipc_error_string (IpcIo e)) (ch_connect H endpoint)) (\<lambda>peer.
     case write_json_frame (ch_to_vec H) (ch_faults H) request frame_limit [] of
       (sent, Ok _) \<Rightarrow> map_err ipc_error_string (snd (read_json_frame (ch_from_slice H) frame_limit (peer sent)))
     | (_, Err e) \<Rightarrow> Err (ipc_error_string e)
     | (_, Panic) \<Rightarrow> Panic)"

text \<open>How the process ends: its exit status, standard output and standard error.\<close>

datatype ctl_outcome = Exit int "string list" "string list" | ExitPanic

definition print_response :: "ctl_host \<Rightarrow> control_response \<Rightarrow> ctl_outcome" where
  "print_response H response = (case ch_to_string H response of
     Ok t \<Rightarrow> Exit (exit_code response) [t] []
   | _ \<Rightarrow> ExitPanic)"

definition ctl_main :: "ctl_host \<Rightarrow> ctl_arguments \<Rightarrow> ctl_outcome" where
  "ctl_main H arguments =
     (case ca_profile arguments of
        None \<Rightarrow> Exit 2 [] [''--profile is required'']
      | Some profile \<Rightarrow>
          (case build_request H profile (ca_command arguments) of
             Err e \<Rightarrow> Exit 2 [] [e]
           | Panic \<Rightarrow> ExitPanic
           | Ok request \<Rightarrow>
               (case invoke H (case ca_endpoint arguments of None \<Rightarrow> endpoint_for_profile profile | Some e \<Rightarrow> e) request of
                  Err e \<Rightarrow> Exit 70 [] [e]
                | Panic \<Rightarrow> ExitPanic
                | Ok response \<Rightarrow> print_response H response)))"

section \<open>Generated identifiers\<close>

lemma length_dec: "n < 10 ^ Suc k \<Longrightarrow> length (dec n) \<le> Suc k"
proof (induction k arbitrary: n)
  case (Suc k)
  then have "n div 10 < 10 ^ Suc k" by simp
  from Suc.IH [OF this] show ?case by (subst dec.simps) simp
qed (simp add: dec.simps)

lemma dec_alphanumeric: "b \<in> set (as_bytes (dec n)) \<Longrightarrow> is_ascii_alphanumeric b"
  by (drule dec_digits) (simp add: is_ascii_alphanumeric_def)

text \<open>\<open>as_millis\<close> is a \<open>u128\<close> and the process number a \<open>u32\<close>.\<close>

lemma generated_request_id_valid:
  assumes "ch_millis H < 2 ^ 128" "ch_pid H < 2 ^ 32"
    and "prefix \<in> {''status'', ''logout'', ''order'', ''cancel'', ''replace''}"
  shows "valid_request_id (generated_request_id H prefix)"
proof -
  have "length (dec (ch_millis H)) \<le> Suc 38" by (rule length_dec) (use assms(1) in simp)
  moreover have "length (dec (ch_pid H)) \<le> Suc 9" by (rule length_dec) (use assms(2) in simp)
  ultimately show ?thesis using assms(3)
    by (auto simp: valid_request_id_def generated_request_id_def is_ascii_alphanumeric_def is_digit_def
        dest: dec_alphanumeric)
qed

fun given_request_id :: "ctl_command \<Rightarrow> string option" where
  "given_request_id (CtlLogout i) = i"
| "given_request_id (CtlNew _ _ i) = i"
| "given_request_id (CtlCancel _ _ i) = i"
| "given_request_id (CtlReplace _ _ i) = i"
| "given_request_id _ = None"

section \<open>Properties\<close>

text \<open>C40: what the daemon of its profile makes of the envelope of every request the client sends, exactly. A
  request the client builds itself (every command but \<open>invoke\<close>) has the right version and profile, and a
  generated identifier is always valid, so it is refused in two cases only: an identifier the user gave with
  \<open>--request-id\<close> is sent unchecked and refused as INVALID_REQUEST when it is not a valid one, and live execution is refused
  as LIVE_GUARD_NOT_ARMED. What \<open>invoke --stdin\<close> sends is the parsed input as it is: the client checks
  nothing of it, and any envelope can be refused.\<close>

theorem built_requests_pass_envelope:
  assumes "build_request H profile command = Ok request"
    and "ch_millis H < 2 ^ 128" "ch_pid H < 2 ^ 32"
    and "pl_profile P = profile" "pl_runtime_mode P = RuntimeCertification"
  shows "if command \<in> range CtlInvoke
    then command = CtlInvoke True \<and> (\<exists>input. ch_stdin H = Ok input \<and> ch_request H input = Ok request)
    else case validate_envelope P request of
        Ok _ \<Rightarrow> valid_request_id (rq_request_id request) \<and> rq_execution_mode request \<noteq> Live
      | Err e \<Rightarrow>
          (\<exists>i. given_request_id command = Some i \<and> rq_request_id request = i \<and> \<not> valid_request_id i
             \<and> ce_code e = ''INVALID_REQUEST'')
          \<or> (valid_request_id (rq_request_id request) \<and> rq_execution_mode request = Live
             \<and> ce_code e = ''LIVE_GUARD_NOT_ARMED'')
      | Panic \<Rightarrow> False"
proof (cases "command \<in> range CtlInvoke")
  case True
  with assms(1) show ?thesis by (auto simp: bindR_eq_Ok split: if_splits)
next
  case False
  have ids: "valid_request_id (request_id_or H prefix i) \<or> i = Some (request_id_or H prefix i)"
    if "prefix \<in> {''status'', ''logout'', ''order'', ''cancel'', ''replace''}" for prefix i
    using generated_request_id_valid [OF assms(2,3) that] by (auto simp: request_id_or_def split: option.split)
  have "valid_request_id (rq_request_id request)
      \<or> (\<exists>i. given_request_id command = Some i \<and> rq_request_id request = i \<and> \<not> valid_request_id i)"
    using assms(1) False generated_request_id_valid [OF assms(2,3), of "''status''"]
      ids [of "''logout''" "given_request_id command"] ids [of "''order''" "given_request_id command"]
      ids [of "''cancel''" "given_request_id command"] ids [of "''replace''" "given_request_id command"]
    by (cases command) (auto simp: ctl_request_def bindR_eq_Ok)
  moreover have "rq_version request = 1" "rq_profile request = profile"
    using assms(1) False by (cases command; auto simp: ctl_request_def bindR_eq_Ok)+
  ultimately show ?thesis using False assms(4,5) by (auto simp: validate_envelope_def invalid_def)
qed

definition demo_host :: ctl_host where
  "demo_host = \<lparr>ch_stdin = Err ''closed'', ch_read = \<lambda>_. Err ''no file'', ch_request = \<lambda>_. Err ''no JSON'',
     ch_new_order = \<lambda>_. Err ''no JSON'', ch_cancel_order = \<lambda>_. Err ''no JSON'', ch_replace_order = \<lambda>_. Err ''no JSON'',
     ch_millis = 1700000000000, ch_pid = 7, ch_connect = \<lambda>_. Err ''refused'', ch_faults = \<lambda>_. None,
     ch_to_vec = \<lambda>_. Ok [1], ch_from_slice = \<lambda>_. Err ''no JSON'', ch_to_string = \<lambda>r. Ok (rp_request_id r)\<rparr>"

text \<open>A status request with its generated identifier, and a logout whose given identifier has a space.\<close>

theorem built_requests_pass_envelope_witness:
  "validate_envelope \<lparr>pl_profile = ''S-T'', pl_runtime_mode = RuntimeCertification, pl_policy = (deny_all :: int policy)\<rparr>
     (ctl_request ''S-T'' (generated_request_id demo_host ''status'') Inspect SessionStatus) = Ok ()
   \<and> (\<exists>e. validate_envelope \<lparr>pl_profile = ''S-T'', pl_runtime_mode = RuntimeCertification, pl_policy = (deny_all :: int policy)\<rparr>
     (ctl_request ''S-T'' ''a b'' Certification SessionLogout) = Err e \<and> ce_code e = ''INVALID_REQUEST'')"
proof -
  let ?P = "\<lparr>pl_profile = ''S-T'', pl_runtime_mode = RuntimeCertification, pl_policy = (deny_all :: int policy)\<rparr>"
  let ?s = "ctl_request ''S-T'' (generated_request_id demo_host ''status'') Inspect SessionStatus"
    and ?l = "ctl_request ''S-T'' ''a b'' Certification SessionLogout"
  have invalid: "\<not> valid_request_id ''a b''" by (simp add: fix_eval)
  have host: "ch_millis demo_host < 2 ^ 128" "ch_pid demo_host < 2 ^ 32" by (simp_all add: demo_host_def)
  have own: "CtlStatus \<notin> range CtlInvoke" "CtlLogout i \<notin> range CtlInvoke" for i by auto
  have built: "build_request demo_host ''S-T'' CtlStatus = Ok ?s" "build_request demo_host ''S-T'' (CtlLogout (Some ''a b'')) = Ok ?l"
    by (simp_all add: request_id_or_def)
  have P: "pl_profile ?P = ''S-T''" "pl_runtime_mode ?P = RuntimeCertification" by simp_all
  have "validate_envelope ?P ?s = Ok ()"
    using built_requests_pass_envelope [OF built(1) host P] unfolding if_not_P [OF own(1)]
    by (simp add: ctl_request_def split: result.splits)
  moreover have "\<exists>e. validate_envelope ?P ?l = Err e \<and> ce_code e = ''INVALID_REQUEST''"
    using built_requests_pass_envelope [OF built(2) host P] invalid unfolding if_not_P [OF own(2)]
    by (simp add: ctl_request_def split: result.splits)
  ultimately show ?thesis by blast
qed

text \<open>C36: the client and the daemon compose. When a command line becomes a request, the connection leads to the
  daemon's client loop, serde prints and parses the request and the response back, both fit into a frame, and
  the service answers, then the daemon executes exactly that request once and the client prints exactly
  the service's response and exits with its documented code.\<close>

theorem client_prints_the_services_answer:
  assumes "ca_profile arguments = Some profile" "build_request H profile (ca_command arguments) = Ok request"
    and "ch_connect H (case ca_endpoint arguments of None \<Rightarrow> endpoint_for_profile profile | Some e \<Rightarrow> e)
      = Ok (\<lambda>sent. fst (serve_client X E sv from_slice to_vec between (\<lambda>_ _. None) 0 sent [] w))"
    and "ch_faults H = (\<lambda>_. None)"
    and "ch_to_vec H request = Ok payload" "from_slice payload = Ok request" "length payload \<le> frame_limit"
    and "execute X E sv (between 0) request w = (w', Some response)"
    and "to_vec response = Ok answer" "ch_from_slice H answer = Ok response" "length answer \<le> frame_limit"
    and "ch_to_string H response = Ok line"
  shows "ctl_main H arguments = Exit (exit_code response) [line] []
    \<and> snd (serve_client X E sv from_slice to_vec between (\<lambda>_ _. None) 0 (be_bytes 4 (length payload) @ payload) [] w) = w'"
proof -
  have limit: "frame_limit \<le> u32_max" by (simp add: frame_limit_def u32_max_def)
  have sent: "write_json_frame (ch_to_vec H) (\<lambda>_. None) request frame_limit [] = (be_bytes 4 (length payload) @ payload, Ok ())"
    using assms(5,7) le_trans [OF assms(7) limit] by (simp add: write_frame_Ok del: be_bytes.simps)
  have served: "serve_client X E sv from_slice to_vec between (\<lambda>_ _. None) 0 (be_bytes 4 (length payload) @ payload) [] w
      = (be_bytes 4 (length answer) @ answer, w')"
    using serve_one [where from_slice = from_slice and to_vec = to_vec and between = between and n = 0
      and faults = "\<lambda>_ _. None" and out = "[]", OF assms(6,7,8,9,11)] by simp
  have "read_json_frame (ch_from_slice H) frame_limit (be_bytes 4 (length answer) @ answer) = ([], Ok response)"
    using read_frame_written [OF assms(11) le_trans [OF assms(11) limit], of "ch_from_slice H" "[]"]
    by (simp only: append_Nil2 assms(10) map_err_simps)
  then have "invoke H (case ca_endpoint arguments of None \<Rightarrow> endpoint_for_profile profile | Some e \<Rightarrow> e) request = Ok response"
    by (simp add: invoke_def assms(3,4) sent served del: be_bytes.simps)
  with served show ?thesis by (simp add: ctl_main_def print_response_def assms(1,2,12))
qed

definition demo_status_request :: control_request where
  "demo_status_request = ctl_request ''S-T'' (generated_request_id demo_host ''status'') Inspect SessionStatus"

definition demo_service :: "int service" where
  "demo_service = \<lparr>sv_planner = \<lparr>pl_profile = ''S-T'', pl_runtime_mode = RuntimeCertification, pl_policy = deny_all\<rparr>,
     sv_has_store = True\<rparr>"

definition status_externals :: "int externals" where
  "status_externals = \<lparr>x_parse_decimal = \<lambda>_. None, x_checked_mul = \<lambda>a b. Some (a * b), x_decimal_text = \<lambda>_. [], x_sha256 = \<lambda>b. b\<rparr>"

definition demo_world :: "journal worker world" where
  "demo_world = \<lparr>w_slot = None, w_shared = s_store (fst demo_start), w_limiter = new_limiter, w_clock = 9\<rparr>"

definition demo_status_response :: control_response where
  "demo_status_response = success (rq_request_id demo_status_request) (status_json \<lparr>ss_phase = Disconnected, ss_next_out = 0,
     ss_next_in = 0, ss_test_request_outstanding = None\<rparr>)"

lemma demo_status_executed:
  "execute status_externals demo_env demo_service [] demo_status_request demo_world = (demo_world, Some demo_status_response)"
proof -
  have "validate_envelope (sv_planner demo_service) demo_status_request = Ok ()"
    using generated_request_id_valid [of demo_host "''status''"]
    by (simp add: validate_envelope_def demo_status_request_def ctl_request_def demo_service_def demo_host_def)
  then have "plan status_externals (sv_planner demo_service) demo_status_request = Ok PlannedStatus"
    by (simp add: plan_def demo_status_request_def ctl_request_def)
  then show ?thesis by (simp add: execute_def execute_planned_def demo_world_def demo_status_response_def)
qed

theorem client_prints_the_services_answer_witness:
  "ctl_main (demo_host\<lparr>ch_connect := \<lambda>endpoint. if endpoint = ''/tmp/fixd.S-T.sock''
       then Ok (\<lambda>sent. fst (serve_client status_externals demo_env demo_service (\<lambda>_. Ok demo_status_request) (\<lambda>_. Ok [2, 3])
         (\<lambda>_. []) (\<lambda>_ _. None) 0 sent [] demo_world))
       else Err ''no such file'', ch_from_slice := \<lambda>_. Ok demo_status_response\<rparr>)
     \<lparr>ca_profile = Some ''S-T'', ca_endpoint = None, ca_command = CtlStatus\<rparr>
   = Exit 0 [''status-1700000000000-7''] []"
proof -
  let ?H = "demo_host\<lparr>ch_connect := \<lambda>endpoint. if endpoint = ''/tmp/fixd.S-T.sock''
       then Ok (\<lambda>sent. fst (serve_client status_externals demo_env demo_service (\<lambda>_. Ok demo_status_request) (\<lambda>_. Ok [2, 3])
         (\<lambda>_. []) (\<lambda>_ _. None) 0 sent [] demo_world))
       else Err ''no such file'', ch_from_slice := \<lambda>_. Ok demo_status_response\<rparr>"
  let ?a = "\<lparr>ca_profile = Some ''S-T'', ca_endpoint = None, ca_command = CtlStatus\<rparr>"
  have id: "rp_request_id demo_status_response = ''status-1700000000000-7''"
    by (simp add: demo_status_response_def demo_status_request_def ctl_request_def generated_request_id_def demo_host_def
        success_def fix_eval)
  have built: "build_request ?H ''S-T'' CtlStatus = Ok demo_status_request"
    by (simp add: demo_status_request_def generated_request_id_def demo_host_def)
  have "ctl_main ?H ?a = Exit (exit_code demo_status_response) [rp_request_id demo_status_response] []
    \<and> snd (serve_client status_externals demo_env demo_service (\<lambda>_. Ok demo_status_request) (\<lambda>_. Ok [2, 3])
         (\<lambda>_. []) (\<lambda>_ _. None) 0 (be_bytes 4 (length [1 :: u8]) @ [1]) [] demo_world) = demo_world"
    by (rule client_prints_the_services_answer [where profile = "''S-T''" and request = demo_status_request and answer = "[2, 3]" and response = demo_status_response])
      (simp_all add: built demo_status_executed del: be_bytes.simps build_request.simps,
        simp_all add: demo_host_def endpoint_for_profile_def frame_limit_def)
  then show ?thesis unfolding id by (simp add: exit_code_def demo_status_response_def success_def)
qed

end
