(* ===== verification/Spec2Isabelle.thy ===== *)
theory Spec2Isabelle
  imports Fix_Codec Fix_Port Fix_Gap Fix_Replay Fix_Handshake Fix_Fuzz Fix_Client
begin

text \<open>
  A verification development for fix-cli, a FIX 4.4 initiator in Rust: \<open>fixd\<close> keeps a FIX session to a
  venue and a journal of what it sent and received, \<open>fixctl\<close> submits JSON commands to it over a local
  stream, \<open>fix-mock\<close> is a venue to test against and \<open>fix-fuzz\<close> a campaign against the decoder.

  \<^bold>\<open>The program.\<close> A control request reaches \<open>ControlService::execute\<close>, which plans it (envelope, order and risk
  checks, the FIX message it becomes and its fingerprint), looks its identifier up in the journal, asks the
  rate limiter and hands it to the session actor through the handle in the session slot. The actor owns
  the connection, the three counters and the gap buffer; it writes every frame to the journal before it
  writes it to the socket, answers resend requests from the journal and recovers gaps. The journal is a
  redb database behind a worker thread. The connection manager of the daemon dials, fills the slot with a
  new actor and empties it when the actor ends.

  \<^bold>\<open>Theories and sources\<close> (under \<open>src/crates\<close>).
  \<^item> \<open>Fix_Prelude\<close>, \<open>Fix_Bytes\<close>, \<open>Fix_Effects\<close>: machine integers, Rust results, slices, decimal text and UTF-8;
    big-endian and hexadecimal bytes; stateful code with errors, its triples and its frame rules.
  \<^item> \<open>Fix_Protocol\<close>, \<open>Fix_Codec\<close>: \<open>fix-protocol/src/lib.rs\<close>. \<open>encode_message\<close>, \<open>parse_frame\<close>, \<open>try_take_frame\<close> and \<open>ingest\<close>
    as the code has them; a declarative frame grammar, the round trip, exactness of framing and parsing,
    independence of the fragmentation of the stream, freedom from panics.
  \<^item> \<open>Fix_Store\<close>, \<open>Fix_Journal\<close>, \<open>Fix_Port\<close>: \<open>fix-store/src/lib.rs\<close>. The tables are maps of typed records, every
    call of redb or serde asks a fault oracle under its own key, an operation is a transaction.
    \<open>journal_log\<close> with \<open>log_apply\<close> is the abstract journal; \<open>store_port\<close> is the locale of what a client of the
    store may rely on, interpreted for redb behind its worker.
  \<^item> \<open>Fix_Session\<close>, \<open>Fix_Actor\<close>: \<open>fix-session/src/lib.rs\<close>, one action per method of \<open>SessionActor\<close>; \<open>run_turn\<close> is one turn of
    the \<open>select!\<close> loop, \<open>actor_step\<close> adds what the task does with its result, \<open>reachable\<close> are the states a session
    can get to. \<open>Fix_Ledger\<close>, \<open>Fix_Reach\<close>, \<open>Fix_Safety\<close>: the write-ahead invariant, the agreement of counters and
    journal, with the one frame that escapes the invariant (a command of an earlier numbering, which ends the
    session). The code lets a client use the IDs \<open>session:...\<close> of the actor's own messages. Two conditions on clients
    appear in the theorems: \<open>unforged\<close> (never such an ID together with a fingerprint \<open>admin:...\<close>), which suffices
    for safety, and \<open>outside_namespace\<close> (never such an ID), which keeps the next session's Logon free.
    \<open>Fix_Gap\<close>, \<open>Fix_Replay\<close>: the gap buffer and the answer to a resend request.
  \<^item> \<open>Fix_Control\<close>, \<open>Fix_Planner\<close>, \<open>Fix_Limiter\<close>, \<open>Fix_Service\<close>, \<open>Fix_Gateway\<close>: \<open>fix-control/src/lib.rs\<close>, the planner, the limiter
    and \<open>execute\<close> over a world of slot, store, limiter and clock.
  \<^item> \<open>Fix_Delivery\<close>, \<open>Fix_Mock\<close>, \<open>Fix_Handshake\<close>: total correctness over a store that answers: an admitted order is
    journaled and written; the acceptor of \<open>fix-mock/src/lib.rs\<close>; the Logon that opens a session over the journal of
    the last one, and the exchange between the two.
  \<^item> \<open>Fix_Fuzz\<close>: \<open>fix-fuzz\<close>. \<open>Fix_Ipc\<close>: \<open>fix-ipc/src/lib.rs\<close>, frames and the Unix listener.
  \<^item> \<open>Fix_Cfg\<close>: \<open>fix-session/src/quickfix_cfg.rs\<close>. \<open>Fix_Logging\<close>: \<open>fix-session/src/logging.rs\<close>.
  \<^item> \<open>Fix_Daemon\<close>: \<open>fixd/src/quickfix.rs\<close> (\<open>start_daemon\<close>, \<open>serve_client\<close>) and \<open>fixd/src/lib.rs\<close> (\<open>manager_step\<close>).
    \<open>Fix_Client\<close>: \<open>fixctl/src/main.rs\<close>.

  \<^bold>\<open>Where the code departs from its documents.\<close> The theorems say what the code does, also where that is not what was
  meant, and their texts name the difference: messages with DATA fields, frames lost to a later malformed one, market
  orders past the risk limits, extra tags the session refuses, a missing port, a rate limit cut to 32 bits.

  \<^bold>\<open>Conventions.\<close> Overflow of \<open>+\<close> and \<open>*\<close> on \<open>u64\<close> is a panic, as in the dev and test profiles the repository builds.
  Functions on \<open>&mut self\<close> return the new state also when they fail. What code asks its surroundings for
  (the store's answer, the clock, a failing write) comes from an environment indexed by a tick that
  counts the questions, so two questions may get different answers. Third-party code is a parameter:
  rust_decimal, sha2, serde and redb's engine; hypotheses about it are stated in the theorems that use it.

  \<^bold>\<open>Bounds.\<close> No model runs on fuel. The loops that consume input (\<open>ingest\<close>, \<open>str_lines\<close>, \<open>trim_with\<close>, \<open>serve_client\<close>) are
  functions whose termination is proved by the length of what is left, the drain of the gap buffer by its
  size, the fuzz campaign by its number of cases. Endless loops (the actor, the manager, the acceptor) are
  step functions with an inductive predicate of the states they reach.

  \<^bold>\<open>Not modelled.\<close> The scheduling of tokio beyond the order of the awaits: an actor whose handle was dropped may
  take a few more turns while its successor starts, which the slot of the model does not keep.
  The accept and connect calls of the operating system and the Windows variants of the IPC crate, the
  parsing of command lines by clap, the rendering of JSON, the quoting of strings by \<open>{:?}\<close>, the text of
  foreign errors, failing writes to log files (the code ignores them), the overflow of \<open>Instant\<close> arithmetic
  for absurd heartbeat intervals, and the printing of statistics.
\<close>

end
